(* ===== verification/Prelude.thy ===== *)
theory Prelude
  imports Main "HOL-Library.Finite_Map" "HOL-Library.Multiset"
begin

text \<open>
  Shared vocabulary of the development.  A Go call either returns a value, returns an
  error value, or panics (\<open>go\<close>).  An error value is kept with the text its
  \<open>Error()\<close> method yields, because the controllers write that text into the status of
  a request, and with the two API reasons the code tests for (\<open>IsNotFound\<close>,
  \<open>IsAlreadyExists\<close>).  The theory also holds the lemma collections and the list and
  finite-map facts that the components share.
\<close>

named_theorems wp_rules \<open>rules of the trace calculus, one per program construct\<close>
named_theorems exec_rules \<open>successful traces of a program, one rule per construct\<close>
named_theorems run_rules \<open>evaluation of a program on a script of replies\<close>
named_theorems guard_simps \<open>evaluation of trace guards on one API call\<close>

section \<open>Results of Go calls\<close>

datatype goerr =
    GoError string
  | NotFound string
  | AlreadyExists string

fun error_text :: "goerr \<Rightarrow> string" where
  "error_text (GoError t) = t"
| "error_text (NotFound t) = t"
| "error_text (AlreadyExists t) = t"

fun isNotFound :: "goerr \<Rightarrow> bool" where
  "isNotFound (NotFound _) = True"
| "isNotFound _ = False"

fun isAlreadyExists :: "goerr \<Rightarrow> bool" where
  "isAlreadyExists (AlreadyExists _) = True"
| "isAlreadyExists _ = False"

datatype 'a go = Ok 'a | Err goerr | Panic

fun go_bind :: "'a go \<Rightarrow> ('a \<Rightarrow> 'b go) \<Rightarrow> 'b go" where
  "go_bind (Ok x) f = f x"
| "go_bind (Err e) f = Err e"
| "go_bind Panic f = Panic"

fun of_option :: "'a option \<Rightarrow> 'a go" where
  "of_option None = Panic"
| "of_option (Some x) = Ok x"

definition fail :: "string \<Rightarrow> 'a go" where
  "fail t = Err (GoError t)"

lemma fail_simps [simp]: "fail t \<noteq> Ok x" "fail t \<noteq> Panic" "Ok x \<noteq> fail t"
  by (simp_all add: fail_def)

lemma go_bind_Ok_iff: "go_bind r f = Ok y \<longleftrightarrow> (\<exists>x. r = Ok x \<and> f x = Ok y)"
  by (cases r) auto

lemma go_bind_Panic_iff: "go_bind r f = Panic \<longleftrightarrow> r = Panic \<or> (\<exists>x. r = Ok x \<and> f x = Panic)"
  by (cases r) auto

lemma of_option_Ok_iff [simp]: "of_option r = Ok x \<longleftrightarrow> r = Some x"
  by (cases r) auto

lemma of_option_Panic_iff [simp]: "of_option r = Panic \<longleftrightarrow> r = None"
  by (cases r) auto

text \<open>Go's \<open>client.IgnoreNotFound\<close>.\<close>

definition IgnoreNotFound :: "goerr \<Rightarrow> goerr option" where
  "IgnoreNotFound e = (if isNotFound e then None else Some e)"

text \<open>
  \<open>fmt.Errorf("...%w", err)\<close>: the new text followed by the text of the wrapped error, whose
  API reason stays visible to the tests above.
\<close>

fun wrapError :: "string \<Rightarrow> goerr \<Rightarrow> goerr" where
  "wrapError t (GoError u) = GoError (t @ u)"
| "wrapError t (NotFound u) = NotFound (t @ u)"
| "wrapError t (AlreadyExists u) = AlreadyExists (t @ u)"

lemma error_text_wrapError [simp]: "error_text (wrapError t e) = t @ error_text e"
  by (cases e) auto

section \<open>Lists and finite maps\<close>

lemma fmdrop_fmupd_fresh: "fmlookup m k = None \<Longrightarrow> fmdrop k (fmupd k v m) = m"
  by (rule fmap_ext) auto

lemma fmupd_lookup_same: "fmlookup m k = Some v \<Longrightarrow> fmupd k v m = m"
  by (rule fmap_ext) auto

lemma fmdrop_absent: "fmlookup m k = None \<Longrightarrow> fmdrop k m = m"
  by (rule fmap_ext) auto

lemma fmupd_twice [simp]: "fmupd k v (fmupd k w m) = fmupd k v m"
  by (rule fmap_ext) auto

lemma fmdrop_fmupd_twice [simp]: "fmdrop k (fmupd k v m) = fmdrop k m"
  by (rule fmap_ext) auto

lemma fmdrop_upd_other: "k \<noteq> l \<Longrightarrow> fmdrop k (fmupd l v m) = fmupd l v (fmdrop k m)"
  by (rule fmap_ext) auto

lemma fmdrop_swap: "fmdrop k (fmdrop l m) = fmdrop l (fmdrop k m)"
  by (rule fmap_ext) auto

lemma fmupd_swap: "k \<noteq> l \<Longrightarrow> fmupd k v (fmupd l w m) = fmupd l w (fmupd k v m)"
  by (rule fmap_ext) auto

lemma fmupd_not_empty [simp]: "fmupd k v m \<noteq> fmempty"
  by (metis fmempty_lookup fmupd_lookup option.distinct(1))

text \<open>The first error of a check that runs over a list, as a Go loop with an early return.\<close>

fun first_error :: "('a \<Rightarrow> goerr option) \<Rightarrow> 'a list \<Rightarrow> goerr option" where
  "first_error f [] = None"
| "first_error f (x # xs) = (case f x of None \<Rightarrow> first_error f xs | Some e \<Rightarrow> Some e)"

lemma first_error_None_iff: "first_error f xs = None \<longleftrightarrow> (\<forall>x\<in>set xs. f x = None)"
  by (induction xs) (auto split: option.splits)

lemma first_error_Some: "first_error f xs = Some e \<Longrightarrow> \<exists>x\<in>set xs. f x = Some e"
  by (induction xs) (auto split: option.splits)

end
