(* ===== verification/GoStrings.thy ===== *)
theory GoStrings
  imports Prelude "HOL-Library.Char_ord" "HOL-Library.List_Lexorder"
begin

text \<open>
  Go strings are byte strings, so they are \<open>string\<close> here, with the byte order of
  \<open>sort.Strings\<close> given by the lexicographic order on characters.  The theory models the
  pieces of \<open>fmt\<close>, \<open>strings\<close> and \<open>encoding/hex\<close> that the code uses: \<open>%d\<close> on integers,
  \<open>strings.TrimPrefix\<close>, \<open>strings.Join\<close> and the hexadecimal digest text, and proves that
  the decimal rendering can be read back.
\<close>

section \<open>Decimal rendering\<close>

definition digit :: "nat \<Rightarrow> char" where
  "digit n = char_of (48 + n)"

fun showNat :: "nat \<Rightarrow> string" where
  "showNat n = (if n < 10 then [digit n] else showNat (n div 10) @ [digit (n mod 10)])"

declare showNat.simps [simp del]

definition showInt :: "int \<Rightarrow> string" where
  "showInt i = (if i < 0 then ''-'' @ showNat (nat (- i)) else showNat (nat i))"

definition isDigit :: "char \<Rightarrow> bool" where
  "isDigit c \<longleftrightarrow> \<not> (c < CHR ''0'' \<or> CHR ''9'' < c)"

definition readDigit :: "char \<Rightarrow> nat" where
  "readDigit c = of_char c - 48"

definition readNat :: "string \<Rightarrow> nat" where
  "readNat s = foldl (\<lambda>n c. 10 * n + readDigit c) 0 s"

lemma digit_0 [simp]: "digit 0 = CHR ''0''"
  by code_simp

lemma of_char_digit: "n < 10 \<Longrightarrow> of_char (digit n) = 48 + n"
  by (simp add: digit_def)

lemma isDigit_iff: "isDigit c \<longleftrightarrow> 48 \<le> (of_char c :: nat) \<and> (of_char c :: nat) \<le> 57"
  by (auto simp: isDigit_def less_char_def)

lemma isDigit_digit: "n < 10 \<Longrightarrow> isDigit (digit n)"
  by (simp add: isDigit_iff of_char_digit)

lemma readDigit_digit: "n < 10 \<Longrightarrow> readDigit (digit n) = n"
  by (simp add: readDigit_def of_char_digit)

lemma digit_eq_iff: "m < 10 \<Longrightarrow> n < 10 \<Longrightarrow> digit m = digit n \<longleftrightarrow> m = n"
  by (metis readDigit_digit)

lemma showNat_digits: "\<forall>c\<in>set (showNat n). isDigit c"
proof (induction n rule: showNat.induct)
  case (1 n)
  then show ?case
    by (cases "n < 10") (auto simp: showNat.simps [of n] isDigit_digit)
qed

lemma readNat_showNat: "readNat (showNat n) = n"
proof (induction n rule: showNat.induct)
  case (1 n)
  then show ?case
    by (cases "n < 10") (auto simp: showNat.simps [of n] readNat_def readDigit_digit)
qed

lemma showNat_inj: "showNat m = showNat n \<longleftrightarrow> m = n"
  by (metis readNat_showNat)

lemma showNat_nonempty [simp]: "showNat n \<noteq> []"
  by (subst showNat.simps) simp

lemma showNat_no_leading_zero: "n \<noteq> 0 \<Longrightarrow> hd (showNat n) \<noteq> CHR ''0''"
proof (induction n rule: showNat.induct)
  case (1 n)
  show ?case
  proof (cases "n < 10")
    case True
    with 1(2) have "digit n \<noteq> digit 0" by (simp add: digit_eq_iff del: digit_0)
    with True show ?thesis by (simp add: showNat.simps [of n])
  next
    case False
    with 1 have "hd (showNat (n div 10)) \<noteq> CHR ''0''" by simp
    with False show ?thesis by (simp add: showNat.simps [of n] hd_append)
  qed
qed

lemma showNat_zero: "showNat 0 = ''0''"
  by (simp add: showNat.simps)

lemma showInt_inj: "showInt i = showInt j \<longleftrightarrow> i = j"
proof -
  have minus: "\<not> isDigit CHR ''-''" by (simp add: isDigit_iff)
  have head: "hd (showNat n) \<noteq> CHR ''-''" for n
    using minus showNat_digits [of n] by (metis hd_in_set showNat_nonempty)
  have no: "CHR ''-'' # s \<noteq> showNat n" for s n using head [of n] by (metis list.sel(1))
  have no': "showNat n \<noteq> CHR ''-'' # s" for s n by (rule not_sym) (rule no)
  show ?thesis by (auto simp: showInt_def showNat_inj no no' split: if_splits)
qed

section \<open>Prefixes and joining\<close>

fun hasPrefix :: "string \<Rightarrow> string \<Rightarrow> bool" where
  "hasPrefix s [] = True"
| "hasPrefix [] (p # ps) = False"
| "hasPrefix (c # s) (p # ps) = (c = p \<and> hasPrefix s ps)"

definition TrimPrefix :: "string \<Rightarrow> string \<Rightarrow> string" where
  "TrimPrefix s p = (if hasPrefix s p then drop (length p) s else s)"

lemma hasPrefix_iff: "hasPrefix s p \<longleftrightarrow> (\<exists>t. s = p @ t)"
  by (induction s p rule: hasPrefix.induct) auto

lemma TrimPrefix_append [simp]: "TrimPrefix (p @ s) p = s"
  by (auto simp: TrimPrefix_def hasPrefix_iff)

fun Join :: "string list \<Rightarrow> string \<Rightarrow> string" where
  "Join [] sep = []"
| "Join [s] sep = s"
| "Join (s # t # ss) sep = s @ sep @ Join (t # ss) sep"

section \<open>Hexadecimal text\<close>

definition hexDigit :: "nat \<Rightarrow> char" where
  "hexDigit n = (if n < 10 then digit n else char_of (87 + n))"

text \<open>A digest is a list of bytes, each a character as in a Go byte string.\<close>

definition hexEncode :: "string \<Rightarrow> string" where
  "hexEncode bs = concat (map (\<lambda>b. [hexDigit (of_char b div 16), hexDigit (of_char b mod 16)]) bs)"

lemma length_hexEncode: "length (hexEncode bs) = 2 * length bs"
  by (induction bs) (auto simp: hexEncode_def)

definition hexValue :: "char \<Rightarrow> nat" where
  "hexValue c = (if (of_char c :: nat) < 58 then of_char c - 48 else of_char c - 87)"

lemma hexDigit_value: "n < 16 \<Longrightarrow> hexValue (hexDigit n) = n"
  by (simp add: hexDigit_def hexValue_def digit_def)

lemma of_char_lt_256: "(of_char (c :: char) :: nat) < 256"
  by (rule nat_of_char_less_256)

lemma hexDigit_inj: "m < 16 \<Longrightarrow> n < 16 \<Longrightarrow> hexDigit m = hexDigit n \<longleftrightarrow> m = n"
  by (metis hexDigit_value)

lemma hexEncode_inj: "hexEncode xs = hexEncode ys \<longleftrightarrow> xs = ys"
proof
  show "hexEncode xs = hexEncode ys \<Longrightarrow> xs = ys"
  proof (induction xs arbitrary: ys)
    case Nil
    then show ?case by (cases ys) (auto simp: hexEncode_def)
  next
    case (Cons x xs)
    then obtain y ys' where ys: "ys = y # ys'"
      by (cases ys) (auto simp: hexEncode_def)
    have lt: "(of_char c :: nat) div 16 < 16" for c
      using of_char_lt_256 [of c] by linarith
    from Cons.prems ys
    have "hexDigit (of_char x div 16) = hexDigit (of_char y div 16)"
      and "hexDigit (of_char x mod 16) = hexDigit (of_char y mod 16)"
      and rest: "hexEncode xs = hexEncode ys'"
      by (auto simp: hexEncode_def)
    then have "(of_char x :: nat) div 16 = of_char y div 16" "(of_char x :: nat) mod 16 = of_char y mod 16"
      by (simp_all add: hexDigit_inj lt)
    then have "(of_char x :: nat) = of_char y" by (metis div_mult_mod_eq)
    with Cons.IH [OF rest] ys show ?case by simp
  qed
qed simp

end
