(* ===== verification/Json.thy ===== *)
theory Json
  imports GoStrings
begin

text \<open>
  The value type of \<open>unstructured.Unstructured\<close>: the tree of \<open>interface{}\<close> values a decoded
  API object is.  A Go \<open>map[string]interface{}\<close> is a finite map, so that equality in HOL is
  \<open>reflect.DeepEqual\<close>: the order of keys does not matter.  A \<open>nil\<close> interface and JSON null are
  both \<open>JNull\<close>; \<open>JNilArr\<close> is the typed nil slice that \<open>SetNestedSlice\<close> stores for a nil
  argument.  The accessors read and write a value along a path of field names, with the three
  outcomes the Go helpers have: found, missing, or blocked by a value of the wrong type.
  Values are immutable here, so the deep copies of the Go code are the identity.
\<close>

section \<open>Values\<close>

datatype json =
    JNull
  | JBool bool
  | JInt int
  | JFloat string
  | JStr string
  | JNilArr
  | JArr "json list"
  | JObj "(string, json) fmap"

type_synonym jobj = "(string, json) fmap"

text \<open>Indexing a Go map: an absent key reads as the nil interface.\<close>

definition jget :: "jobj \<Rightarrow> string \<Rightarrow> json" where
  "jget m k = (case fmlookup m k of None \<Rightarrow> JNull | Some v \<Rightarrow> v)"

text \<open>The empty string is Go's zero value for a missing entry of a \<open>map[string]string\<close>.\<close>

definition sget :: "(string, string) fmap \<Rightarrow> string \<Rightarrow> string" where
  "sget m k = (case fmlookup m k of None \<Rightarrow> [] | Some v \<Rightarrow> v)"

fun str_of :: "json \<Rightarrow> string option" where
  "str_of (JStr s) = Some s"
| "str_of _ = None"

fun obj_of :: "json \<Rightarrow> jobj option" where
  "obj_of (JObj m) = Some m"
| "obj_of _ = None"

lemma str_of_Some_iff [simp]: "str_of v = Some s \<longleftrightarrow> v = JStr s"
  by (cases v) auto

lemma obj_of_Some_iff [simp]: "obj_of v = Some m \<longleftrightarrow> v = JObj m"
  by (cases v) auto

lemma obj_of_None_iff: "obj_of v = None \<longleftrightarrow> (\<forall>m. v \<noteq> JObj m)"
  by (cases v) auto

lemma jget_simps [simp]:
  "jget fmempty k = JNull"
  "jget (fmupd k' v m) k = (if k = k' then v else jget m k)"
  "jget (fmdrop k' m) k = (if k = k' then JNull else jget m k)"
  by (auto simp: jget_def)

lemma sget_simps [simp]:
  "sget fmempty k = []"
  "sget (fmupd k' v m) k = (if k = k' then v else sget m k)"
  by (auto simp: sget_def)

section \<open>Reading along a path\<close>

datatype 'a access = Found 'a | Missing | BadType

fun value_or :: "'a \<Rightarrow> 'a access \<Rightarrow> 'a" where
  "value_or d (Found x) = x"
| "value_or d _ = d"

fun walk :: "json \<Rightarrow> string list \<Rightarrow> json access" where
  "walk v [] = Found v"
| "walk v (f # fs) =
     (case v of
        JNull \<Rightarrow> Missing
      | JObj m \<Rightarrow> (case fmlookup m f of None \<Rightarrow> Missing | Some v' \<Rightarrow> walk v' fs)
      | _ \<Rightarrow> BadType)"

definition NestedField :: "jobj \<Rightarrow> string list \<Rightarrow> json access" where
  "NestedField m p = walk (JObj m) p"

fun as_string :: "json access \<Rightarrow> string access" where
  "as_string (Found (JStr s)) = Found s"
| "as_string (Found _) = BadType"
| "as_string Missing = Missing"
| "as_string BadType = BadType"

fun as_bool :: "json access \<Rightarrow> bool access" where
  "as_bool (Found (JBool b)) = Found b"
| "as_bool (Found _) = BadType"
| "as_bool Missing = Missing"
| "as_bool BadType = BadType"

fun as_int64 :: "json access \<Rightarrow> int access" where
  "as_int64 (Found (JInt i)) = Found i"
| "as_int64 (Found _) = BadType"
| "as_int64 Missing = Missing"
| "as_int64 BadType = BadType"

fun as_map :: "json access \<Rightarrow> jobj access" where
  "as_map (Found (JObj m)) = Found m"
| "as_map (Found _) = BadType"
| "as_map Missing = Missing"
| "as_map BadType = BadType"

text \<open>A slice is \<open>None\<close> where the Go helper returns the nil slice.\<close>

fun as_slice :: "json access \<Rightarrow> json list option access" where
  "as_slice (Found (JArr xs)) = Found (Some xs)"
| "as_slice (Found JNilArr) = Found None"
| "as_slice (Found _) = BadType"
| "as_slice Missing = Missing"
| "as_slice BadType = BadType"

definition NestedString :: "jobj \<Rightarrow> string list \<Rightarrow> string access" where
  "NestedString m p = as_string (NestedField m p)"

definition NestedInt64 :: "jobj \<Rightarrow> string list \<Rightarrow> int access" where
  "NestedInt64 m p = as_int64 (NestedField m p)"

definition NestedMap :: "jobj \<Rightarrow> string list \<Rightarrow> jobj access" where
  "NestedMap m p = as_map (NestedField m p)"

definition NestedSlice :: "jobj \<Rightarrow> string list \<Rightarrow> json list option access" where
  "NestedSlice m p = as_slice (NestedField m p)"

text \<open>
  The first result of the helpers, for the many call sites that drop the other two
  (\<open>x, _, _ := ...\<close>): the zero value unless the field was found with the right type.
\<close>

definition strAt :: "jobj \<Rightarrow> string list \<Rightarrow> string" where
  "strAt m p = value_or [] (NestedString m p)"

definition boolAt :: "jobj \<Rightarrow> string list \<Rightarrow> bool" where
  "boolAt m p = value_or False (as_bool (NestedField m p))"

definition mapAt :: "jobj \<Rightarrow> string list \<Rightarrow> jobj" where
  "mapAt m p = value_or fmempty (NestedMap m p)"

definition sliceAt :: "jobj \<Rightarrow> string list \<Rightarrow> json list option" where
  "sliceAt m p = value_or None (NestedSlice m p)"

definition elems :: "json list option \<Rightarrow> json list" where
  "elems xs = (case xs of None \<Rightarrow> [] | Some ys \<Rightarrow> ys)"

text \<open>\<open>NestedStringSlice\<close>: every element must be a string; the zero value is the nil slice.\<close>

definition stringsAt :: "jobj \<Rightarrow> string list \<Rightarrow> string list" where
  "stringsAt m p =
     (let xs = elems (sliceAt m p)
      in if list_all (\<lambda>v. str_of v \<noteq> None) xs then map (the \<circ> str_of) xs else [])"

lemma elems_simps [simp]: "elems None = []" "elems (Some xs) = xs"
  by (simp_all add: elems_def)

lemma NestedString_Found_iff:
  "NestedString m p = Found s \<longleftrightarrow> NestedField m p = Found (JStr s)"
  unfolding NestedString_def by (cases "NestedField m p" rule: as_string.cases) auto

lemma NestedMap_Found_iff:
  "NestedMap m p = Found o' \<longleftrightarrow> NestedField m p = Found (JObj o')"
  unfolding NestedMap_def by (cases "NestedField m p" rule: as_map.cases) auto

lemma sliceAt_Some_iff:
  "sliceAt m p = Some xs \<longleftrightarrow> NestedField m p = Found (JArr xs)"
  unfolding sliceAt_def NestedSlice_def by (cases "NestedField m p" rule: as_slice.cases) auto

lemma boolAt_iff: "boolAt m p \<longleftrightarrow> NestedField m p = Found (JBool True)"
  unfolding boolAt_def by (cases "NestedField m p" rule: as_bool.cases) auto

lemma strAt_eq: "s \<noteq> [] \<Longrightarrow> strAt m p = s \<longleftrightarrow> NestedField m p = Found (JStr s)"
  unfolding strAt_def NestedString_def by (cases "NestedField m p" rule: as_string.cases) auto

section \<open>Writing along a path\<close>

text \<open>
  \<open>SetNestedField\<close> creates the maps that are missing on the way and fails (\<open>None\<close>) at a
  value that is not a map; \<open>RemoveNestedField\<close> does nothing then.
\<close>

fun SetNestedField :: "json \<Rightarrow> string list \<Rightarrow> jobj \<Rightarrow> jobj option" where
  "SetNestedField v [] m = None"
| "SetNestedField v [f] m = Some (fmupd f v m)"
| "SetNestedField v (f # g # fs) m =
     (case fmlookup m f of
        None \<Rightarrow> map_option (\<lambda>m'. fmupd f (JObj m') m) (SetNestedField v (g # fs) fmempty)
      | Some w \<Rightarrow>
          (case w of
             JObj sub \<Rightarrow> map_option (\<lambda>m'. fmupd f (JObj m') m) (SetNestedField v (g # fs) sub)
           | _ \<Rightarrow> None))"

fun RemoveNestedField :: "string list \<Rightarrow> jobj \<Rightarrow> jobj" where
  "RemoveNestedField [] m = m"
| "RemoveNestedField [f] m = fmdrop f m"
| "RemoveNestedField (f # g # fs) m =
     (case fmlookup m f of
        Some (JObj sub) \<Rightarrow> fmupd f (JObj (RemoveNestedField (g # fs) sub)) m
      | _ \<Rightarrow> m)"

text \<open>The call sites that ignore the error keep the object as it was.\<close>

definition setField :: "json \<Rightarrow> string list \<Rightarrow> jobj \<Rightarrow> jobj" where
  "setField v p m = (case SetNestedField v p m of None \<Rightarrow> m | Some m' \<Rightarrow> m')"

definition slice_value :: "json list option \<Rightarrow> json" where
  "slice_value xs = (case xs of None \<Rightarrow> JNilArr | Some ys \<Rightarrow> JArr ys)"

definition setSlice :: "json list option \<Rightarrow> string list \<Rightarrow> jobj \<Rightarrow> jobj" where
  "setSlice xs p m = setField (slice_value xs) p m"

lemma SetNestedField_twice:
  "SetNestedField v p m = Some m' \<Longrightarrow> SetNestedField w p m' = SetNestedField w p m"
proof (induction v p m arbitrary: m' rule: SetNestedField.induct)
  case (3 v f g fs m)
  then show ?case
    by (fastforce simp: comp_def option.map_comp split: option.splits json.splits
        intro: option.map_cong)
qed auto

lemma SetNestedField_defined: "SetNestedField v p m \<noteq> None \<longleftrightarrow> SetNestedField w p m \<noteq> None"
proof (induction v p m rule: SetNestedField.induct)
  case (3 v f g fs m)
  then show ?case by (auto split: option.splits json.splits)
qed auto

lemma setField_twice: "setField w p (setField v p m) = setField w p m"
proof (cases "SetNestedField v p m")
  case None
  then show ?thesis by (simp add: setField_def)
next
  case (Some m')
  then have "SetNestedField w p m' = SetNestedField w p m" by (rule SetNestedField_twice)
  moreover have "SetNestedField w p m \<noteq> None" using Some SetNestedField_defined by blast
  ultimately show ?thesis using Some by (auto simp: setField_def)
qed

section \<open>The path interface\<close>

text \<open>
  What the components rely on when they write a field and read another one back.  Two paths
  are independent when they leave each other before either ends.
\<close>

fun forks :: "string list \<Rightarrow> string list \<Rightarrow> bool" where
  "forks (x # xs) (y # ys) = (x \<noteq> y \<or> forks xs ys)"
| "forks _ _ = False"

locale json_paths =
  fixes get :: "jobj \<Rightarrow> string list \<Rightarrow> json access"
    and put :: "json \<Rightarrow> string list \<Rightarrow> jobj \<Rightarrow> jobj option"
    and del :: "string list \<Rightarrow> jobj \<Rightarrow> jobj"
  assumes get_put: "put v p m = Some m' \<Longrightarrow> get m' p = Found v"
    and get_put_fork: "put v p m = Some m' \<Longrightarrow> forks p q \<Longrightarrow> get m' q = get m q"
    and get_del: "p \<noteq> [] \<Longrightarrow> get (del p m) p = Missing \<or> get (del p m) p = BadType"
    and get_del_fork: "forks p q \<Longrightarrow> get (del p m) q = get m q"
begin

lemma get_del_not_found: "p \<noteq> [] \<Longrightarrow> get (del p m) p \<noteq> Found v"
  using get_del [of p m] by auto

lemma put_put_get:
  assumes "put v p m = Some m1" and "put w q m1 = Some m2" and "forks q p"
  shows "get m2 p = Found v" and "get m2 q = Found w"
  using assms get_put get_put_fork by (metis, metis)

lemma del_put_fork:
  assumes "put v p m = Some m1" and "forks q p"
  shows "get (del q m1) p = Found v"
  using assms get_put get_del_fork by metis

end

lemma SetNestedField_Cons2:
  "SetNestedField v (f # g # fs) m = Some m' \<longleftrightarrow>
     (\<exists>sub sub'. (fmlookup m f = Some (JObj sub) \<or> fmlookup m f = None \<and> sub = fmempty) \<and>
        SetNestedField v (g # fs) sub = Some sub' \<and> m' = fmupd f (JObj sub') m)"
  by (auto split: option.splits json.splits)

lemma NestedField_Cons:
  "NestedField m (f # fs) =
     (case fmlookup m f of None \<Rightarrow> Missing | Some v \<Rightarrow> walk v fs)"
  by (simp add: NestedField_def)

lemma walk_JObj: "walk (JObj m) p = NestedField m p"
  by (simp add: NestedField_def)

lemma walk_JNull: "p \<noteq> [] \<Longrightarrow> walk JNull p = Missing"
  by (cases p) auto

lemma NestedField_SetNestedField:
  "SetNestedField v p m = Some m' \<Longrightarrow> NestedField m' p = Found v"
proof (induction v p m arbitrary: m' rule: SetNestedField.induct)
  case (3 v f g fs m)
  then show ?case
    by (fastforce simp: NestedField_Cons walk_JObj split: option.splits json.splits)
qed (auto simp: NestedField_Cons)

lemma NestedField_fmempty: "p \<noteq> [] \<Longrightarrow> NestedField fmempty p = Missing"
  by (cases p) (auto simp: NestedField_Cons)

lemma forks_Nil [simp]: "forks [] q = False" "forks p [] = False"
  by (auto elim: forks.elims)

lemma NestedField_SetNestedField_fork:
  "SetNestedField v p m = Some m' \<Longrightarrow> forks p q \<Longrightarrow> NestedField m' q = NestedField m q"
proof (induction v p m arbitrary: m' q rule: SetNestedField.induct)
  case (2 v f m)
  then show ?case by (cases q) (auto simp: NestedField_Cons)
next
  case (3 v f g fs m)
  obtain y ys where q: "q = y # ys" using "3.prems"(2) by (cases q) auto
  from "3.prems"(1) obtain sub sub' where sub:
    "fmlookup m f = Some (JObj sub) \<or> fmlookup m f = None \<and> sub = fmempty"
    and set: "SetNestedField v (g # fs) sub = Some sub'" and m': "m' = fmupd f (JObj sub') m"
    unfolding SetNestedField_Cons2 by blast
  show ?case
  proof (cases "f = y")
    case False
    then show ?thesis by (simp add: q m' NestedField_Cons)
  next
    case True
    with "3.prems"(2) q have fork: "forks (g # fs) ys" by simp
    then have ys: "ys \<noteq> []" by auto
    have "NestedField sub' ys = NestedField sub ys"
      using "3.IH" sub set fork by (metis json.inject(6))
    with sub True ys show ?thesis
      by (auto simp: q m' NestedField_Cons walk_JObj NestedField_fmempty)
  qed
qed simp

lemma NestedField_RemoveNestedField:
  "p \<noteq> [] \<Longrightarrow> NestedField (RemoveNestedField p m) p = Missing \<or>
               NestedField (RemoveNestedField p m) p = BadType"
proof (induction p m rule: RemoveNestedField.induct)
  case (3 f g fs m)
  then show ?case
    by (auto simp: NestedField_Cons walk_JObj split: option.splits json.splits)
qed (auto simp: NestedField_Cons)

lemma NestedField_RemoveNestedField_fork:
  "forks p q \<Longrightarrow> NestedField (RemoveNestedField p m) q = NestedField m q"
proof (induction p m arbitrary: q rule: RemoveNestedField.induct)
  case (2 f m)
  then show ?case by (cases q) (auto simp: NestedField_Cons)
next
  case (3 f g fs m)
  then show ?case
    by (cases q) (auto simp: NestedField_Cons walk_JObj split: option.splits json.splits)
qed simp

interpretation paths: json_paths NestedField SetNestedField RemoveNestedField
  by unfold_locales
    (simp_all add: NestedField_SetNestedField NestedField_SetNestedField_fork
       NestedField_RemoveNestedField NestedField_RemoveNestedField_fork)

lemma setField_other: "forks p q \<Longrightarrow> NestedField (setField v p m) q = NestedField m q"
  by (auto simp: setField_def paths.get_put_fork split: option.splits)

lemma SetNestedField_same:
  "p \<noteq> [] \<Longrightarrow> NestedField m p = Found v \<Longrightarrow> SetNestedField v p m = Some m"
proof (induction v p m rule: SetNestedField.induct)
  case (3 v f g fs m)
  then show ?case
    by (auto simp: NestedField_Cons walk_JObj fmupd_lookup_same split: option.splits json.splits)
qed (auto simp: NestedField_Cons fmupd_lookup_same split: option.splits)

lemma setField_same: "p \<noteq> [] \<Longrightarrow> NestedField m p = Found v \<Longrightarrow> setField v p m = m"
  by (simp add: setField_def SetNestedField_same)

lemma SetNestedField_found:
  "p \<noteq> [] \<Longrightarrow> NestedField m p = Found v \<Longrightarrow> SetNestedField w p m \<noteq> None"
  using SetNestedField_same [of p m v] SetNestedField_defined [of v p m w] by simp

lemma NestedField_setField_found:
  "p \<noteq> [] \<Longrightarrow> NestedField m p = Found v \<Longrightarrow> NestedField (setField w p m) p = Found w"
  using SetNestedField_found [of p m v w] by (auto simp: setField_def intro: paths.get_put)

lemma strAt_cong: "NestedField m p = NestedField m' p' \<Longrightarrow> strAt m p = strAt m' p'"
  by (simp add: strAt_def NestedString_def)

section \<open>Object metadata\<close>

text \<open>
  \<open>NestedStringMap\<close> rejects the whole map when one value is not a string, and the metadata
  accessors then yield a nil map.
\<close>

definition stringMap :: "json access \<Rightarrow> (string, string) fmap" where
  "stringMap r =
     (case r of
        Found (JObj m) \<Rightarrow>
          (if fmpred (\<lambda>_ v. str_of v \<noteq> None) m then fmmap (\<lambda>v. the (str_of v)) m else fmempty)
      | _ \<Rightarrow> fmempty)"

definition GetLabels :: "jobj \<Rightarrow> (string, string) fmap" where
  "GetLabels u = stringMap (NestedField u [''metadata'', ''labels''])"

definition GetAnnotations :: "jobj \<Rightarrow> (string, string) fmap" where
  "GetAnnotations u = stringMap (NestedField u [''metadata'', ''annotations''])"

definition GetName :: "jobj \<Rightarrow> string" where
  "GetName u = strAt u [''metadata'', ''name'']"

definition GetNamespace :: "jobj \<Rightarrow> string" where
  "GetNamespace u = strAt u [''metadata'', ''namespace'']"

definition GetUID :: "jobj \<Rightarrow> string" where
  "GetUID u = strAt u [''metadata'', ''uid'']"

definition GetResourceVersion :: "jobj \<Rightarrow> string" where
  "GetResourceVersion u = strAt u [''metadata'', ''resourceVersion'']"

definition GetGeneration :: "jobj \<Rightarrow> int" where
  "GetGeneration u = value_or 0 (NestedInt64 u [''metadata'', ''generation''])"

definition GetAPIVersion :: "jobj \<Rightarrow> string" where
  "GetAPIVersion u = strAt u [''apiVersion'']"

definition GetKind :: "jobj \<Rightarrow> string" where
  "GetKind u = strAt u [''kind'']"

definition string_json :: "(string, string) fmap \<Rightarrow> json" where
  "string_json m = JObj (fmmap JStr m)"

definition SetLabels :: "(string, string) fmap \<Rightarrow> jobj \<Rightarrow> jobj" where
  "SetLabels ls u = setField (string_json ls) [''metadata'', ''labels''] u"

lemma stringMap_string_json [simp]: "stringMap (Found (string_json m)) = m"
proof -
  have "fmpred (\<lambda>_ v. str_of v \<noteq> None) (fmmap JStr m)" by (auto simp: fmpred_iff)
  moreover have "fmmap (\<lambda>v. the (str_of v)) (fmmap JStr m) = m"
    by (rule fmap_ext) (simp add: option.map_comp comp_def option.map_ident)
  ultimately show ?thesis by (simp add: stringMap_def string_json_def)
qed

end
