(* ===== verification/ApiTypes.thy ===== *)
theory ApiTypes
  imports Json "HOL-Library.Word"
begin

text \<open>
  The data of the program: the custom resources of \<open>api/v1alpha1\<close> (\<open>PVMetadata\<close>,
  \<open>PVMigration\<close> and the structs below them) and the fields of the Kubernetes types the code
  reads or writes.  A pointer is an \<open>option\<close>, an \<open>int32\<close> a 32-bit word read as signed, an
  \<open>int64\<close> counter that is only stored and compared an \<open>int\<close>.  A \<open>metav1.Time\<close> is the
  number of nanoseconds since the zero time, so 0 is Go's zero time.  A
  \<open>resource.Quantity\<close> is its value in nano units, the finest scale it can hold, so its
  \<open>Sign\<close> and \<open>Cmp\<close> are the order of \<open>int\<close>.  Parts of a Kubernetes type that the code
  only copies or compares as a whole are one JSON field.
\<close>

type_synonym int32 = "32 word"
type_synonym time = int
type_synonym quantity = int
type_synonym namespaced_name = "string \<times> string"

definition IsZero :: "time option \<Rightarrow> bool" where
  "IsZero t = (case t of None \<Rightarrow> True | Some n \<Rightarrow> n = 0)"

lemma IsZero_simps [simp]: "IsZero None" "IsZero (Some n) \<longleftrightarrow> n = 0"
  by (simp_all add: IsZero_def)

record ObjectMeta =
  om_Name :: string
  om_Namespace :: string
  om_UID :: string
  om_ResourceVersion :: string
  om_Generation :: int
  om_CreationTimestamp :: time
  om_DeletionTimestamp :: "time option"
  om_Labels :: "(string, string) fmap"
  om_Annotations :: "(string, string) fmap"

definition emptyMeta :: ObjectMeta where
  "emptyMeta = \<lparr> om_Name = [], om_Namespace = [], om_UID = [], om_ResourceVersion = [],
     om_Generation = 0, om_CreationTimestamp = 0, om_DeletionTimestamp = None,
     om_Labels = fmempty, om_Annotations = fmempty \<rparr>"

section \<open>Kubernetes volume types\<close>

record NFSVolumeSource =
  nfs_Server :: string
  nfs_Path :: string
  nfs_ReadOnly :: bool

record ObjectReference =
  or_APIVersion :: string
  or_Kind :: string
  or_Namespace :: string
  or_Name :: string
  or_UID :: string
  or_others :: jobj

text \<open>The volume source has one pointer per plugin; \<open>pvs_others\<close> holds the non-nil ones but NFS.\<close>

record PersistentVolumeSource =
  pvs_NFS :: "NFSVolumeSource option"
  pvs_others :: jobj

record PersistentVolumeSpec =
  pvsp_Capacity :: "(string, quantity) fmap"
  pvsp_Source :: PersistentVolumeSource
  pvsp_AccessModes :: "string list"
  pvsp_ClaimRef :: "ObjectReference option"
  pvsp_ReclaimPolicy :: string
  pvsp_StorageClassName :: string
  pvsp_VolumeMode :: "string option"
  pvsp_NodeAffinity :: "json option"
  pvsp_others :: jobj

record PersistentVolumeClaimSpec =
  pcs_AccessModes :: "string list"
  pcs_Selector :: "json option"
  pcs_Requests :: "(string, quantity) fmap"
  pcs_VolumeName :: string
  pcs_StorageClassName :: "string option"
  pcs_VolumeMode :: "string option"
  pcs_DataSource :: "json option"
  pcs_DataSourceRef :: "json option"
  pcs_VolumeAttributesClassName :: "string option"
  pcs_others :: jobj

record PersistentVolume =
  pv_APIVersion :: string
  pv_Kind :: string
  pv_meta :: ObjectMeta
  pv_Spec :: PersistentVolumeSpec
  pv_Phase :: string

record PersistentVolumeClaim =
  pvc_APIVersion :: string
  pvc_Kind :: string
  pvc_meta :: ObjectMeta
  pvc_Spec :: PersistentVolumeClaimSpec
  pvc_Phase :: string

text \<open>
  A pod-template volume is read for its name and the claim name of its
  \<open>persistentVolumeClaim\<close> source, a claim template for its name.
\<close>

record PodVolume =
  vol_Name :: string
  vol_ClaimName :: "string option"

record StatefulSet =
  sts_meta :: ObjectMeta
  sts_Replicas :: "int32 option"
  sts_OrdinalsStart :: "int32 option"
  sts_VolumeClaimTemplates :: "string list"
  sts_Volumes :: "PodVolume list"
  sts_TemplateAnnotations :: "(string, string) fmap"

section \<open>PVMetadata\<close>

record WorkloadRef =
  wr_Name :: string
  wr_UID :: string

record VolumeMetadata =
  vm_Standalone :: bool
  vm_PVCSpec :: "PersistentVolumeClaimSpec option"
  vm_PVCName :: string
  vm_PVCUID :: string
  vm_TemplateName :: string
  vm_Ordinal :: int32
  vm_PVName :: string
  vm_PVSpec :: PersistentVolumeSpec

record ClusterSnapshot =
  cs_ClusterName :: string
  cs_ObservedGeneration :: int
  cs_Ready :: bool
  cs_Message :: string
  cs_CollectedAt :: "time option"
  cs_WorkloadUID :: string
  cs_Volumes :: "VolumeMetadata list"

record PVMetadataSpec =
  mds_WorkloadRef :: WorkloadRef
  mds_SourceCluster :: string

record PVMetadataStatus =
  mdst_ObservedGeneration :: int
  mdst_Ready :: bool
  mdst_Message :: string
  mdst_CollectedAt :: "time option"
  mdst_WorkloadUID :: string
  mdst_Volumes :: "VolumeMetadata list"
  mdst_Clusters :: "ClusterSnapshot list"

record PVMetadata =
  md_meta :: ObjectMeta
  md_Spec :: PVMetadataSpec
  md_Status :: PVMetadataStatus

definition emptyMetadataStatus :: PVMetadataStatus where
  "emptyMetadataStatus = \<lparr> mdst_ObservedGeneration = 0, mdst_Ready = False, mdst_Message = [],
     mdst_CollectedAt = None, mdst_WorkloadUID = [], mdst_Volumes = [], mdst_Clusters = [] \<rparr>"

section \<open>PVMigration\<close>

record VolumeMapping =
  vmap_SourcePVC :: string
  vmap_TargetPVC :: string

record WorkReference =
  ref_PVUID :: string
  ref_PVCUID :: string
  ref_Standalone :: bool
  ref_RoutingWorkUID :: string
  ref_RoutingGeneration :: int
  ref_Name :: string
  ref_Namespace :: string
  ref_Applied :: bool
  ref_Detached :: bool

record PVMigrationSpec =
  ms_MetadataRef :: string
  ms_SourceCluster :: string
  ms_TargetCluster :: string
  ms_ResourceBinding :: string
  ms_SourceFenced :: bool
  ms_Volumes :: "VolumeMapping list"

record PVMigrationStatus =
  mst_ObservedGeneration :: int
  mst_Phase :: string
  mst_Message :: string
  mst_PlanHash :: string
  mst_Works :: "WorkReference list"

record PVMigration =
  mig_meta :: ObjectMeta
  mig_Spec :: PVMigrationSpec
  mig_Status :: PVMigrationStatus

abbreviation mig_UID :: "PVMigration \<Rightarrow> string" where
  "mig_UID m \<equiv> om_UID (mig_meta m)"

abbreviation mig_Name :: "PVMigration \<Rightarrow> string" where
  "mig_Name m \<equiv> om_Name (mig_meta m)"

abbreviation mig_Namespace :: "PVMigration \<Rightarrow> string" where
  "mig_Namespace m \<equiv> om_Namespace (mig_meta m)"

abbreviation mig_Works :: "PVMigration \<Rightarrow> WorkReference list" where
  "mig_Works m \<equiv> mst_Works (mig_Status m)"

abbreviation mig_Phase :: "PVMigration \<Rightarrow> string" where
  "mig_Phase m \<equiv> mst_Phase (mig_Status m)"

definition set_works :: "WorkReference list \<Rightarrow> PVMigration \<Rightarrow> PVMigration" where
  "set_works refs m = m\<lparr> mig_Status := (mig_Status m)\<lparr> mst_Works := refs \<rparr> \<rparr>"

lemma set_works_simps [simp]:
  "mig_Works (set_works refs m) = refs"
  "mig_meta (set_works refs m) = mig_meta m"
  "mig_Spec (set_works refs m) = mig_Spec m"
  "mst_Phase (mig_Status (set_works refs m)) = mst_Phase (mig_Status m)"
  "mst_PlanHash (mig_Status (set_works refs m)) = mst_PlanHash (mig_Status m)"
  "mst_ObservedGeneration (mig_Status (set_works refs m)) = mst_ObservedGeneration (mig_Status m)"
  "mst_Message (mig_Status (set_works refs m)) = mst_Message (mig_Status m)"
  by (simp_all add: set_works_def)

text \<open>
  What identifies a recorded Work: the part of a reference that no later status write may
  change.
\<close>

definition ref_identity :: "WorkReference \<Rightarrow> string \<times> string \<times> bool" where
  "ref_identity r = (ref_Namespace r, ref_Name r, ref_Standalone r)"

lemma ref_identity_updates [simp]:
  "ref_identity (r\<lparr> ref_Applied := a \<rparr>) = ref_identity r"
  "ref_identity (r\<lparr> ref_Detached := d \<rparr>) = ref_identity r"
  "ref_identity (r\<lparr> ref_PVUID := u \<rparr>) = ref_identity r"
  "ref_identity (r\<lparr> ref_PVCUID := u \<rparr>) = ref_identity r"
  "ref_identity (r\<lparr> ref_RoutingWorkUID := u \<rparr>) = ref_identity r"
  "ref_identity (r\<lparr> ref_RoutingGeneration := g \<rparr>) = ref_identity r"
  by (simp_all add: ref_identity_def)

end
