(* ===== verification/Libraries.thy ===== *)
theory Libraries
  imports ApiTypes
begin

text \<open>
  The library code the program calls and this repository does not contain: SHA-256, the JSON
  encoder, the Kubernetes name validation, the converter between typed and unstructured
  objects (\<open>None\<close> where decoding an NFS source fails), the parser of RFC 3339 timestamps, the controller lookup in owner references,
  the order in which a Go \<open>range\<close> visits a map, and the largest capacity with which the Go runtime
  makes a slice of \<open>VolumeMetadata\<close> (a larger one is a run-time panic).  They are one record, an
  argument of the definitions that use them.  What a proof needs of them is stated as
  assumptions of the locale \<open>documented_libraries\<close> or as a named hypothesis.
\<close>

record libraries =
  lib_Sum256 :: "string \<Rightarrow> string"
  lib_Marshal :: "json list \<Rightarrow> string go"
  lib_IsDNS1123Subdomain :: "string \<Rightarrow> string list"
  lib_PVToUnstructured :: "PersistentVolume \<Rightarrow> jobj go"
  lib_PVCToUnstructured :: "PersistentVolumeClaim \<Rightarrow> jobj go"
  lib_NFSFromUnstructured :: "jobj \<Rightarrow> NFSVolumeSource option"
  lib_ParseTime :: "string \<Rightarrow> time"
  lib_ControllerUID :: "jobj \<Rightarrow> string option"
  lib_RangeOrder :: "string list \<Rightarrow> string list"
  lib_MaxVolumes :: int

text \<open>
  \<open>GetDeletionTimestamp\<close> yields nil unless the field parses as a time that is not zero.
\<close>

definition GetDeletionTimestamp :: "libraries \<Rightarrow> jobj \<Rightarrow> time option" where
  "GetDeletionTimestamp L u =
     (let s = strAt u [''metadata'', ''deletionTimestamp'']
      in if s = [] \<or> lib_ParseTime L s = 0 then None else Some (lib_ParseTime L s))"

lemma GetDeletionTimestamp_IsZero: "IsZero (GetDeletionTimestamp L u) \<longleftrightarrow> GetDeletionTimestamp L u = None"
  by (auto simp: GetDeletionTimestamp_def Let_def)

section \<open>Documented behaviour\<close>

text \<open>
  \<^item> a SHA-256 sum has 32 bytes;
  \<^item> encoding a typed object gives its \<open>apiVersion\<close>, \<open>kind\<close> and \<open>metadata\<close> under their JSON
    names, with labels as strings, no annotations when there are none, and never panics;
  \<^item> an NFS volume source survives the round trip through the encoded volume;
  \<^item> \<open>range\<close> visits every key of a map exactly once.
\<close>

definition claim_ref_of :: "PersistentVolume \<Rightarrow> ObjectReference option" where
  "claim_ref_of p = pvsp_ClaimRef (pv_Spec p)"

locale documented_libraries =
  fixes L :: libraries
  assumes sum_length: "length (lib_Sum256 L s) = 32"
    and range_order: "mset (lib_RangeOrder L ks) = mset ks"
    and marshal_no_panic: "lib_Marshal L parts \<noteq> Panic"
    and pv_no_panic: "lib_PVToUnstructured L p \<noteq> Panic"
    and pvc_no_panic: "lib_PVCToUnstructured L q \<noteq> Panic"
    and pv_kind: "lib_PVToUnstructured L p = Ok u \<Longrightarrow>
       GetAPIVersion u = pv_APIVersion p \<and> GetKind u = pv_Kind p"
    and pv_meta: "lib_PVToUnstructured L p = Ok u \<Longrightarrow>
       GetName u = om_Name (pv_meta p) \<and> GetNamespace u = om_Namespace (pv_meta p) \<and>
       (\<exists>md. fmlookup u ''metadata'' = Some (JObj md) \<and>
          (om_Annotations (pv_meta p) = fmempty \<longrightarrow> fmlookup md ''annotations'' = None))"
    and pv_claim_ref: "lib_PVToUnstructured L p = Ok u \<Longrightarrow> claim_ref_of p = Some r \<Longrightarrow>
       strAt u [''spec'', ''claimRef'', ''name''] = or_Name r \<and>
       strAt u [''spec'', ''claimRef'', ''namespace''] = or_Namespace r \<and>
       strAt u [''spec'', ''claimRef'', ''uid''] = or_UID r"
    and pv_nfs: "lib_PVToUnstructured L p = Ok u \<Longrightarrow> pvs_NFS (pvsp_Source (pv_Spec p)) = Some n \<Longrightarrow>
       lib_NFSFromUnstructured L (mapAt u [''spec'', ''nfs'']) = Some n"
    and pvc_kind: "lib_PVCToUnstructured L q = Ok v \<Longrightarrow>
       GetAPIVersion v = pvc_APIVersion q \<and> GetKind v = pvc_Kind q"
    and pvc_meta: "lib_PVCToUnstructured L q = Ok v \<Longrightarrow>
       GetName v = om_Name (pvc_meta q) \<and> GetNamespace v = om_Namespace (pvc_meta q) \<and>
       (\<exists>md. fmlookup v ''metadata'' = Some (JObj md) \<and>
          (om_Annotations (pvc_meta q) = fmempty \<longrightarrow> fmlookup md ''annotations'' = None))"
    and pvc_volume: "lib_PVCToUnstructured L q = Ok v \<Longrightarrow>
       strAt v [''spec'', ''volumeName''] = pcs_VolumeName (pvc_Spec q)"

end
