(* ===== verification/ReferenceLibraries.thy ===== *)
theory ReferenceLibraries
  imports Libraries
begin

text \<open>
  A concrete instance of the library functions, written from their documentation: SHA-256
  (FIPS 180-4), the compact JSON encoding, the DNS-1123 subdomain syntax, the JSON field names
  of the Kubernetes types, RFC 3339 times, and the controller lookup in owner references.  It
  shows that the documented behaviour the proofs rely on can be met, and it is what the
  definitions of the development can be run with.
\<close>

unbundle bit_operations_syntax

section \<open>SHA-256\<close>

text \<open>
  The constants are the first 32 bits of the fractional parts of the cube roots of the first 64
  primes, and of the square roots of the first 8.  \<open>rootBits k n b r\<close> adds the bits below \<open>b\<close>
  of the integer \<open>k\<close>-th root of \<open>n\<close> to \<open>r\<close>; 36 bits hold every root in question.
\<close>

fun rootBits :: "nat \<Rightarrow> int \<Rightarrow> nat \<Rightarrow> int \<Rightarrow> int" where
  "rootBits k n 0 r = r"
| "rootBits k n (Suc b) r = rootBits k n b (if (r + 2 ^ b) ^ k \<le> n then r + 2 ^ b else r)"

definition rootFraction :: "nat \<Rightarrow> int \<Rightarrow> 32 word" where
  "rootFraction k p = of_int (rootBits k (p * 2 ^ (32 * k)) 36 0)"

definition primesBelow :: "int \<Rightarrow> int list" where
  "primesBelow n = filter (\<lambda>p. list_all (\<lambda>d. p mod d \<noteq> 0) [2..p - 1]) [2..n - 1]"

definition roundConstants :: "32 word list" where
  "roundConstants = map (rootFraction 3) (primesBelow 312)"

definition initialHash :: "32 word list" where
  "initialHash = map (rootFraction 2) (primesBelow 20)"

lemma length_initialHash: "length initialHash = 8"
proof -
  have "length (primesBelow 20) = 8" by code_simp
  then show ?thesis by (simp add: initialHash_def)
qed

definition rotr :: "nat \<Rightarrow> 32 word \<Rightarrow> 32 word" where
  "rotr n w = (drop_bit n w) OR (push_bit (32 - n) w)"

definition byteAt :: "32 word \<Rightarrow> nat \<Rightarrow> char" where
  "byteAt w i = char_of (unat (drop_bit (24 - 8 * i) w) mod 256)"

definition wordBytes :: "32 word \<Rightarrow> string" where
  "wordBytes w = map (byteAt w) [0..<4]"

definition bytesWord :: "string \<Rightarrow> 32 word" where
  "bytesWord cs = foldl (\<lambda>a c. push_bit 8 a + of_nat (of_char c)) 0 cs"

definition padded :: "string \<Rightarrow> string" where
  "padded s =
     (let n = length s; zeros = (119 - n mod 64) mod 64
      in s @ [char_of (128 :: nat)] @ replicate zeros (char_of (0 :: nat)) @
         replicate 3 (char_of (0 :: nat)) @ [char_of ((n div 2 ^ 29) mod 256 :: nat)] @ wordBytes (of_nat (8 * n)))"

fun chunks :: "nat \<Rightarrow> nat \<Rightarrow> 'a list \<Rightarrow> 'a list list" where
  "chunks 0 k xs = []"
| "chunks (Suc n) k xs = take k xs # chunks n k (drop k xs)"

fun schedule :: "nat \<Rightarrow> 32 word list \<Rightarrow> 32 word list" where
  "schedule 0 ws = ws"
| "schedule (Suc n) ws =
     (let i = length ws; x = ws ! (i - 15); y = ws ! (i - 2);
          s0 = rotr 7 x XOR rotr 18 x XOR drop_bit 3 x;
          s1 = rotr 17 y XOR rotr 19 y XOR drop_bit 10 y
      in schedule n (ws @ [ws ! (i - 16) + s0 + ws ! (i - 7) + s1]))"

text \<open>One round on the eight words of the state.\<close>

definition oneRound :: "32 word list \<Rightarrow> 32 word \<times> 32 word \<Rightarrow> 32 word list" where
  "oneRound state kw =
     (let a = state ! 0; b = state ! 1; c = state ! 2; d = state ! 3;
          e = state ! 4; f = state ! 5; g = state ! 6; h = state ! 7;
          s1 = rotr 6 e XOR rotr 11 e XOR rotr 25 e;
          ch = (e AND f) XOR (NOT e AND g);
          t1 = h + s1 + ch + fst kw + snd kw;
          s0 = rotr 2 a XOR rotr 13 a XOR rotr 22 a;
          maj = (a AND b) XOR (a AND c) XOR (b AND c)
      in [t1 + s0 + maj, a, b, c, d + t1, e, f, g])"

definition compress :: "32 word list \<Rightarrow> string \<Rightarrow> 32 word list" where
  "compress state block =
     map2 (+) state (foldl oneRound state (zip roundConstants (schedule 48 (map bytesWord (chunks 16 4 block)))))"

definition sha256 :: "string \<Rightarrow> string" where
  "sha256 s =
     (let p = padded s
      in concat (map wordBytes (foldl compress initialHash (chunks (length p div 64) 64 p))))"

lemma length_rounds: "length state = 8 \<Longrightarrow> length (foldl oneRound state kws) = 8"
  by (induction kws arbitrary: state) (simp_all add: oneRound_def Let_def)

lemma length_sha256: "length (sha256 s) = 32"
proof -
  have "length state = 8 \<Longrightarrow> length (foldl compress state blocks) = 8" for state blocks
    by (induction blocks arbitrary: state) (simp_all add: compress_def length_rounds)
  moreover have "length (concat (map wordBytes ws)) = 4 * length ws" for ws
    by (induction ws) (simp_all add: wordBytes_def)
  ultimately show ?thesis by (simp add: sha256_def Let_def length_initialHash)
qed

section \<open>JSON text\<close>

definition escapeByte :: "char \<Rightarrow> string" where
  "escapeByte c =
     (let n = (of_char c :: nat)
      in if n = 34 \<or> n = 92 then [char_of (92 :: nat), c]
         else if n = 8 then [char_of (92 :: nat), CHR ''b'']
         else if n = 9 then [char_of (92 :: nat), CHR ''t'']
         else if n = 10 then [char_of (92 :: nat), CHR ''n'']
         else if n = 12 then [char_of (92 :: nat), CHR ''f'']
         else if n = 13 then [char_of (92 :: nat), CHR ''r'']
         else if n < 32 \<or> n = 38 \<or> n = 60 \<or> n = 62 then char_of (92 :: nat) # ''u00'' @ hexEncode [c]
         else [c])"

definition quote :: "string \<Rightarrow> string" where
  "quote s = [char_of (34 :: nat)] @ concat (map escapeByte s) @ [char_of (34 :: nat)]"

primrec encodeJson :: "json \<Rightarrow> string" where
  "encodeJson JNull = ''null''"
| "encodeJson (JBool b) = (if b then ''true'' else ''false'')"
| "encodeJson (JInt i) = showInt i"
| "encodeJson (JFloat t) = t"
| "encodeJson (JStr s) = quote s"
| "encodeJson JNilArr = ''null''"
| "encodeJson (JArr xs) = ''['' @ Join (map encodeJson xs) '','' @ '']''"
| "encodeJson (JObj m) =
     ''{'' @ Join (map (\<lambda>k. quote k @ '':'' @ (case fmlookup (fmmap encodeJson m) k of None \<Rightarrow> [] | Some t \<Rightarrow> t))
       (sorted_list_of_fset (fmdom m))) '','' @ ''}''"

section \<open>Names and times\<close>

definition lowerAlnum :: "char \<Rightarrow> bool" where
  "lowerAlnum c \<longleftrightarrow> isDigit c \<or> (97 \<le> (of_char c :: nat) \<and> (of_char c :: nat) \<le> 122)"

definition dnsLabel :: "string \<Rightarrow> bool" where
  "dnsLabel l \<longleftrightarrow> l \<noteq> [] \<and> list_all (\<lambda>c. lowerAlnum c \<or> c = CHR ''-'') l \<and> lowerAlnum (hd l) \<and> lowerAlnum (last l)"

fun splitDots :: "string \<Rightarrow> string \<Rightarrow> string list" where
  "splitDots [] acc = [rev acc]"
| "splitDots (c # cs) acc = (if c = CHR ''.'' then rev acc # splitDots cs [] else splitDots cs (c # acc))"

definition dnsErrors :: "string \<Rightarrow> string list" where
  "dnsErrors s =
     (if length s > 253 then [''must be no more than 253 characters''] else []) @
     (if list_all dnsLabel (splitDots s []) then [] else [''a lowercase RFC 1123 subdomain must consist of lower case alphanumeric characters''])"

text \<open>Days since 1 January of year 1 in the Gregorian calendar.\<close>

definition daysBefore :: "int \<Rightarrow> int \<Rightarrow> int \<Rightarrow> int" where
  "daysBefore y m d =
     (let y' = (if m \<le> 2 then y - 1 else y); m' = (if m \<le> 2 then m + 9 else m - 3)
      in 365 * y' + y' div 4 - y' div 100 + y' div 400 + (153 * m' + 2) div 5 + d - 1 - 306)"

definition field :: "string \<Rightarrow> nat \<Rightarrow> nat \<Rightarrow> int" where
  "field s from to = int (readNat (take (to - from) (drop from s)))"

text \<open>The form the API server writes, \<open>YYYY-MM-DDThh:mm:ssZ\<close>; 0 for any other text.\<close>

definition parseTime :: "string \<Rightarrow> time" where
  "parseTime s =
     (if length s = 20 \<and> list_all (\<lambda>i. isDigit (s ! i)) [0, 1, 2, 3, 5, 6, 8, 9, 11, 12, 14, 15, 17, 18] \<and>
         s ! 4 = CHR ''-'' \<and> s ! 7 = CHR ''-'' \<and> s ! 10 = CHR ''T'' \<and> s ! 13 = CHR '':'' \<and>
         s ! 16 = CHR '':'' \<and> s ! 19 = CHR ''Z''
      then 1000000000 * (86400 * daysBefore (field s 0 4) (field s 5 7) (field s 8 10) +
             3600 * field s 11 13 + 60 * field s 14 16 + field s 17 19)
      else 0)"

definition ownerController :: "jobj \<Rightarrow> string option" where
  "ownerController u =
     (case filter (\<lambda>v. case v of JObj ref \<Rightarrow> jget ref ''controller'' = JBool True | _ \<Rightarrow> False)
             (elems (sliceAt u [''metadata'', ''ownerReferences''])) of
        JObj ref # _ \<Rightarrow> str_of (jget ref ''uid'')
      | _ \<Rightarrow> None)"

section \<open>Typed objects as JSON\<close>

definition putStr :: "string \<Rightarrow> string \<Rightarrow> jobj \<Rightarrow> jobj" where
  "putStr k s u = (if s = [] then u else fmupd k (JStr s) u)"

definition putLabels :: "string \<Rightarrow> (string, string) fmap \<Rightarrow> jobj \<Rightarrow> jobj" where
  "putLabels k m u = (if m = fmempty then u else fmupd k (string_json m) u)"

definition putOption :: "string \<Rightarrow> json option \<Rightarrow> jobj \<Rightarrow> jobj" where
  "putOption k v u = (case v of None \<Rightarrow> u | Some x \<Rightarrow> fmupd k x u)"

definition putList :: "string \<Rightarrow> string list \<Rightarrow> jobj \<Rightarrow> jobj" where
  "putList k xs u = (if xs = [] then u else fmupd k (JArr (map JStr xs)) u)"

definition putQuantities :: "string \<Rightarrow> (string, quantity) fmap \<Rightarrow> jobj \<Rightarrow> jobj" where
  "putQuantities k qs u =
     (if qs = fmempty then u else fmupd k (JObj (fmmap (\<lambda>q. JStr (showInt q @ ''n'')) qs)) u)"

definition metaJson :: "ObjectMeta \<Rightarrow> jobj" where
  "metaJson m =
     putStr ''name'' (om_Name m) (putStr ''namespace'' (om_Namespace m) (putStr ''uid'' (om_UID m)
       (putStr ''resourceVersion'' (om_ResourceVersion m)
         (putLabels ''labels'' (om_Labels m) (putLabels ''annotations'' (om_Annotations m)
           (fmupd ''creationTimestamp'' JNull fmempty))))))"

definition referenceJson :: "ObjectReference \<Rightarrow> jobj" where
  "referenceJson r =
     putStr ''apiVersion'' (or_APIVersion r) (putStr ''kind'' (or_Kind r)
       (putStr ''namespace'' (or_Namespace r) (putStr ''name'' (or_Name r) (putStr ''uid'' (or_UID r)
         (fmfilter (\<lambda>k. k \<notin> {''namespace'', ''name'', ''uid''}) (or_others r))))))"

definition nfsJson :: "NFSVolumeSource \<Rightarrow> jobj" where
  "nfsJson n =
     fmupd ''server'' (JStr (nfs_Server n)) (fmupd ''path'' (JStr (nfs_Path n))
       (if nfs_ReadOnly n then fmupd ''readOnly'' (JBool True) fmempty else fmempty))"

definition optStr :: "jobj \<Rightarrow> string \<Rightarrow> string option" where
  "optStr u k = (case jget u k of JNull \<Rightarrow> Some [] | JStr s \<Rightarrow> Some s | _ \<Rightarrow> None)"

definition optBool :: "jobj \<Rightarrow> string \<Rightarrow> bool option" where
  "optBool u k = (case jget u k of JNull \<Rightarrow> Some False | JBool b \<Rightarrow> Some b | _ \<Rightarrow> None)"

definition nfsOfJson :: "jobj \<Rightarrow> NFSVolumeSource option" where
  "nfsOfJson u =
     (case (optStr u ''server'', optStr u ''path'', optBool u ''readOnly'') of
        (Some s, Some p, Some b) \<Rightarrow> Some \<lparr> nfs_Server = s, nfs_Path = p, nfs_ReadOnly = b \<rparr>
      | _ \<Rightarrow> None)"

definition volumeSpecJson :: "PersistentVolumeSpec \<Rightarrow> jobj" where
  "volumeSpecJson spec =
     putQuantities ''capacity'' (pvsp_Capacity spec)
      (putList ''accessModes'' (pvsp_AccessModes spec)
       (putOption ''claimRef'' (map_option (JObj \<circ> referenceJson) (pvsp_ClaimRef spec))
        (putStr ''persistentVolumeReclaimPolicy'' (pvsp_ReclaimPolicy spec)
         (putStr ''storageClassName'' (pvsp_StorageClassName spec)
          (putOption ''volumeMode'' (map_option JStr (pvsp_VolumeMode spec))
           (putOption ''nodeAffinity'' (pvsp_NodeAffinity spec)
            (putOption ''nfs'' (map_option (JObj \<circ> nfsJson) (pvs_NFS (pvsp_Source spec)))
             (fmfilter (\<lambda>k. k \<notin> {''claimRef'', ''nfs''}) (pvs_others (pvsp_Source spec) ++\<^sub>f pvsp_others spec)))))))))"

definition claimSpecJson :: "PersistentVolumeClaimSpec \<Rightarrow> jobj" where
  "claimSpecJson spec =
     putList ''accessModes'' (pcs_AccessModes spec)
      (putOption ''selector'' (pcs_Selector spec)
       (fmupd ''resources'' (JObj (putQuantities ''requests'' (pcs_Requests spec) fmempty))
        (putStr ''volumeName'' (pcs_VolumeName spec)
         (putOption ''storageClassName'' (map_option JStr (pcs_StorageClassName spec))
          (putOption ''volumeMode'' (map_option JStr (pcs_VolumeMode spec))
           (putOption ''dataSource'' (pcs_DataSource spec)
            (putOption ''dataSourceRef'' (pcs_DataSourceRef spec)
             (putOption ''volumeAttributesClassName'' (map_option JStr (pcs_VolumeAttributesClassName spec))
              (fmdrop ''volumeName'' (pcs_others spec))))))))))"

definition typedJson :: "string \<Rightarrow> string \<Rightarrow> ObjectMeta \<Rightarrow> jobj \<Rightarrow> jobj \<Rightarrow> jobj" where
  "typedJson version kind meta spec status =
     putStr ''apiVersion'' version (putStr ''kind'' kind
       (fmupd ''metadata'' (JObj (metaJson meta)) (fmupd ''spec'' (JObj spec) (fmupd ''status'' (JObj status) fmempty))))"

definition volumeJson :: "PersistentVolume \<Rightarrow> jobj" where
  "volumeJson p = typedJson (pv_APIVersion p) (pv_Kind p) (pv_meta p) (volumeSpecJson (pv_Spec p))
     (putStr ''phase'' (pv_Phase p) fmempty)"

definition claimJson :: "PersistentVolumeClaim \<Rightarrow> jobj" where
  "claimJson q = typedJson (pvc_APIVersion q) (pvc_Kind q) (pvc_meta q) (claimSpecJson (pvc_Spec q))
     (putStr ''phase'' (pvc_Phase q) fmempty)"

section \<open>The instance\<close>

definition referenceLibraries :: libraries where
  "referenceLibraries =
     \<lparr> lib_Sum256 = sha256,
       lib_Marshal = (\<lambda>parts. Ok (encodeJson (JArr parts))),
       lib_IsDNS1123Subdomain = dnsErrors,
       lib_PVToUnstructured = Ok \<circ> volumeJson,
       lib_PVCToUnstructured = Ok \<circ> claimJson,
       lib_NFSFromUnstructured = nfsOfJson,
       lib_ParseTime = parseTime,
       lib_ControllerUID = ownerController,
       lib_RangeOrder = (\<lambda>ks. ks),
       lib_MaxVolumes = 2 ^ 38 \<rparr>"

lemma putStr_lookup: "fmlookup (putStr k s u) k' = (if k = k' \<and> s \<noteq> [] then Some (JStr s) else fmlookup u k')"
  by (simp add: putStr_def)

lemma putOption_lookup: "fmlookup (putOption k v u) k' = (if k = k' \<and> v \<noteq> None then v else fmlookup u k')"
  by (auto simp: putOption_def split: option.split)

lemma putLabels_lookup:
  "fmlookup (putLabels k m u) k' = (if k = k' \<and> m \<noteq> fmempty then Some (string_json m) else fmlookup u k')"
  by (simp add: putLabels_def)

lemma putList_lookup:
  "fmlookup (putList k xs u) k' = (if k = k' \<and> xs \<noteq> [] then Some (JArr (map JStr xs)) else fmlookup u k')"
  by (simp add: putList_def)

lemma putQuantities_lookup: "k \<noteq> k' \<Longrightarrow> fmlookup (putQuantities k qs u) k' = fmlookup u k'"
  by (simp add: putQuantities_def)

lemmas put_lookups = putStr_lookup putOption_lookup putLabels_lookup putList_lookup putQuantities_lookup

lemma strAt_one: "strAt u [k] = (case fmlookup u k of Some (JStr s) \<Rightarrow> s | _ \<Rightarrow> [])"
  by (auto simp: strAt_def NestedString_def NestedField_Cons split: option.splits json.splits)

lemma strAt_Cons2: "strAt u (k # l # p) = (case fmlookup u k of Some (JObj m) \<Rightarrow> strAt m (l # p) | _ \<Rightarrow> [])"
  by (auto simp: strAt_def NestedString_def NestedField_Cons split: option.splits json.splits)

lemma typedJson_reads:
  "GetAPIVersion (typedJson v k m spec st) = v" "GetKind (typedJson v k m spec st) = k"
  "fmlookup (typedJson v k m spec st) ''metadata'' = Some (JObj (metaJson m))"
  "fmlookup (typedJson v k m spec st) ''spec'' = Some (JObj spec)"
  by (simp_all add: typedJson_def GetAPIVersion_def GetKind_def strAt_one put_lookups)

lemma metaJson_reads:
  "strAt (metaJson m) [''name''] = om_Name m" "strAt (metaJson m) [''namespace''] = om_Namespace m"
  "om_Annotations m = fmempty \<Longrightarrow> fmlookup (metaJson m) ''annotations'' = None"
  by (simp_all add: metaJson_def strAt_one put_lookups)

lemma nfs_roundtrip: "nfsOfJson (nfsJson n) = Some n"
  by (cases n) (simp add: nfsOfJson_def nfsJson_def optStr_def optBool_def)

lemma referenceJson_reads:
  "strAt (referenceJson r) [''name''] = or_Name r" "strAt (referenceJson r) [''namespace''] = or_Namespace r"
  "strAt (referenceJson r) [''uid''] = or_UID r"
  by (simp_all add: referenceJson_def strAt_one put_lookups)

interpretation reference: documented_libraries referenceLibraries
proof unfold_locales
  fix p u r n
  assume u: "lib_PVToUnstructured referenceLibraries p = Ok u"
  then have u: "u = volumeJson p" by (simp add: referenceLibraries_def)
  show "GetAPIVersion u = pv_APIVersion p \<and> GetKind u = pv_Kind p"
    by (simp add: u volumeJson_def typedJson_reads)
  show "GetName u = om_Name (pv_meta p) \<and> GetNamespace u = om_Namespace (pv_meta p) \<and>
       (\<exists>md. fmlookup u ''metadata'' = Some (JObj md) \<and>
          (om_Annotations (pv_meta p) = fmempty \<longrightarrow> fmlookup md ''annotations'' = None))"
    by (simp add: u volumeJson_def typedJson_reads metaJson_reads GetName_def GetNamespace_def strAt_Cons2)
  show "claim_ref_of p = Some r \<Longrightarrow>
       strAt u [''spec'', ''claimRef'', ''name''] = or_Name r \<and>
       strAt u [''spec'', ''claimRef'', ''namespace''] = or_Namespace r \<and>
       strAt u [''spec'', ''claimRef'', ''uid''] = or_UID r"
    by (simp add: u volumeJson_def typedJson_reads claim_ref_of_def strAt_Cons2 volumeSpecJson_def
        put_lookups referenceJson_reads)
  show "pvs_NFS (pvsp_Source (pv_Spec p)) = Some n \<Longrightarrow>
       lib_NFSFromUnstructured referenceLibraries (mapAt u [''spec'', ''nfs'']) = Some n"
    by (simp add: u volumeJson_def typedJson_reads volumeSpecJson_def put_lookups mapAt_def NestedMap_def
        NestedField_Cons referenceLibraries_def nfs_roundtrip)
next
  fix q v
  assume v: "lib_PVCToUnstructured referenceLibraries q = Ok v"
  then have v: "v = claimJson q" by (simp add: referenceLibraries_def)
  show "GetAPIVersion v = pvc_APIVersion q \<and> GetKind v = pvc_Kind q"
    by (simp add: v claimJson_def typedJson_reads)
  show "GetName v = om_Name (pvc_meta q) \<and> GetNamespace v = om_Namespace (pvc_meta q) \<and>
       (\<exists>md. fmlookup v ''metadata'' = Some (JObj md) \<and>
          (om_Annotations (pvc_meta q) = fmempty \<longrightarrow> fmlookup md ''annotations'' = None))"
    by (simp add: v claimJson_def typedJson_reads metaJson_reads GetName_def GetNamespace_def strAt_Cons2)
  show "strAt v [''spec'', ''volumeName''] = pcs_VolumeName (pvc_Spec q)"
    by (simp add: v claimJson_def typedJson_reads strAt_Cons2 claimSpecJson_def strAt_one put_lookups)
qed (simp_all add: referenceLibraries_def length_sha256)

end
