(* ===== verification/Resources.thy ===== *)
theory Resources
  imports Libraries
begin

text \<open>
  \<open>internal/management/resources.go\<close>: the labels and kinds of the management controllers, the
  constructor of an empty object of a kind, the deterministic names of the objects they
  create, and the controller owner reference.
\<close>

section \<open>Labels and kinds\<close>

definition OptInLabel :: string where "OptInLabel = ''migration.dcnlab.com/pv-metadata''"
definition OwnerLabel :: string where "OwnerLabel = ''migration.dcnlab.com/migration-uid''"
definition ManagedLabel :: string where "ManagedLabel = ''migration.dcnlab.com/managed-by''"
definition ManagerName :: string where "ManagerName = ''pv-migration-system''"
definition standalonePairLabel :: string where
  "standalonePairLabel = ''migration.dcnlab.com/standalone-pair''"

lemma labels_distinct [simp]:
  "OwnerLabel \<noteq> ManagedLabel" "ManagedLabel \<noteq> OwnerLabel"
  "standalonePairLabel \<noteq> ManagedLabel" "ManagedLabel \<noteq> standalonePairLabel"
  "standalonePairLabel \<noteq> OwnerLabel" "OwnerLabel \<noteq> standalonePairLabel"
  by (simp_all add: OwnerLabel_def ManagedLabel_def standalonePairLabel_def)

record GroupVersionKind =
  gvk_Group :: string
  gvk_Version :: string
  gvk_Kind :: string

definition BindingGVK :: GroupVersionKind where
  "BindingGVK = \<lparr> gvk_Group = ''work.karmada.io'', gvk_Version = ''v1alpha2'', gvk_Kind = ''ResourceBinding'' \<rparr>"

definition WorkGVK :: GroupVersionKind where
  "WorkGVK = \<lparr> gvk_Group = ''work.karmada.io'', gvk_Version = ''v1alpha1'', gvk_Kind = ''Work'' \<rparr>"

definition PolicyGVK :: GroupVersionKind where
  "PolicyGVK = \<lparr> gvk_Group = ''policy.karmada.io'', gvk_Version = ''v1alpha1'', gvk_Kind = ''PropagationPolicy'' \<rparr>"

definition RestoreRequestGVK :: GroupVersionKind where
  "RestoreRequestGVK = \<lparr> gvk_Group = ''migration.dcnlab.com'', gvk_Version = ''v1alpha1'', gvk_Kind = ''RestoreRequest'' \<rparr>"

definition apiVersionOf :: "GroupVersionKind \<Rightarrow> string" where
  "apiVersionOf g = (if gvk_Group g = [] then gvk_Version g else gvk_Group g @ ''/'' @ gvk_Version g)"

text \<open>\<open>SetNamespace\<close> removes the field for an empty namespace, \<open>SetName\<close> for an empty name.\<close>

definition setOrRemove :: "string \<Rightarrow> string list \<Rightarrow> jobj \<Rightarrow> jobj" where
  "setOrRemove s p u = (if s = [] then RemoveNestedField p u else setField (JStr s) p u)"

definition object :: "GroupVersionKind \<Rightarrow> string \<Rightarrow> string \<Rightarrow> jobj" where
  "object g ns name =
     setOrRemove name [''metadata'', ''name'']
       (setOrRemove ns [''metadata'', ''namespace'']
         (fmupd ''kind'' (JStr (gvk_Kind g)) (fmupd ''apiVersion'' (JStr (apiVersionOf g)) fmempty)))"

lemma object_eq:
  "ns \<noteq> [] \<Longrightarrow> name \<noteq> [] \<Longrightarrow>
   object g ns name =
     fmupd ''metadata'' (JObj (fmupd ''name'' (JStr name) (fmupd ''namespace'' (JStr ns) fmempty)))
      (fmupd ''kind'' (JStr (gvk_Kind g)) (fmupd ''apiVersion'' (JStr (apiVersionOf g)) fmempty))"
  by (simp add: object_def setOrRemove_def setField_def)

section \<open>Deterministic names\<close>

text \<open>
  \<open>stableName\<close> hashes the parts as netstrings, \<open>"%d:%s;"\<close> for each part, and keeps 24
  hexadecimal digits of the sum.
\<close>

definition netstring :: "string \<Rightarrow> string" where
  "netstring s = showNat (length s) @ '':'' @ s @ '';''"

definition netstrings :: "string list \<Rightarrow> string" where
  "netstrings parts = concat (map netstring parts)"

definition nameDigest :: "libraries \<Rightarrow> string \<Rightarrow> string" where
  "nameDigest L s = take 24 (hexEncode (lib_Sum256 L s))"

definition stableName :: "libraries \<Rightarrow> string \<Rightarrow> string list \<Rightarrow> string" where
  "stableName L prefix parts = prefix @ ''-'' @ nameDigest L (netstrings parts)"

lemma digits_before_colon:
  assumes "\<forall>c\<in>set ds. isDigit c" and "\<forall>c\<in>set es. isDigit c"
    and "ds @ CHR '':'' # xs = es @ CHR '':'' # ys"
  shows "ds = es \<and> xs = ys"
proof -
  have colon: "\<not> isDigit CHR '':''" by (simp add: isDigit_iff)
  have "takeWhile isDigit (zs @ CHR '':'' # w) = zs" if "\<forall>c\<in>set zs. isDigit c" for zs w
    using that colon by (simp add: takeWhile_append2)
  with assms have "ds = es" by metis
  with assms(3) show ?thesis by simp
qed

lemma netstring_append_inj:
  "netstring s @ xs = netstring t @ ys \<longleftrightarrow> s = t \<and> xs = ys"
proof
  assume "netstring s @ xs = netstring t @ ys"
  then have "showNat (length s) @ CHR '':'' # (s @ CHR '';'' # xs) =
             showNat (length t) @ CHR '':'' # (t @ CHR '';'' # ys)"
    by (simp add: netstring_def)
  then have "showNat (length s) = showNat (length t)" and rest: "s @ CHR '';'' # xs = t @ CHR '';'' # ys"
    using digits_before_colon showNat_digits by blast+
  then have "length s = length t" by (simp add: showNat_inj)
  with rest show "s = t \<and> xs = ys" by simp
qed simp

lemma netstring_nonempty [simp]: "netstring s \<noteq> []"
  by (simp add: netstring_def)

lemma netstrings_inj: "netstrings xs = netstrings ys \<longleftrightarrow> xs = ys"
proof
  show "netstrings xs = netstrings ys \<Longrightarrow> xs = ys"
  proof (induction xs arbitrary: ys)
    case Nil
    then show ?case by (cases ys) (auto simp: netstrings_def)
  next
    case (Cons x xs)
    then obtain y ys' where "ys = y # ys'"
      by (cases ys) (auto simp: netstrings_def)
    with Cons show ?case
      by (auto simp: netstrings_def netstring_append_inj)
  qed
qed simp

text \<open>
  Two names of one prefix agree only for equal parts, unless the truncated digest collides on
  the encodings; that it does not is the named hypothesis of the results that need it.
\<close>

definition no_collision :: "libraries \<Rightarrow> string list set \<Rightarrow> bool" where
  "no_collision L A \<longleftrightarrow> inj_on (nameDigest L) (netstrings ` A)"

lemma stableName_eq_iff:
  assumes "no_collision L A" and "xs \<in> A" and "ys \<in> A"
  shows "stableName L p xs = stableName L p ys \<longleftrightarrow> xs = ys"
  using assms by (auto simp: stableName_def no_collision_def inj_on_def netstrings_inj)

lemma length_stableName:
  "length (lib_Sum256 L (netstrings parts)) = 32 \<Longrightarrow>
     length (stableName L prefix parts) = length prefix + 25"
  by (simp add: stableName_def nameDigest_def length_hexEncode)

section \<open>Owner references\<close>

definition controllerOwner :: "string \<Rightarrow> string \<Rightarrow> string \<Rightarrow> string \<Rightarrow> jobj" where
  "controllerOwner apiVersion kind name uid =
     fmupd ''controller'' (JBool True)
      (fmupd ''uid'' (JStr uid) (fmupd ''name'' (JStr name)
       (fmupd ''kind'' (JStr kind) (fmupd ''apiVersion'' (JStr apiVersion) fmempty))))"

end
