(* ===== verification/Client.thy ===== *)
theory Client
  imports Resources
begin

text \<open>
  The API client of controller-runtime as an interface.  A controller is a program over it: a
  tree whose nodes are the API calls in the order the Go code makes them and whose branches
  are the possible replies (\<open>prog\<close>).  Nothing is assumed about the server or about other
  writers: every call may get any reply of its form, an error of any kind included.  \<open>exec\<close>
  relates a program to its traces of calls and replies, \<open>run\<close> runs it on a script of
  replies, and \<open>wp\<close> is the calculus that shows that every call of every trace satisfies a
  guard over the calls before it.
\<close>

section \<open>Calls and replies\<close>

datatype kind =
    MigrationKind
  | MetadataKind
  | StatefulSetKind
  | ClaimKind
  | VolumeKind
  | UnstructuredKind GroupVersionKind

datatype api_object =
    MigrationObj PVMigration
  | MetadataObj PVMetadata
  | StatefulSetObj StatefulSet
  | ClaimObj PersistentVolumeClaim
  | VolumeObj PersistentVolume
  | UnstructuredObj jobj

text \<open>
  A patch is the pair of the object it is computed from and the object it leads to
  (\<open>MergeFromWithOptions(base, MergeFromWithOptimisticLock{})\<close>); a deletion carries its UID
  and resource version preconditions; \<open>NowCall\<close> is \<open>time.Now\<close>.
\<close>

datatype api_call =
    GetCall kind namespaced_name
  | ListMigrations string
  | CreateCall api_object
  | PatchCall api_object api_object
  | StatusPatchCall api_object api_object
  | DeleteCall api_object string string
  | NowCall

datatype api_reply =
    Failed goerr
  | Object api_object
  | Items "PVMigration list"
  | Done
  | Clock time

fun hasKind :: "kind \<Rightarrow> api_object \<Rightarrow> bool" where
  "hasKind MigrationKind (MigrationObj _) = True"
| "hasKind MetadataKind (MetadataObj _) = True"
| "hasKind StatefulSetKind (StatefulSetObj _) = True"
| "hasKind ClaimKind (ClaimObj _) = True"
| "hasKind VolumeKind (VolumeObj _) = True"
| "hasKind (UnstructuredKind _) (UnstructuredObj _) = True"
| "hasKind _ _ = False"

fun sameKind :: "api_object \<Rightarrow> api_object \<Rightarrow> bool" where
  "sameKind (MigrationObj _) (MigrationObj _) = True"
| "sameKind (MetadataObj _) (MetadataObj _) = True"
| "sameKind (StatefulSetObj _) (StatefulSetObj _) = True"
| "sameKind (ClaimObj _) (ClaimObj _) = True"
| "sameKind (VolumeObj _) (VolumeObj _) = True"
| "sameKind (UnstructuredObj _) (UnstructuredObj _) = True"
| "sameKind _ _ = False"

text \<open>The replies a call can get: the typed client fills the object it was handed.\<close>

fun answers :: "api_call \<Rightarrow> api_reply \<Rightarrow> bool" where
  "answers NowCall r \<longleftrightarrow> (\<exists>t. r = Clock t)"
| "answers (GetCall k _) (Object obj) \<longleftrightarrow> hasKind k obj"
| "answers (ListMigrations _) (Items _) \<longleftrightarrow> True"
| "answers (CreateCall obj) (Object obj') \<longleftrightarrow> sameKind obj obj'"
| "answers (PatchCall _ obj) (Object obj') \<longleftrightarrow> sameKind obj obj'"
| "answers (StatusPatchCall _ obj) (Object obj') \<longleftrightarrow> sameKind obj obj'"
| "answers (DeleteCall _ _ _) Done \<longleftrightarrow> True"
| "answers _ (Failed _) \<longleftrightarrow> True"
| "answers _ _ \<longleftrightarrow> False"

type_synonym trace = "(api_call \<times> api_reply) list"

section \<open>Programs\<close>

datatype 'a prog =
    Return 'a
  | Call api_call "api_reply \<Rightarrow> 'a prog"

primrec bind_prog :: "'a prog \<Rightarrow> ('a \<Rightarrow> 'b prog) \<Rightarrow> 'b prog" where
  "bind_prog (Return x) f = f x"
| "bind_prog (Call c k) f = Call c (\<lambda>r. bind_prog (k r) f)"

type_synonym 'a act = "'a go prog"

text \<open>
  \<open>tryM m h k\<close> is the Go pattern \<open>x, err := m; if err != nil { h err }; k x\<close>.  A panic
  unwinds past both branches.
\<close>

definition tryM :: "'a act \<Rightarrow> (goerr \<Rightarrow> 'b act) \<Rightarrow> ('a \<Rightarrow> 'b act) \<Rightarrow> 'b act" where
  "tryM m h k = bind_prog m (\<lambda>r. case r of Ok x \<Rightarrow> k x | Err e \<Rightarrow> h e | Panic \<Rightarrow> Return Panic)"

definition ret :: "'a \<Rightarrow> 'a act" where
  "ret x = Return (Ok x)"

definition raise :: "goerr \<Rightarrow> 'a act" where
  "raise e = Return (Err e)"

text \<open>Like \<open>tryM\<close>, for a step that returns its error unchanged.\<close>

definition andThen :: "'a act \<Rightarrow> ('a \<Rightarrow> 'b act) \<Rightarrow> 'b act" where
  "andThen m k = tryM m raise k"

definition call :: "api_call \<Rightarrow> (api_reply \<Rightarrow> 'a go) \<Rightarrow> 'a act" where
  "call c f = Call c (\<lambda>r. Return (f r))"

text \<open>The guards \<open>if err := pureCheck(); err != nil { return err }\<close> and \<open>if !b { return error }\<close>.\<close>

definition check :: "goerr option \<Rightarrow> 'a act \<Rightarrow> 'a act" where
  "check r k = (case r of None \<Rightarrow> k | Some e \<Rightarrow> raise e)"

definition require :: "bool \<Rightarrow> string \<Rightarrow> 'a act \<Rightarrow> 'a act" where
  "require b message k = (if b then k else raise (GoError message))"

text \<open>\<open>client.ObjectKeyFromObject\<close>\<close>

definition objectKey :: "jobj \<Rightarrow> namespaced_name" where
  "objectKey u = (GetNamespace u, GetName u)"

lemma objectKey_object [simp]: "objectKey (object g ns name) = (ns, name)"
proof -
  have reads: "GetNamespace (object g ns name) = ns" "GetName (object g ns name) = name"
    by (simp_all add: object_def setOrRemove_def setField_def GetNamespace_def GetName_def strAt_def
        NestedString_def NestedField_Cons)
  then show ?thesis by (simp add: objectKey_def)
qed

section \<open>The typed calls\<close>

fun asMigration :: "api_reply \<Rightarrow> PVMigration go" where
  "asMigration (Failed e) = Err e"
| "asMigration (Object (MigrationObj m)) = Ok m"
| "asMigration _ = Panic"

fun asMetadata :: "api_reply \<Rightarrow> PVMetadata go" where
  "asMetadata (Failed e) = Err e"
| "asMetadata (Object (MetadataObj m)) = Ok m"
| "asMetadata _ = Panic"

fun asStatefulSet :: "api_reply \<Rightarrow> StatefulSet go" where
  "asStatefulSet (Failed e) = Err e"
| "asStatefulSet (Object (StatefulSetObj s)) = Ok s"
| "asStatefulSet _ = Panic"

fun asClaim :: "api_reply \<Rightarrow> PersistentVolumeClaim go" where
  "asClaim (Failed e) = Err e"
| "asClaim (Object (ClaimObj c)) = Ok c"
| "asClaim _ = Panic"

fun asVolume :: "api_reply \<Rightarrow> PersistentVolume go" where
  "asVolume (Failed e) = Err e"
| "asVolume (Object (VolumeObj v)) = Ok v"
| "asVolume _ = Panic"

fun asUnstructured :: "api_reply \<Rightarrow> jobj go" where
  "asUnstructured (Failed e) = Err e"
| "asUnstructured (Object (UnstructuredObj u)) = Ok u"
| "asUnstructured _ = Panic"

fun asItems :: "api_reply \<Rightarrow> PVMigration list go" where
  "asItems (Failed e) = Err e"
| "asItems (Items ms) = Ok ms"
| "asItems _ = Panic"

fun asUnit :: "api_reply \<Rightarrow> unit go" where
  "asUnit (Failed e) = Err e"
| "asUnit _ = Ok ()"

fun asTime :: "api_reply \<Rightarrow> time go" where
  "asTime (Clock t) = Ok t"
| "asTime _ = Panic"

definition getMigration :: "namespaced_name \<Rightarrow> PVMigration act" where
  "getMigration nn = call (GetCall MigrationKind nn) asMigration"

definition getMetadata :: "namespaced_name \<Rightarrow> PVMetadata act" where
  "getMetadata nn = call (GetCall MetadataKind nn) asMetadata"

definition getStatefulSet :: "namespaced_name \<Rightarrow> StatefulSet act" where
  "getStatefulSet nn = call (GetCall StatefulSetKind nn) asStatefulSet"

definition getClaim :: "namespaced_name \<Rightarrow> PersistentVolumeClaim act" where
  "getClaim nn = call (GetCall ClaimKind nn) asClaim"

definition getVolume :: "namespaced_name \<Rightarrow> PersistentVolume act" where
  "getVolume nn = call (GetCall VolumeKind nn) asVolume"

definition getUnstructured :: "GroupVersionKind \<Rightarrow> namespaced_name \<Rightarrow> jobj act" where
  "getUnstructured g nn = call (GetCall (UnstructuredKind g) nn) asUnstructured"

definition listMigrations :: "string \<Rightarrow> PVMigration list act" where
  "listMigrations ns = call (ListMigrations ns) asItems"

definition createMetadata :: "PVMetadata \<Rightarrow> PVMetadata act" where
  "createMetadata md = call (CreateCall (MetadataObj md)) asMetadata"

definition createUnstructured :: "jobj \<Rightarrow> jobj act" where
  "createUnstructured u = call (CreateCall (UnstructuredObj u)) asUnstructured"

definition patchUnstructured :: "jobj \<Rightarrow> jobj \<Rightarrow> unit act" where
  "patchUnstructured base u = call (PatchCall (UnstructuredObj base) (UnstructuredObj u)) asUnit"

definition patchMigrationStatus :: "PVMigration \<Rightarrow> PVMigration \<Rightarrow> unit act" where
  "patchMigrationStatus base m = call (StatusPatchCall (MigrationObj base) (MigrationObj m)) asUnit"

definition patchMetadataStatus :: "PVMetadata \<Rightarrow> PVMetadata \<Rightarrow> unit act" where
  "patchMetadataStatus base m = call (StatusPatchCall (MetadataObj base) (MetadataObj m)) asUnit"

definition deleteUnstructured :: "jobj \<Rightarrow> string \<Rightarrow> string \<Rightarrow> unit act" where
  "deleteUnstructured u uid rv = call (DeleteCall (UnstructuredObj u) uid rv) asUnit"

definition now :: "time act" where
  "now = call NowCall asTime"

text \<open>
  A reconciler returns \<open>(ctrl.Result, error)\<close>.  The result is the requeue delay in
  nanoseconds, 0 for none.
\<close>

type_synonym duration = int
type_synonym outcome = "duration \<times> goerr option"

definition second :: duration where
  "second = 1000000000"

section \<open>Traces\<close>

inductive exec :: "'a prog \<Rightarrow> trace \<Rightarrow> 'a \<Rightarrow> bool" where
  exec_Return: "exec (Return x) [] x"
| exec_Call: "answers c r \<Longrightarrow> exec (k r) tr x \<Longrightarrow> exec (Call c k) ((c, r) # tr) x"

inductive_simps exec_simps [simp]:
  "exec (Return x) tr y"
  "exec (Call c k) tr y"

text \<open>
  Running a program on a script of replies: the calls it makes with the replies they got, its
  value, and the replies left over.
\<close>

primrec run :: "'a prog \<Rightarrow> api_reply list \<Rightarrow> (trace \<times> 'a \<times> api_reply list) option" where
  "run (Return x) rs = Some ([], x, rs)"
| "run (Call c k) rs =
     (case rs of
        [] \<Rightarrow> None
      | r # rest \<Rightarrow> (case run (k r) rest of None \<Rightarrow> None | Some (tr, x, left) \<Rightarrow> Some ((c, r) # tr, x, left)))"

definition well_typed :: "trace \<Rightarrow> bool" where
  "well_typed tr \<longleftrightarrow> list_all (\<lambda>(c, r). answers c r) tr"

lemma run_exec: "run p rs = Some (tr, x, left) \<Longrightarrow> well_typed tr \<Longrightarrow> exec p tr x"
proof (induction p arbitrary: rs tr)
  case (Call c k)
  then obtain r rest tr' where "rs = r # rest" "run (k r) rest = Some (tr', x, left)" "tr = (c, r) # tr'"
    by (auto split: list.splits option.splits)
  with Call show ?case by (auto simp: well_typed_def)
qed auto

lemma exec_run: "exec p tr x \<Longrightarrow> run p (map snd tr @ left) = Some (tr, x, left)"
  by (induction rule: exec.induct) auto

definition run_then :: "(trace \<times> 'a \<times> api_reply list) option \<Rightarrow> ('a \<Rightarrow> 'b prog) \<Rightarrow> (trace \<times> 'b \<times> api_reply list) option" where
  "run_then r f =
     (case r of None \<Rightarrow> None
      | Some (tr, x, left) \<Rightarrow>
          (case run (f x) left of None \<Rightarrow> None | Some (tr', y, left') \<Rightarrow> Some (tr @ tr', y, left')))"

lemma run_then_Some [run_rules]:
  "run_then (Some (tr, x, left)) f =
     (case run (f x) left of None \<Rightarrow> None | Some (tr', y, left') \<Rightarrow> Some (tr @ tr', y, left'))"
  by (simp add: run_then_def)

lemma run_bind: "run (bind_prog p f) rs = run_then (run p rs) f"
proof (induction p arbitrary: rs)
  case (Call c k)
  then show ?case by (auto simp: run_then_def split: list.split option.split)
qed (auto simp: run_then_def split: option.split)

lemma exec_bind:
  "exec (bind_prog p f) tr y \<longleftrightarrow> (\<exists>t1 x t2. tr = t1 @ t2 \<and> exec p t1 x \<and> exec (f x) t2 y)"
proof (induction p arbitrary: tr)
  case (Call c k)
  show ?case
  proof
    assume "exec (bind_prog (Call c k) f) tr y"
    then obtain r tr' where tr: "tr = (c, r) # tr'" "answers c r" "exec (bind_prog (k r) f) tr' y" by auto
    with Call.IH obtain t1 x t2 where "tr' = t1 @ t2" "exec (k r) t1 x" "exec (f x) t2 y" by blast
    with tr have "tr = ((c, r) # t1) @ t2" "exec (Call c k) ((c, r) # t1) x" "exec (f x) t2 y" by auto
    then show "\<exists>t1 x t2. tr = t1 @ t2 \<and> exec (Call c k) t1 x \<and> exec (f x) t2 y" by blast
  next
    assume "\<exists>t1 x t2. tr = t1 @ t2 \<and> exec (Call c k) t1 x \<and> exec (f x) t2 y"
    then obtain r t1 x t2 where "tr = ((c, r) # t1) @ t2" "answers c r" "exec (k r) t1 x" "exec (f x) t2 y"
      by auto
    with Call.IH show "exec (bind_prog (Call c k) f) tr y" by auto
  qed
qed auto

text \<open>Inversion of successful runs.\<close>

lemma exec_tryM:
  "exec (tryM m h k) tr y \<longleftrightarrow>
     (\<exists>t1 r t2. tr = t1 @ t2 \<and> exec m t1 r \<and>
        (case r of Ok x \<Rightarrow> exec (k x) t2 y | Err e \<Rightarrow> exec (h e) t2 y | Panic \<Rightarrow> t2 = [] \<and> y = Panic))"
proof -
  have "exec (case r of Ok x \<Rightarrow> k x | Err e \<Rightarrow> h e | Panic \<Rightarrow> Return Panic) t2 y \<longleftrightarrow>
      (case r of Ok x \<Rightarrow> exec (k x) t2 y | Err e \<Rightarrow> exec (h e) t2 y | Panic \<Rightarrow> t2 = [] \<and> y = Panic)" for r t2
    by (cases r) auto
  then show ?thesis by (simp add: tryM_def exec_bind)
qed

lemma exec_raise [simp]: "exec (raise e) tr y \<longleftrightarrow> tr = [] \<and> y = Err e"
  by (auto simp: raise_def)

lemma exec_ret [simp]: "exec (ret x) tr y \<longleftrightarrow> tr = [] \<and> y = Ok x"
  by (auto simp: ret_def)

lemma exec_tryM_Ok [exec_rules]:
  "exec (tryM m (\<lambda>e. raise (f e)) k) tr (Ok y) \<longleftrightarrow>
     (\<exists>t1 x t2. tr = t1 @ t2 \<and> exec m t1 (Ok x) \<and> exec (k x) t2 (Ok y))"
proof -
  have "(case r of Ok x \<Rightarrow> exec (k x) t2 (Ok y) | Err e \<Rightarrow> exec (raise (f e)) t2 (Ok y)
        | Panic \<Rightarrow> t2 = [] \<and> Ok y = Panic) \<longleftrightarrow> (\<exists>x. r = Ok x \<and> exec (k x) t2 (Ok y))" for r t2
    by (cases r) simp_all
  note eq = this
  show ?thesis unfolding exec_tryM eq by (intro iffI; elim exE conjE; simp; blast)
qed

lemma exec_andThen_Ok [exec_rules]:
  "exec (andThen m k) tr (Ok y) \<longleftrightarrow>
     (\<exists>t1 x t2. tr = t1 @ t2 \<and> exec m t1 (Ok x) \<and> exec (k x) t2 (Ok y))"
  using exec_tryM_Ok [of m "\<lambda>e. e"] by (simp add: andThen_def)

lemma exec_check_Ok [exec_rules]: "exec (check r k) tr (Ok y) \<longleftrightarrow> r = None \<and> exec k tr (Ok y)"
  by (auto simp: check_def split: option.split)

lemma exec_require_Ok [exec_rules]: "exec (require b msg k) tr (Ok y) \<longleftrightarrow> b \<and> exec k tr (Ok y)"
  by (auto simp: require_def)

lemma exec_call: "exec (call c f) tr y \<longleftrightarrow> (\<exists>r. answers c r \<and> tr = [(c, r)] \<and> y = f r)"
  by (auto simp: call_def)

lemma asUnstructured_Ok: "asUnstructured r = Ok u \<longleftrightarrow> r = Object (UnstructuredObj u)"
  by (cases r rule: asUnstructured.cases) auto

lemma asStatefulSet_Ok: "asStatefulSet r = Ok s \<longleftrightarrow> r = Object (StatefulSetObj s)"
  by (cases r rule: asStatefulSet.cases) auto

lemma asItems_Ok: "asItems r = Ok ms \<longleftrightarrow> r = Items ms"
  by (cases r rule: asItems.cases) auto

lemma exec_typed_calls_Ok [exec_rules]:
  "exec (getUnstructured g nn) tr (Ok u) \<longleftrightarrow> tr = [(GetCall (UnstructuredKind g) nn, Object (UnstructuredObj u))]"
  "exec (getStatefulSet nn) tr (Ok s) \<longleftrightarrow> tr = [(GetCall StatefulSetKind nn, Object (StatefulSetObj s))]"
  "exec (listMigrations ns) tr (Ok ms) \<longleftrightarrow> tr = [(ListMigrations ns, Items ms)]"
  by (auto simp: getUnstructured_def getStatefulSet_def listMigrations_def exec_call asUnstructured_Ok
      asStatefulSet_Ok asItems_Ok eq_commute [of "Ok _"])

text \<open>Evaluation of a program on a script.\<close>

definition run_try :: "(trace \<times> 'a go \<times> api_reply list) option \<Rightarrow> (goerr \<Rightarrow> 'b act) \<Rightarrow> ('a \<Rightarrow> 'b act) \<Rightarrow>
    (trace \<times> 'b go \<times> api_reply list) option" where
  "run_try r h k = run_then r (\<lambda>r. case r of Ok x \<Rightarrow> k x | Err e \<Rightarrow> h e | Panic \<Rightarrow> Return Panic)"

lemma run_try_Some [run_rules]:
  "run_try (Some (tr, Ok x, left)) h k =
     (case run (k x) left of None \<Rightarrow> None | Some (tr', y, left') \<Rightarrow> Some (tr @ tr', y, left'))"
  "run_try (Some (tr, Err e, left)) h k =
     (case run (h e) left of None \<Rightarrow> None | Some (tr', y, left') \<Rightarrow> Some (tr @ tr', y, left'))"
  by (simp_all add: run_try_def run_then_def)

lemma run_constructs [run_rules]:
  "run (tryM m h k) rs = run_try (run m rs) h k"
  "run (andThen m k) rs = run_try (run m rs) raise k"
  "run (ret x) rs = Some ([], Ok x, rs)"
  "run (raise e) rs = Some ([], Err e, rs)"
  "run (require b msg q) rs = (if b then run q rs else Some ([], Err (GoError msg), rs))"
  by (simp_all add: tryM_def andThen_def run_bind run_try_def ret_def raise_def require_def)

lemma run_check [run_rules]:
  "run (check None q) rs = run q rs" "run (check (Some e) q) rs = Some ([], Err e, rs)"
  by (simp_all add: check_def raise_def)

lemma run_call [run_rules]: "run (call c f) (r # rs) = Some ([(c, r)], f r, rs)"
  by (simp add: call_def)

lemmas run_typed_calls [run_rules] = getMigration_def getMetadata_def getStatefulSet_def getClaim_def getVolume_def
  getUnstructured_def listMigrations_def createMetadata_def createUnstructured_def patchUnstructured_def
  patchMigrationStatus_def patchMetadataStatus_def deleteUnstructured_def now_def

section \<open>The calculus of guarded programs\<close>

text \<open>
  \<open>wp G p Q tr\<close>: run after the calls \<open>tr\<close>, the program makes only calls that \<open>G\<close> allows after
  the calls made so far, and what it returns satisfies \<open>Q\<close>.
\<close>

primrec wp :: "(trace \<Rightarrow> api_call \<Rightarrow> bool) \<Rightarrow> 'a prog \<Rightarrow> (trace \<Rightarrow> 'a \<Rightarrow> bool) \<Rightarrow> trace \<Rightarrow> bool" where
  "wp G (Return x) Q tr \<longleftrightarrow> Q tr x"
| "wp G (Call c k) Q tr \<longleftrightarrow> G tr c \<and> (\<forall>r. answers c r \<longrightarrow> wp G (k r) Q (tr @ [(c, r)]))"

definition guarded :: "(trace \<Rightarrow> api_call \<Rightarrow> bool) \<Rightarrow> trace \<Rightarrow> bool" where
  "guarded G tr \<longleftrightarrow> (\<forall>i<length tr. G (take i tr) (fst (tr ! i)))"

lemma wp_sound_from:
  "exec p tr x \<Longrightarrow> wp G p Q tr0 \<Longrightarrow>
     (\<forall>i<length tr. G (tr0 @ take i tr) (fst (tr ! i))) \<and> Q (tr0 @ tr) x"
proof (induction arbitrary: tr0 rule: exec.induct)
  case (exec_Call c r k tr x)
  then have "G tr0 c" and "wp G (k r) Q (tr0 @ [(c, r)])" by auto
  with exec_Call.IH [of "tr0 @ [(c, r)]"] have
    rest: "\<forall>i<length tr. G ((tr0 @ [(c, r)]) @ take i tr) (fst (tr ! i))" and Q: "Q (tr0 @ (c, r) # tr) x"
    by auto
  have "G (tr0 @ take i ((c, r) # tr)) (fst (((c, r) # tr) ! i))" if "i < length ((c, r) # tr)" for i
    using that rest \<open>G tr0 c\<close> by (cases i) auto
  with Q show ?case by blast
qed simp

lemma wp_sound: "wp G p Q [] \<Longrightarrow> exec p tr x \<Longrightarrow> guarded G tr \<and> Q tr x"
  using wp_sound_from [of p tr x G Q "[]"] by (simp add: guarded_def)

lemma guarded_nth: "guarded G tr \<Longrightarrow> tr = pre @ (c, r) # post \<Longrightarrow> G pre c"
  unfolding guarded_def by (drule spec [of _ "length pre"]) simp

lemma wp_mono:
  "wp G p Q tr \<Longrightarrow> (\<And>tr' x. Q tr' x \<Longrightarrow> Q' tr' x) \<Longrightarrow> wp G p Q' tr"
  by (induction p arbitrary: tr) auto

lemma wp_mono_guard:
  "wp G p Q tr \<Longrightarrow> (\<And>tr' c. G tr' c \<Longrightarrow> G' tr' c) \<Longrightarrow> wp G' p Q tr"
  by (induction p arbitrary: tr) auto

lemma wp_conj: "wp G p Q tr \<Longrightarrow> wp G p Q' tr \<Longrightarrow> wp G p (\<lambda>t x. Q t x \<and> Q' t x) tr"
  by (induction p arbitrary: tr) auto

lemma wp_exec:
  "wp G p Q tr \<Longrightarrow> wp G p (\<lambda>t x. Q t x \<and> (\<exists>ext. t = tr @ ext \<and> exec p ext x)) tr"
proof (induction p arbitrary: tr)
  case (Call c k)
  have "wp G (k r) (\<lambda>t x. Q t x \<and> (\<exists>ext. t = tr @ ext \<and> exec (Call c k) ext x)) (tr @ [(c, r)])"
    if "answers c r" for r
  proof -
    from Call.prems that have "wp G (k r) Q (tr @ [(c, r)])" by simp
    from Call.IH [OF _ this] show ?thesis by (rule wp_mono) (use that in auto)
  qed
  with Call.prems show ?case by simp
qed simp

text \<open>Programs that only read.\<close>

fun isRead :: "api_call \<Rightarrow> bool" where
  "isRead (GetCall _ _) = True"
| "isRead (ListMigrations _) = True"
| "isRead _ = False"

primrec callsOnly :: "(api_call \<Rightarrow> bool) \<Rightarrow> 'a prog \<Rightarrow> bool" where
  "callsOnly P (Return x) \<longleftrightarrow> True"
| "callsOnly P (Call c k) \<longleftrightarrow> P c \<and> (\<forall>r. callsOnly P (k r))"

abbreviation readsOnly :: "'a prog \<Rightarrow> bool" where
  "readsOnly \<equiv> callsOnly isRead"

lemma wp_callsOnly:
  "callsOnly P p \<Longrightarrow> (\<And>t c. P c \<Longrightarrow> G t c) \<Longrightarrow> wp G p (\<lambda>t x. \<exists>ext. t = tr @ ext \<and> exec p ext x) tr"
proof -
  assume "callsOnly P p" and G: "\<And>t c. P c \<Longrightarrow> G t c"
  then have "wp G p (\<lambda>_ _. True) tr" by (induction p arbitrary: tr) auto
  from wp_exec [OF this] show ?thesis by simp
qed

lemma callsOnly_bind: "callsOnly P p \<Longrightarrow> (\<And>x. callsOnly P (f x)) \<Longrightarrow> callsOnly P (bind_prog p f)"
  by (induction p) auto

lemma callsOnly_intros [intro]:
  "callsOnly P (ret x)" "callsOnly P (raise e)"
  "callsOnly P m \<Longrightarrow> (\<And>e. callsOnly P (h e)) \<Longrightarrow> (\<And>x. callsOnly P (k x)) \<Longrightarrow> callsOnly P (tryM m h k)"
  "callsOnly P m \<Longrightarrow> (\<And>x. callsOnly P (k x)) \<Longrightarrow> callsOnly P (andThen m k)"
  "callsOnly P k' \<Longrightarrow> callsOnly P (check r k')"
  "callsOnly P k' \<Longrightarrow> callsOnly P (require b msg k')"
  by (auto simp: ret_def raise_def andThen_def tryM_def check_def require_def
      intro!: callsOnly_bind split: go.split option.split)

lemma callsOnly_calls [simp]:
  "callsOnly P (getMigration nn) \<longleftrightarrow> P (GetCall MigrationKind nn)"
  "callsOnly P (getMetadata nn) \<longleftrightarrow> P (GetCall MetadataKind nn)"
  "callsOnly P (getStatefulSet nn) \<longleftrightarrow> P (GetCall StatefulSetKind nn)"
  "callsOnly P (getClaim nn) \<longleftrightarrow> P (GetCall ClaimKind nn)"
  "callsOnly P (getVolume nn) \<longleftrightarrow> P (GetCall VolumeKind nn)"
  "callsOnly P (getUnstructured g nn) \<longleftrightarrow> P (GetCall (UnstructuredKind g) nn)"
  "callsOnly P (listMigrations ns) \<longleftrightarrow> P (ListMigrations ns)"
  "callsOnly P now \<longleftrightarrow> P NowCall"
  by (simp_all add: getMigration_def getMetadata_def getStatefulSet_def getClaim_def getVolume_def
      getUnstructured_def listMigrations_def now_def call_def)

lemma readsOnly_calls [simp, intro]:
  "readsOnly (getMigration nn)" "readsOnly (getMetadata nn)" "readsOnly (getStatefulSet nn)"
  "readsOnly (getUnstructured g nn)" "readsOnly (listMigrations ns)"
  by simp_all

lemma wp_bind [simp]: "wp G (bind_prog p f) Q tr \<longleftrightarrow> wp G p (\<lambda>t x. wp G (f x) Q t) tr"
  by (induction p arbitrary: tr) auto

lemma wp_ret [wp_rules]: "wp G (ret x) Q tr \<longleftrightarrow> Q tr (Ok x)"
  by (simp add: ret_def)

lemma wp_raise [wp_rules]: "wp G (raise e) Q tr \<longleftrightarrow> Q tr (Err e)"
  by (simp add: raise_def)

lemma wp_Return [wp_rules]: "wp G (Return x) Q tr \<longleftrightarrow> Q tr x"
  by simp

lemma wp_check [wp_rules]:
  "wp G (check r k) Q tr \<longleftrightarrow> (case r of None \<Rightarrow> wp G k Q tr | Some e \<Rightarrow> Q tr (Err e))"
  by (simp add: check_def wp_raise split: option.split)

lemma wp_require [wp_rules]:
  "wp G (require b msg k) Q tr \<longleftrightarrow> (if b then wp G k Q tr else Q tr (Err (GoError msg)))"
  by (simp add: require_def wp_raise)

definition after :: "(trace \<Rightarrow> api_call \<Rightarrow> bool) \<Rightarrow> (goerr \<Rightarrow> 'b act) \<Rightarrow> ('a \<Rightarrow> 'b act) \<Rightarrow>
    (trace \<Rightarrow> 'b go \<Rightarrow> bool) \<Rightarrow> trace \<Rightarrow> 'a go \<Rightarrow> bool" where
  "after G h k Q tr r = (case r of Ok x \<Rightarrow> wp G (k x) Q tr | Err e \<Rightarrow> wp G (h e) Q tr | Panic \<Rightarrow> Q tr Panic)"

lemma after_simps [wp_rules]:
  "after G h k Q tr (Ok x) \<longleftrightarrow> wp G (k x) Q tr"
  "after G h k Q tr (Err e) \<longleftrightarrow> wp G (h e) Q tr"
  "after G h k Q tr Panic \<longleftrightarrow> Q tr Panic"
  by (simp_all add: after_def)

lemma wp_tryM [wp_rules]: "wp G (tryM m h k) Q tr \<longleftrightarrow> wp G m (after G h k Q) tr"
  unfolding tryM_def wp_bind
  by (rule arg_cong [where f = "\<lambda>P. wp G m P tr"]) (auto simp: after_def fun_eq_iff split: go.splits)

lemma wp_andThen [wp_rules]: "wp G (andThen m k) Q tr \<longleftrightarrow> wp G m (after G raise k Q) tr"
  by (simp add: andThen_def wp_tryM)

lemma wp_call: "wp G (call c f) Q tr \<longleftrightarrow> G tr c \<and> (\<forall>r. answers c r \<longrightarrow> Q (tr @ [(c, r)]) (f r))"
  by (simp add: call_def)

lemma all_replies: "(\<forall>r. P r) \<longleftrightarrow>
    (\<forall>e. P (Failed e)) \<and> (\<forall>obj. P (Object obj)) \<and> (\<forall>ms. P (Items ms)) \<and> P Done \<and> (\<forall>t. P (Clock t))"
  by (metis api_reply.exhaust)

lemma all_objects: "(\<forall>x. P x) \<longleftrightarrow>
    (\<forall>m. P (MigrationObj m)) \<and> (\<forall>m. P (MetadataObj m)) \<and> (\<forall>s. P (StatefulSetObj s)) \<and>
    (\<forall>c. P (ClaimObj c)) \<and> (\<forall>v. P (VolumeObj v)) \<and> (\<forall>u. P (UnstructuredObj u))"
  by (metis api_object.exhaust)

text \<open>One rule per typed call, for its two outcomes.\<close>

lemma wp_typed_calls [wp_rules]:
  "wp G (getMigration nn) Q1 tr \<longleftrightarrow> G tr (GetCall MigrationKind nn) \<and>
     (\<forall>e. Q1 (tr @ [(GetCall MigrationKind nn, Failed e)]) (Err e)) \<and>
     (\<forall>x. Q1 (tr @ [(GetCall MigrationKind nn, Object (MigrationObj x))]) (Ok x))"
  "wp G (getMetadata nn) Q2 tr \<longleftrightarrow> G tr (GetCall MetadataKind nn) \<and>
     (\<forall>e. Q2 (tr @ [(GetCall MetadataKind nn, Failed e)]) (Err e)) \<and>
     (\<forall>x. Q2 (tr @ [(GetCall MetadataKind nn, Object (MetadataObj x))]) (Ok x))"
  "wp G (getStatefulSet nn) Q3 tr \<longleftrightarrow> G tr (GetCall StatefulSetKind nn) \<and>
     (\<forall>e. Q3 (tr @ [(GetCall StatefulSetKind nn, Failed e)]) (Err e)) \<and>
     (\<forall>x. Q3 (tr @ [(GetCall StatefulSetKind nn, Object (StatefulSetObj x))]) (Ok x))"
  "wp G (getClaim nn) Q4 tr \<longleftrightarrow> G tr (GetCall ClaimKind nn) \<and>
     (\<forall>e. Q4 (tr @ [(GetCall ClaimKind nn, Failed e)]) (Err e)) \<and>
     (\<forall>x. Q4 (tr @ [(GetCall ClaimKind nn, Object (ClaimObj x))]) (Ok x))"
  "wp G (getVolume nn) Q5 tr \<longleftrightarrow> G tr (GetCall VolumeKind nn) \<and>
     (\<forall>e. Q5 (tr @ [(GetCall VolumeKind nn, Failed e)]) (Err e)) \<and>
     (\<forall>x. Q5 (tr @ [(GetCall VolumeKind nn, Object (VolumeObj x))]) (Ok x))"
  "wp G (getUnstructured g nn) Q6 tr \<longleftrightarrow> G tr (GetCall (UnstructuredKind g) nn) \<and>
     (\<forall>e. Q6 (tr @ [(GetCall (UnstructuredKind g) nn, Failed e)]) (Err e)) \<and>
     (\<forall>x. Q6 (tr @ [(GetCall (UnstructuredKind g) nn, Object (UnstructuredObj x))]) (Ok x))"
  "wp G (listMigrations ns) Q7 tr \<longleftrightarrow> G tr (ListMigrations ns) \<and>
     (\<forall>e. Q7 (tr @ [(ListMigrations ns, Failed e)]) (Err e)) \<and>
     (\<forall>x. Q7 (tr @ [(ListMigrations ns, Items x)]) (Ok x))"
  "wp G (createMetadata md) Q8 tr \<longleftrightarrow> G tr (CreateCall (MetadataObj md)) \<and>
     (\<forall>e. Q8 (tr @ [(CreateCall (MetadataObj md), Failed e)]) (Err e)) \<and>
     (\<forall>x. Q8 (tr @ [(CreateCall (MetadataObj md), Object (MetadataObj x))]) (Ok x))"
  "wp G (createUnstructured u) Q9 tr \<longleftrightarrow> G tr (CreateCall (UnstructuredObj u)) \<and>
     (\<forall>e. Q9 (tr @ [(CreateCall (UnstructuredObj u), Failed e)]) (Err e)) \<and>
     (\<forall>x. Q9 (tr @ [(CreateCall (UnstructuredObj u), Object (UnstructuredObj x))]) (Ok x))"
  "wp G now Q10 tr \<longleftrightarrow> G tr NowCall \<and> (\<forall>t. Q10 (tr @ [(NowCall, Clock t)]) (Ok t))"
  by (simp_all add: getMigration_def getMetadata_def getStatefulSet_def getClaim_def getVolume_def
      getUnstructured_def listMigrations_def createMetadata_def createUnstructured_def now_def
      wp_call all_replies all_objects)

lemma wp_typed_writes [wp_rules]:
  "wp G (patchUnstructured b u) Q tr \<longleftrightarrow>
     (let c = PatchCall (UnstructuredObj b) (UnstructuredObj u) in G tr c \<and>
     (\<forall>e. Q (tr @ [(c, Failed e)]) (Err e)) \<and> (\<forall>x. Q (tr @ [(c, Object (UnstructuredObj x))]) (Ok ())))"
  "wp G (patchMigrationStatus bm m) Q tr \<longleftrightarrow>
     (let c = StatusPatchCall (MigrationObj bm) (MigrationObj m) in G tr c \<and>
     (\<forall>e. Q (tr @ [(c, Failed e)]) (Err e)) \<and> (\<forall>x. Q (tr @ [(c, Object (MigrationObj x))]) (Ok ())))"
  "wp G (patchMetadataStatus bd d) Q tr \<longleftrightarrow>
     (let c = StatusPatchCall (MetadataObj bd) (MetadataObj d) in G tr c \<and>
     (\<forall>e. Q (tr @ [(c, Failed e)]) (Err e)) \<and> (\<forall>x. Q (tr @ [(c, Object (MetadataObj x))]) (Ok ())))"
  "wp G (deleteUnstructured u uid rv) Q tr \<longleftrightarrow>
     (let c = DeleteCall (UnstructuredObj u) uid rv in G tr c \<and>
     (\<forall>e. Q (tr @ [(c, Failed e)]) (Err e)) \<and> Q (tr @ [(c, Done)]) (Ok ()))"
  by (simp_all add: patchUnstructured_def patchMigrationStatus_def patchMetadataStatus_def
      deleteUnstructured_def wp_call all_replies all_objects Let_def)

section \<open>Controllers\<close>

text \<open>
  The contract of a reconciler: which call it may make after which calls, and what holds of
  its trace and its outcome when it returns.
\<close>

locale controller =
  fixes program :: "'request \<Rightarrow> 'a prog"
    and guard :: "'request \<Rightarrow> trace \<Rightarrow> api_call \<Rightarrow> bool"
    and post :: "'request \<Rightarrow> trace \<Rightarrow> 'a \<Rightarrow> bool"
  assumes respects: "wp (guard req) (program req) (post req) []"
begin

lemma calls_guarded: "exec (program req) tr x \<Longrightarrow> guarded (guard req) tr"
  using wp_sound [OF respects] by blast

lemma outcome: "exec (program req) tr x \<Longrightarrow> post req tr x"
  using wp_sound [OF respects] by blast

lemma call_guard: "exec (program req) (pre @ (c, r) # post') x \<Longrightarrow> guard req pre c"
  using calls_guarded guarded_nth by blast

lemma weaken:
  assumes "\<And>t c. guard req t c \<Longrightarrow> G t c" and "\<And>t x. post req t x \<Longrightarrow> Q t x"
  shows "wp G (program req) Q []"
  using respects [of req] assms by (blast intro: wp_mono wp_mono_guard)

end

end
