(* ===== verification/WorkRouting.thy ===== *)
theory WorkRouting
  imports Resources
begin

text \<open>
  \<open>internal/management/work_routing.go\<close> without its API calls: the two routing annotations on
  the manifests of a Work, and the rule that says which generation of a Work may count as
  evidence.  A manifest that is not a map makes the Go type assertion panic, which is \<open>None\<close>.
  The repair of a Work without routing, which needs the API server, is in the theory of the
  migration controller.
\<close>

section \<open>Model\<close>

definition workNameAnnotation :: string where
  "workNameAnnotation = ''work.karmada.io/name''"

definition workNamespaceAnnotation :: string where
  "workNamespaceAnnotation = ''work.karmada.io/namespace''"

lemma routing_annotations_distinct [simp]:
  "workNameAnnotation \<noteq> workNamespaceAnnotation" "workNamespaceAnnotation \<noteq> workNameAnnotation"
  by (simp_all add: workNameAnnotation_def workNamespaceAnnotation_def)

abbreviation manifestsPath :: "string list" where
  "manifestsPath \<equiv> [''spec'', ''workload'', ''manifests'']"

abbreviation annotationPath :: "string \<Rightarrow> string list" where
  "annotationPath k \<equiv> [''metadata'', ''annotations'', k]"

text \<open>The loop over the manifests with its unchecked type assertion, and the write back.\<close>

definition overManifests :: "(jobj \<Rightarrow> jobj) \<Rightarrow> jobj \<Rightarrow> jobj option" where
  "overManifests f w =
     (let manifests = sliceAt w manifestsPath
      in if list_all (\<lambda>v. obj_of v \<noteq> None) (elems manifests)
         then Some (setSlice (map_option (map (\<lambda>v. JObj (f (the (obj_of v))))) manifests) manifestsPath w)
         else None)"

definition setRoute :: "string \<Rightarrow> string \<Rightarrow> jobj \<Rightarrow> jobj" where
  "setRoute name ns obj =
     setField (JStr ns) (annotationPath workNamespaceAnnotation)
       (setField (JStr name) (annotationPath workNameAnnotation) obj)"

definition setWorkRouting :: "jobj \<Rightarrow> jobj option" where
  "setWorkRouting w = overManifests (setRoute (GetName w) (GetNamespace w)) w"

definition removeRoute :: "jobj \<Rightarrow> jobj" where
  "removeRoute obj =
     (let obj = RemoveNestedField (annotationPath workNameAnnotation) obj;
          obj = RemoveNestedField (annotationPath workNamespaceAnnotation) obj
      in case NestedMap obj [''metadata'', ''annotations''] of
           Found annotations \<Rightarrow>
             (if annotations = fmempty then RemoveNestedField [''metadata'', ''annotations''] obj else obj)
         | _ \<Rightarrow> obj)"

definition removeWorkRouting :: "jobj \<Rightarrow> jobj option" where
  "removeWorkRouting w = overManifests removeRoute w"

fun generationAllowed :: "WorkReference list \<Rightarrow> jobj \<Rightarrow> bool" where
  "generationAllowed [] w \<longleftrightarrow> GetGeneration w \<le> 1"
| "generationAllowed (ref # refs) w \<longleftrightarrow>
     (if ref_Name ref = GetName w \<and> ref_Namespace ref = GetNamespace w \<and> ref_RoutingWorkUID ref \<noteq> []
      then ref_RoutingGeneration ref = 2 \<and> ref_RoutingWorkUID ref = GetUID w \<and>
           GetGeneration w = ref_RoutingGeneration ref
      else generationAllowed refs w)"

definition workGenerationAllowed :: "jobj \<Rightarrow> PVMigration \<Rightarrow> bool" where
  "workGenerationAllowed w m \<longleftrightarrow> generationAllowed (mig_Works m) w"

section \<open>Lemmas on one manifest\<close>

text \<open>A manifest whose metadata is a map, with annotations that are a map or absent.\<close>

definition routable :: "jobj \<Rightarrow> bool" where
  "routable obj \<longleftrightarrow>
     (\<exists>md. fmlookup obj ''metadata'' = Some (JObj md) \<and>
        (fmlookup md ''annotations'' = None \<or> (\<exists>an. fmlookup md ''annotations'' = Some (JObj an))))"

definition annotationsOf :: "jobj \<Rightarrow> jobj" where
  "annotationsOf md = (case fmlookup md ''annotations'' of Some (JObj an) \<Rightarrow> an | _ \<Rightarrow> fmempty)"

lemma removeRoute_eq:
  "removeRoute obj =
     (case fmlookup obj ''metadata'' of
        Some (JObj md) \<Rightarrow>
          (case fmlookup md ''annotations'' of
             Some (JObj an) \<Rightarrow>
               (let an' = fmdrop workNamespaceAnnotation (fmdrop workNameAnnotation an)
                in fmupd ''metadata''
                     (JObj (if an' = fmempty then fmdrop ''annotations'' md
                            else fmupd ''annotations'' (JObj an') md)) obj)
           | _ \<Rightarrow> obj)
      | _ \<Rightarrow> obj)"
  by (auto simp: removeRoute_def NestedMap_def NestedField_Cons Let_def fmupd_lookup_same
      split: option.splits json.splits)

lemma setRoute_eq:
  assumes "fmlookup obj ''metadata'' = Some (JObj md)"
    and "fmlookup md ''annotations'' = None \<or> (\<exists>an. fmlookup md ''annotations'' = Some (JObj an))"
  shows "setRoute name ns obj =
     fmupd ''metadata'' (JObj (fmupd ''annotations''
        (JObj (fmupd workNamespaceAnnotation (JStr ns)
           (fmupd workNameAnnotation (JStr name) (annotationsOf md)))) md)) obj"
  using assms by (auto simp: setRoute_def setField_def annotationsOf_def)

lemma removeRoute_idem: "removeRoute (removeRoute obj) = removeRoute obj"
  by (auto simp: removeRoute_eq Let_def fmdrop_swap fmupd_lookup_same
      split: option.splits json.splits)

lemma removeRoute_setRoute: "routable obj \<Longrightarrow> removeRoute (setRoute name ns obj) = removeRoute obj"
proof -
  assume "routable obj"
  then obtain md where md: "fmlookup obj ''metadata'' = Some (JObj md)"
    and an: "fmlookup md ''annotations'' = None \<or> (\<exists>an. fmlookup md ''annotations'' = Some (JObj an))"
    by (auto simp: routable_def)
  have drop: "fmdrop workNamespaceAnnotation (fmdrop workNameAnnotation
      (fmupd workNamespaceAnnotation v (fmupd workNameAnnotation u x))) =
      fmdrop workNamespaceAnnotation (fmdrop workNameAnnotation x)" for u v x
    by (rule fmap_ext) auto
  from an show ?thesis
    by (elim disjE exE)
      (auto simp: removeRoute_eq setRoute_eq [OF md an] md annotationsOf_def Let_def drop
        fmdrop_absent fmupd_lookup_same)
qed

text \<open>Routing writes nothing but the two annotations.\<close>

lemma setRoute_other:
  assumes "forks (annotationPath workNameAnnotation) p" and "forks (annotationPath workNamespaceAnnotation) p"
  shows "NestedField (setRoute name ns obj) p = NestedField obj p"
  using assms by (simp add: setRoute_def setField_other)

lemma setRoute_reads:
  assumes "routable obj"
  shows "NestedField (setRoute name ns obj) (annotationPath workNameAnnotation) = Found (JStr name)"
    and "NestedField (setRoute name ns obj) (annotationPath workNamespaceAnnotation) = Found (JStr ns)"
  using assms by (auto simp: routable_def setRoute_eq NestedField_Cons)

section \<open>Lemmas on a Work\<close>

lemma sliceAt_setSlice:
  "sliceAt w p = Some xs \<Longrightarrow> p \<noteq> [] \<Longrightarrow> sliceAt (setSlice (Some ys) p w) p = Some ys"
  by (simp add: sliceAt_Some_iff setSlice_def slice_value_def NestedField_setField_found)

lemma overManifests_Some:
  assumes "sliceAt w manifestsPath = Some (map JObj objs)"
  shows "overManifests f w = Some (setSlice (Some (map (JObj \<circ> f) objs)) manifestsPath w)"
  using assms by (simp add: overManifests_def list_all_iff comp_def)

lemma overManifests_twice:
  assumes "sliceAt w manifestsPath = Some (map JObj objs)" and "overManifests f w = Some w'"
  shows "overManifests g w' = Some (setSlice (Some (map (JObj \<circ> g \<circ> f) objs)) manifestsPath w)"
proof -
  have w': "w' = setSlice (Some (map (JObj \<circ> f) objs)) manifestsPath w"
    using assms overManifests_Some by simp
  then have "sliceAt w' manifestsPath = Some (map JObj (map f objs))"
    using assms(1) by (simp add: sliceAt_setSlice)
  from overManifests_Some [OF this, of g] show ?thesis
    by (simp add: w' setSlice_def setField_twice comp_def)
qed

lemma overManifests_frame:
  assumes "overManifests f w = Some w'" and "forks manifestsPath p"
  shows "NestedField w' p = NestedField w p"
  using assms by (auto simp: overManifests_def Let_def setSlice_def setField_other split: if_splits)

lemma removeWorkRouting_setWorkRouting:
  assumes "sliceAt w manifestsPath = Some (map JObj objs)" and "\<forall>obj\<in>set objs. routable obj"
    and "setWorkRouting w = Some w'"
  shows "removeWorkRouting w' = removeWorkRouting w"
proof -
  have "removeWorkRouting w' =
      Some (setSlice (Some (map (JObj \<circ> removeRoute \<circ> setRoute (GetName w) (GetNamespace w)) objs))
        manifestsPath w)"
    using overManifests_twice [OF assms(1) assms(3) [unfolded setWorkRouting_def]]
    by (simp add: removeWorkRouting_def)
  moreover have "map (JObj \<circ> removeRoute \<circ> setRoute n s) objs = map (JObj \<circ> removeRoute) objs" for n s
    using assms(2) by (simp add: removeRoute_setRoute)
  ultimately show ?thesis
    using overManifests_Some [OF assms(1), of removeRoute] by (simp add: removeWorkRouting_def)
qed

lemma generationAllowed_cong:
  assumes "map ref_identity rs = map ref_identity rs'"
    and "map (\<lambda>r. (ref_RoutingWorkUID r, ref_RoutingGeneration r)) rs =
         map (\<lambda>r. (ref_RoutingWorkUID r, ref_RoutingGeneration r)) rs'"
  shows "generationAllowed rs w = generationAllowed rs' w"
  using assms
proof (induction rs arbitrary: rs')
  case (Cons r rs)
  then show ?case by (cases rs') (auto simp: ref_identity_def)
qed simp

lemma generationAllowed_bound: "generationAllowed rs w \<Longrightarrow> GetGeneration w \<le> 2"
  by (induction rs) (auto split: if_splits)

end
