(* ===== verification/StandaloneStatus.thy ===== *)
theory StandaloneStatus
  imports WorkRouting
begin

text \<open>
  The reflection checks of \<open>internal/management/standalone.go\<close>: whether the one reflected
  resource of a standalone Work is bound (\<open>standaloneStatus\<close>), and whether a PV and a PVC with
  their reflections form a reciprocal binding (\<open>pairedWorkApplied\<close>).  The Go function
  \<open>standaloneStatus\<close> returns a map and a flag; here it is \<open>Some\<close> of the map exactly where the
  flag is true.  Both functions make the same test of an identifier and of a status, which is
  stated once; they combine it with \<open>||\<close>, so the order of the disjuncts does not show.
\<close>

section \<open>Model\<close>

definition standaloneWork :: "jobj \<Rightarrow> bool" where
  "standaloneWork w \<longleftrightarrow> sget (GetLabels w) standalonePairLabel \<noteq> []"

abbreviation statusesPath :: "string list" where
  "statusesPath \<equiv> [''status'', ''manifestStatuses'']"

text \<open>\<open>got, _, err := NestedString(...)\<close> with \<open>err\<close> checked: a missing field reads as empty.\<close>

definition stringNoError :: "jobj \<Rightarrow> string list \<Rightarrow> string option" where
  "stringNoError m p =
     (case NestedString m p of Found s \<Rightarrow> Some s | Missing \<Rightarrow> Some [] | BadType \<Rightarrow> None)"

definition identifierMatches :: "jobj \<Rightarrow> jobj \<Rightarrow> bool" where
  "identifierMatches reflection obj \<longleftrightarrow>
     list_all (\<lambda>(key, want). stringNoError reflection [''identifier'', key] = Some want)
       [(''group'', ''''), (''version'', ''v1''), (''kind'', GetKind obj),
        (''name'', GetName obj), (''namespace'', GetNamespace obj)]"

definition boundStatus :: "jobj \<Rightarrow> jobj \<Rightarrow> bool" where
  "boundStatus w status \<longleftrightarrow>
     (case stringNoError status [''uid''] of None \<Rightarrow> False | Some uid \<Rightarrow> uid \<noteq> []) \<and>
     jget status ''phase'' = JStr ''Bound'' \<and>
     jget status ''deletionTimestamp'' = JNull \<and>
     sget (GetLabels w) OwnerLabel \<noteq> [] \<and>
     jget status ''migrationUID'' = JStr (sget (GetLabels w) OwnerLabel)"

text \<open>Decode both NFS sources; they must decode, name a server and a path, and be equal.\<close>

definition sameBacking :: "libraries \<Rightarrow> jobj \<Rightarrow> jobj \<Rightarrow> bool" where
  "sameBacking L nfs backing \<longleftrightarrow>
     (case (lib_NFSFromUnstructured L nfs, lib_NFSFromUnstructured L backing) of
        (Some expected, Some actual) \<Rightarrow>
          nfs_Server expected \<noteq> [] \<and> nfs_Path expected \<noteq> [] \<and> expected = actual
      | _ \<Rightarrow> False)"

definition boundVolume :: "libraries \<Rightarrow> jobj \<Rightarrow> jobj \<Rightarrow> jobj \<Rightarrow> bool" where
  "boundVolume L w obj status \<longleftrightarrow>
     (let pair = sget (GetLabels w) standalonePairLabel
      in GetName w = pair \<and> GetName obj = pair \<and> GetNamespace obj = [] \<and>
         list_all (\<lambda>key.
             let want = strAt obj [''spec'', ''claimRef'', key];
                 got = strAt status [''claimRef'', key]
             in want \<noteq> [] \<and> want = got) [''name'', ''namespace''] \<and>
         strAt status [''claimRef'', ''uid''] \<noteq> [] \<and>
         sameBacking L (mapAt obj [''spec'', ''nfs'']) (mapAt status [''nfs'']))"

definition boundClaim :: "jobj \<Rightarrow> jobj \<Rightarrow> jobj \<Rightarrow> bool" where
  "boundClaim w obj status \<longleftrightarrow>
     (let pair = sget (GetLabels w) standalonePairLabel
      in GetName w = pair @ ''-pvc'' \<and> GetNamespace obj \<noteq> [] \<and>
         strAt obj [''spec'', ''volumeName''] = pair \<and> jget status ''volumeName'' = JStr pair)"

definition standaloneStatus :: "libraries \<Rightarrow> jobj \<Rightarrow> jobj option" where
  "standaloneStatus L w =
     (case (elems (sliceAt w manifestsPath), elems (sliceAt w statusesPath)) of
        ([JObj obj], [JObj reflection]) \<Rightarrow>
          (if sget (GetLabels w) standalonePairLabel = [] \<or> GetAPIVersion obj \<noteq> ''v1'' \<or> GetName obj = []
           then None
           else if \<not> identifierMatches reflection obj then None
           else
             let status = mapAt reflection [''status'']
             in if \<not> boundStatus w status then None
                else if GetKind obj = ''PersistentVolume''
                  then (if boundVolume L w obj status then Some status else None)
                else if GetKind obj = ''PersistentVolumeClaim''
                  then (if boundClaim w obj status then Some status else None)
                else None)
      | _ \<Rightarrow> None)"

fun collectObjects :: "json list \<Rightarrow> (string, jobj) fmap \<Rightarrow> (string, jobj) fmap option" where
  "collectObjects [] objects = Some objects"
| "collectObjects (entry # rest) objects =
     (case obj_of entry of
        None \<Rightarrow> None
      | Some u \<Rightarrow>
          (if GetAPIVersion u \<noteq> ''v1'' \<or> fmlookup objects (GetKind u) \<noteq> None \<or> GetName u = []
           then None
           else collectObjects rest (fmupd (GetKind u) u objects)))"

fun collectReflections ::
  "jobj \<Rightarrow> (string, jobj) fmap \<Rightarrow> json list \<Rightarrow> (string, jobj) fmap \<Rightarrow> (string, jobj) fmap option" where
  "collectReflections w objects [] reflections = Some reflections"
| "collectReflections w objects (entry # rest) reflections =
     (case obj_of entry of
        None \<Rightarrow> None
      | Some s \<Rightarrow>
          (let kind = strAt s [''identifier'', ''kind'']
           in case fmlookup objects kind of
                None \<Rightarrow> None
              | Some obj \<Rightarrow>
                  (let status = mapAt s [''status'']
                   in if fmlookup reflections kind \<noteq> None \<or> \<not> identifierMatches s obj \<or> \<not> boundStatus w status
                      then None
                      else collectReflections w objects rest (fmupd kind status reflections))))"

text \<open>
  The last block of \<open>pairedWorkApplied\<close>: both kinds present and each side names the other.
  A field read with \<open>NestedFieldNoCopy\<close> is compared as an interface value, so an error or a
  missing field reads as nil.
\<close>

definition reciprocal :: "libraries \<Rightarrow> jobj \<Rightarrow> jobj \<Rightarrow> jobj \<Rightarrow> jobj \<Rightarrow> bool" where
  "reciprocal L pv pvc pvs pvcs \<longleftrightarrow>
     jget pvcs ''volumeName'' = JStr (GetName pv) \<and>
     list_all (\<lambda>(key, want). value_or JNull (NestedField pvs [''claimRef'', key]) = want)
       [(''name'', JStr (GetName pvc)), (''namespace'', JStr (GetNamespace pvc)), (''uid'', jget pvcs ''uid'')] \<and>
     sameBacking L (mapAt pv [''spec'', ''nfs'']) (mapAt pvs [''nfs''])"

definition pairedWorkApplied :: "libraries \<Rightarrow> jobj \<Rightarrow> json list \<Rightarrow> json list \<Rightarrow> bool" where
  "pairedWorkApplied L w manifests statuses \<longleftrightarrow>
     length statuses = 2 \<and>
     (case collectObjects manifests fmempty of
        None \<Rightarrow> False
      | Some objects \<Rightarrow>
          (case collectReflections w objects statuses fmempty of
             None \<Rightarrow> False
           | Some reflections \<Rightarrow>
               (case (fmlookup objects ''PersistentVolume'', fmlookup objects ''PersistentVolumeClaim'') of
                  (Some pv, Some pvc) \<Rightarrow>
                    (let pvs = (case fmlookup reflections ''PersistentVolume'' of None \<Rightarrow> fmempty | Some x \<Rightarrow> x);
                         pvcs = (case fmlookup reflections ''PersistentVolumeClaim'' of None \<Rightarrow> fmempty | Some x \<Rightarrow> x)
                     in reciprocal L pv pvc pvs pvcs)
                | _ \<Rightarrow> False)))"

section \<open>Lemmas\<close>

lemma stringNoError_Some:
  "s \<noteq> [] \<Longrightarrow> stringNoError m p = Some s \<longleftrightarrow> NestedField m p = Found (JStr s)"
  by (auto simp: stringNoError_def NestedString_Found_iff split: access.splits)
     (auto simp: NestedString_def)

lemma boundStatus_uid:
  assumes "boundStatus w status"
  obtains uid where "jget status ''uid'' = JStr uid" and "uid \<noteq> []" and "strAt status [''uid''] = uid"
proof -
  from assms obtain uid where uid: "stringNoError status [''uid''] = Some uid" "uid \<noteq> []"
    by (auto simp: boundStatus_def split: option.splits)
  then have "NestedField status [''uid''] = Found (JStr uid)" by (simp add: stringNoError_Some)
  then have "jget status ''uid'' = JStr uid" and "strAt status [''uid''] = uid"
    using uid by (auto simp: NestedField_Cons jget_def strAt_eq split: option.splits)
  with uid that show thesis by blast
qed

lemma identifierMatches_kind:
  "identifierMatches s obj \<Longrightarrow> GetKind obj \<noteq> [] \<Longrightarrow> strAt s [''identifier'', ''kind''] = GetKind obj"
  by (simp add: identifierMatches_def stringNoError_Some strAt_eq)

text \<open>What a standalone status stands for, as one elimination rule.\<close>

lemma standaloneStatus_cases:
  assumes "standaloneStatus L w = Some status"
  obtains obj reflection where
    "sliceAt w manifestsPath = Some [JObj obj]" "sliceAt w statusesPath = Some [JObj reflection]"
    "standaloneWork w" "GetAPIVersion obj = ''v1''" "GetName obj \<noteq> []"
    "identifierMatches reflection obj" "status = mapAt reflection [''status'']" "boundStatus w status"
    "GetKind obj = ''PersistentVolume'' \<and> boundVolume L w obj status \<or>
     GetKind obj = ''PersistentVolumeClaim'' \<and> boundClaim w obj status"
proof -
  obtain obj reflection where one:
      "elems (sliceAt w manifestsPath) = [JObj obj]" "elems (sliceAt w statusesPath) = [JObj reflection]"
    using assms by (auto simp: standaloneStatus_def split: list.splits json.splits)
  then have slices: "sliceAt w manifestsPath = Some [JObj obj]" "sliceAt w statusesPath = Some [JObj reflection]"
    by (cases "sliceAt w manifestsPath"; cases "sliceAt w statusesPath"; simp)+
  from assms one show thesis
    by (intro that [OF slices]) (auto simp: standaloneStatus_def standaloneWork_def Let_def split: if_splits)
qed

lemma standaloneStatus_bound: "standaloneStatus L w = Some status \<Longrightarrow> boundStatus w status"
  by (erule standaloneStatus_cases)

text \<open>The name of a standalone Work tells which of the two resources it carries.\<close>

lemma standaloneStatus_volume:
  assumes "standaloneStatus L w = Some status" and "GetName w = sget (GetLabels w) standalonePairLabel"
  obtains obj reflection where
    "sliceAt w manifestsPath = Some [JObj obj]" "sliceAt w statusesPath = Some [JObj reflection]"
    "GetKind obj = ''PersistentVolume''" "boundVolume L w obj status" "boundStatus w status"
    "identifierMatches reflection obj" "status = mapAt reflection [''status'']"
    "GetAPIVersion obj = ''v1''" "GetName obj \<noteq> []"
  using assms by (elim standaloneStatus_cases) (auto simp: boundClaim_def Let_def)

lemma standaloneStatus_claim:
  assumes "standaloneStatus L w = Some status"
    and "GetName w = sget (GetLabels w) standalonePairLabel @ ''-pvc''"
  obtains obj reflection where
    "sliceAt w manifestsPath = Some [JObj obj]" "sliceAt w statusesPath = Some [JObj reflection]"
    "GetKind obj = ''PersistentVolumeClaim''" "boundClaim w obj status" "boundStatus w status"
    "identifierMatches reflection obj" "status = mapAt reflection [''status'']"
    "GetAPIVersion obj = ''v1''" "GetName obj \<noteq> []"
  using assms by (elim standaloneStatus_cases) (auto simp: boundVolume_def Let_def)

text \<open>The two loops on the manifests and reflections of one PV and one PVC.\<close>

lemma pairedWorkApplied_two:
  assumes "GetKind pv = ''PersistentVolume''" and "GetKind pvc = ''PersistentVolumeClaim''"
    and "GetAPIVersion pv = ''v1''" "GetAPIVersion pvc = ''v1''" "GetName pv \<noteq> []" "GetName pvc \<noteq> []"
    and "identifierMatches s pv" "identifierMatches t pvc"
    and "boundStatus w (mapAt s [''status''])" "boundStatus w (mapAt t [''status''])"
  shows "pairedWorkApplied L w [JObj pv, JObj pvc] [JObj s, JObj t] \<longleftrightarrow>
         reciprocal L pv pvc (mapAt s [''status'']) (mapAt t [''status''])"
proof -
  have kinds: "strAt s [''identifier'', ''kind''] = ''PersistentVolume''"
      "strAt t [''identifier'', ''kind''] = ''PersistentVolumeClaim''"
    using assms identifierMatches_kind by force+
  show ?thesis
    using assms kinds by (simp add: pairedWorkApplied_def Let_def)
qed

end
