(* ===== verification/WorkEvidence.thy ===== *)
theory WorkEvidence
  imports StandaloneStatus
begin

text \<open>
  The checks on a Work read back from the API server: \<open>comparableWorkSpec\<close>, \<open>validateWork\<close> and
  \<open>workApplied\<close> of \<open>internal/management/migration.go\<close>, \<open>splitPairApplied\<close> and
  \<open>standaloneReceiptMatches\<close> of \<open>internal/management/standalone.go\<close>.
\<close>

section \<open>The comparable part of a Work\<close>

text \<open>
  Admission adds tracking keys to the metadata of embedded manifests.  The comparison drops
  them, drops a labels or annotations map that is empty then, and drops a null creation time.
  The two fields are visited in the order Go's \<open>range\<close> happens to pick; they are different
  keys of the metadata map.
\<close>

definition permanentIDLabel :: string where
  "permanentIDLabel = ''work.karmada.io/permanent-id''"

definition managedAnnotations :: string where
  "managedAnnotations = ''resourcetemplate.karmada.io/managed-annotations''"

definition managedLabels :: string where
  "managedLabels = ''resourcetemplate.karmada.io/managed-labels''"

definition dropTracking :: "string \<Rightarrow> string list \<Rightarrow> jobj \<Rightarrow> jobj" where
  "dropTracking field keys metadata =
     (case jget metadata field of
        JObj values \<Rightarrow>
          (let values = fold fmdrop keys values
           in if values = fmempty then fmdrop field metadata else fmupd field (JObj values) metadata)
      | _ \<Rightarrow> metadata)"

definition comparableMetadata :: "jobj \<Rightarrow> jobj" where
  "comparableMetadata metadata =
     (let metadata = dropTracking ''labels'' [permanentIDLabel] metadata;
          metadata = dropTracking ''annotations'' [managedAnnotations, managedLabels] metadata
      in if jget metadata ''creationTimestamp'' = JNull then fmdrop ''creationTimestamp'' metadata else metadata)"

definition comparableManifest :: "json \<Rightarrow> json" where
  "comparableManifest manifest =
     (case manifest of
        JObj obj \<Rightarrow>
          (case jget obj ''metadata'' of
             JObj metadata \<Rightarrow> JObj (fmupd ''metadata'' (JObj (comparableMetadata metadata)) obj)
           | _ \<Rightarrow> manifest)
      | _ \<Rightarrow> manifest)"

definition comparableWorkSpec :: "jobj \<Rightarrow> json" where
  "comparableWorkSpec w =
     (let copy = (case sliceAt w manifestsPath of
                    None \<Rightarrow> w
                  | Some manifests \<Rightarrow> setSlice (Some (map comparableManifest manifests)) manifestsPath w)
      in jget copy ''spec'')"

definition validateWork :: "jobj \<Rightarrow> jobj \<Rightarrow> PVMigration \<Rightarrow> goerr option" where
  "validateWork actual expected m =
     (if sget (GetLabels actual) standalonePairLabel \<noteq> sget (GetLabels expected) standalonePairLabel \<or>
         sget (GetLabels actual) OwnerLabel \<noteq> mig_UID m \<or>
         sget (GetLabels actual) ManagedLabel \<noteq> ManagerName \<or>
         comparableWorkSpec actual \<noteq> comparableWorkSpec expected
      then Some (GoError (''Work '' @ GetName actual @ '' ownership or immutable spec conflict''))
      else if \<not> workGenerationAllowed actual m
      then Some (GoError (''Work '' @ GetName actual @ '' was modified; refuse stale application evidence''))
      else None)"

section \<open>Application evidence\<close>

fun appliedCondition :: "jobj \<Rightarrow> json list \<Rightarrow> bool \<Rightarrow> bool" where
  "appliedCondition w [] applied = applied"
| "appliedCondition w (x # xs) applied =
     (case obj_of x of
        None \<Rightarrow> appliedCondition w xs applied
      | Some c \<Rightarrow>
          (if jget c ''type'' = JStr ''Applied'' \<and> jget c ''status'' = JStr ''True''
           then (case NestedInt64 c [''observedGeneration''] of
                   Found generation \<Rightarrow>
                     (if generation \<noteq> 0 \<and> generation \<noteq> GetGeneration w then False
                      else appliedCondition w xs True)
                 | _ \<Rightarrow> appliedCondition w xs True)
           else appliedCondition w xs applied))"

definition workApplied :: "libraries \<Rightarrow> jobj \<Rightarrow> bool" where
  "workApplied L w \<longleftrightarrow>
     (if \<not> IsZero (GetDeletionTimestamp L w) then False
      else if \<not> appliedCondition w (elems (sliceAt w [''status'', ''conditions''])) False then False
      else
        let statuses = elems (sliceAt w statusesPath);
            manifests = elems (sliceAt w manifestsPath)
        in if standaloneWork w then standaloneStatus L w \<noteq> None
           else if length manifests = 2 then pairedWorkApplied L w manifests statuses
           else if length statuses \<noteq> 1 \<or> length manifests \<noteq> 1 then False
           else
             (case (obj_of (hd statuses), obj_of (hd manifests)) of
                (Some s, Some manifest) \<Rightarrow>
                  (let name = strAt manifest [''metadata'', ''name''];
                       sname = strAt s [''identifier'', ''name''];
                       kind = strAt s [''identifier'', ''kind''];
                       phase = strAt s [''status'', ''phase'']
                   in name = sname \<and> kind = ''PersistentVolume'' \<and> (phase = ''Available'' \<or> phase = ''Bound''))
              | _ \<Rightarrow> False))"

text \<open>
  \<open>splitPairApplied\<close> returns the two member UIDs and a flag.  Its unchecked type assertions
  \<open>pvs["uid"].(string)\<close> would panic on a status without a string UID: \<open>None\<close>.
\<close>

definition assertString :: "json \<Rightarrow> string option" where
  "assertString v = str_of v"

definition splitPairApplied ::
  "libraries \<Rightarrow> jobj option \<Rightarrow> jobj option \<Rightarrow> (string \<times> string \<times> bool) option" where
  "splitPairApplied L pv pvc =
     (case (pv, pvc) of
        (Some pv, Some pvc) \<Rightarrow>
          (if GetNamespace pv \<noteq> GetNamespace pvc \<or>
              sget (GetLabels pv) OwnerLabel \<noteq> sget (GetLabels pvc) OwnerLabel \<or>
              sget (GetLabels pv) standalonePairLabel \<noteq> sget (GetLabels pvc) standalonePairLabel \<or>
              \<not> standaloneWork pv \<or> \<not> standaloneWork pvc \<or> \<not> workApplied L pv \<or> \<not> workApplied L pvc
           then Some ([], [], False)
           else
             let manifests = elems (sliceAt pv manifestsPath) @ elems (sliceAt pvc manifestsPath);
                 statuses = elems (sliceAt pv statusesPath) @ elems (sliceAt pvc statusesPath)
             in if \<not> pairedWorkApplied L pv manifests statuses then Some ([], [], False)
                else
                  let pvs = (case standaloneStatus L pv of None \<Rightarrow> fmempty | Some s \<Rightarrow> s);
                      pvcs = (case standaloneStatus L pvc of None \<Rightarrow> fmempty | Some s \<Rightarrow> s)
                  in (case (assertString (jget pvs ''uid''), assertString (jget pvcs ''uid'')) of
                        (Some pvUID, Some pvcUID) \<Rightarrow> Some (pvUID, pvcUID, True)
                      | _ \<Rightarrow> None))
      | _ \<Rightarrow> Some ([], [], False))"

definition standaloneReceiptMatches :: "libraries \<Rightarrow> jobj \<Rightarrow> WorkReference \<Rightarrow> bool" where
  "standaloneReceiptMatches L w ref \<longleftrightarrow>
     (case standaloneStatus L w of
        None \<Rightarrow> False
      | Some status \<Rightarrow>
          (if ref_PVUID ref = [] \<or> ref_PVCUID ref = [] then False
           else if GetName w = sget (GetLabels w) standalonePairLabel
             then jget status ''uid'' = JStr (ref_PVUID ref) \<and>
                  strAt status [''claimRef'', ''uid''] = ref_PVCUID ref
           else jget status ''uid'' = JStr (ref_PVCUID ref)))"

section \<open>Lemmas on the comparison\<close>

lemma comparableWorkSpec_frame:
  assumes "\<And>p. NestedField w (''spec'' # p) = NestedField w' (''spec'' # p)"
  shows "comparableWorkSpec w = comparableWorkSpec w'"
proof -
  have spec: "fmlookup w ''spec'' = fmlookup w' ''spec''"
    using assms [of "[]"] by (auto simp: NestedField_Cons split: option.splits)
  have "sliceAt w manifestsPath = sliceAt w' manifestsPath"
    using spec by (simp add: sliceAt_def NestedSlice_def NestedField_Cons)
  moreover have "jget (setSlice xs manifestsPath w) ''spec'' = jget (setSlice xs manifestsPath w') ''spec''" for xs
    using spec by (auto simp: setSlice_def setField_def jget_def split: option.splits json.splits)
  moreover have "jget w ''spec'' = jget w' ''spec''" using spec by (simp add: jget_def)
  ultimately show ?thesis by (simp add: comparableWorkSpec_def split: option.splits)
qed

lemma validateWork_None_iff:
  "validateWork actual expected m = None \<longleftrightarrow>
     sget (GetLabels actual) standalonePairLabel = sget (GetLabels expected) standalonePairLabel \<and>
     sget (GetLabels actual) OwnerLabel = mig_UID m \<and>
     sget (GetLabels actual) ManagedLabel = ManagerName \<and>
     comparableWorkSpec actual = comparableWorkSpec expected \<and>
     workGenerationAllowed actual m"
  by (auto simp: validateWork_def)

section \<open>Lemmas on the evidence\<close>

text \<open>The loop on the conditions accepts when some Applied condition is true and none is stale.\<close>

definition appliedTrue :: "jobj \<Rightarrow> bool" where
  "appliedTrue c \<longleftrightarrow> jget c ''type'' = JStr ''Applied'' \<and> jget c ''status'' = JStr ''True''"

definition staleCondition :: "jobj \<Rightarrow> jobj \<Rightarrow> bool" where
  "staleCondition w c \<longleftrightarrow>
     (\<exists>g. NestedInt64 c [''observedGeneration''] = Found g \<and> g \<noteq> 0 \<and> g \<noteq> GetGeneration w)"

lemma appliedCondition_iff:
  "appliedCondition w xs applied \<longleftrightarrow>
     (applied \<or> (\<exists>c. JObj c \<in> set xs \<and> appliedTrue c)) \<and>
     (\<forall>c. JObj c \<in> set xs \<longrightarrow> appliedTrue c \<longrightarrow> \<not> staleCondition w c)"
proof (induction xs arbitrary: applied)
  case Nil
  then show ?case by simp
next
  case (Cons x xs)
  show ?case
  proof (cases "obj_of x")
    case None
    then have "\<And>c. JObj c \<noteq> x" by (metis obj_of_None_iff)
    with None Cons show ?thesis by auto
  next
    case (Some c)
    then have "x = JObj c" by simp
    with Cons show ?thesis
      by (auto simp: appliedTrue_def staleCondition_def split: access.splits)
  qed
qed

lemma workApplied_conditions:
  assumes "workApplied L w"
  shows "GetDeletionTimestamp L w = None"
    and "\<exists>c. JObj c \<in> set (elems (sliceAt w [''status'', ''conditions''])) \<and> appliedTrue c \<and>
             \<not> staleCondition w c"
  using assms
  by (auto simp: workApplied_def GetDeletionTimestamp_IsZero appliedCondition_iff split: if_splits)

lemma workApplied_standalone:
  "workApplied L w \<Longrightarrow> standaloneWork w \<Longrightarrow> \<exists>status. standaloneStatus L w = Some status"
  by (auto simp: workApplied_def Let_def split: if_splits)

lemma splitPairApplied_no_panic: "splitPairApplied L pv pvc \<noteq> None"
proof (cases "\<exists>x y. pv = Some x \<and> pvc = Some y \<and> standaloneWork x \<and> standaloneWork y \<and>
                 workApplied L x \<and> workApplied L y")
  case True
  then obtain x y where xy: "pv = Some x" "pvc = Some y" "standaloneWork x" "standaloneWork y"
      "workApplied L x" "workApplied L y" by blast
  then obtain sx sy where st: "standaloneStatus L x = Some sx" "standaloneStatus L y = Some sy"
    using workApplied_standalone by blast
  then obtain u v where "jget sx ''uid'' = JStr u" "jget sy ''uid'' = JStr v"
    by (meson boundStatus_uid standaloneStatus_bound)
  with xy st show ?thesis by (auto simp: splitPairApplied_def assertString_def Let_def)
next
  case False
  then show ?thesis by (auto simp: splitPairApplied_def split: option.splits)
qed

lemma splitPairApplied_ready:
  assumes "splitPairApplied L pv pvc = Some (u, v, True)"
  obtains x y sx sy where
    "pv = Some x" "pvc = Some y" "GetNamespace x = GetNamespace y"
    "sget (GetLabels x) OwnerLabel = sget (GetLabels y) OwnerLabel"
    "sget (GetLabels x) standalonePairLabel = sget (GetLabels y) standalonePairLabel"
    "standaloneWork x" "standaloneWork y" "workApplied L x" "workApplied L y"
    "standaloneStatus L x = Some sx" "standaloneStatus L y = Some sy"
    "jget sx ''uid'' = JStr u" "jget sy ''uid'' = JStr v"
    "pairedWorkApplied L x (elems (sliceAt x manifestsPath) @ elems (sliceAt y manifestsPath))
       (elems (sliceAt x statusesPath) @ elems (sliceAt y statusesPath))"
proof -
  from assms obtain x y where xy: "pv = Some x" "pvc = Some y"
    by (auto simp: splitPairApplied_def split: option.splits)
  with assms have props: "standaloneWork x" "standaloneWork y" "workApplied L x" "workApplied L y"
    by (auto simp: splitPairApplied_def split: if_splits)
  then obtain sx sy where st: "standaloneStatus L x = Some sx" "standaloneStatus L y = Some sy"
    using workApplied_standalone by blast
  from assms xy st show thesis
    by (intro that [OF xy _ _ _ props st])
      (auto simp: splitPairApplied_def assertString_def Let_def split: if_splits option.splits)
qed

end
