(* ===== verification/BuildWorks.thy ===== *)
theory BuildWorks
  imports WorkEvidence
begin

text \<open>
  The plan of a migration: \<open>validOrdinalPVC\<close> and \<open>BuildWorks\<close> of
  \<open>internal/management/migration.go\<close> and \<open>standaloneClaim\<close> of
  \<open>internal/management/standalone.go\<close>.  The loop over the requested mappings is
  \<open>buildMappings\<close>; one round of it is split where the Go text has its blocks: the checks on
  the mapping (\<open>checkMapping\<close>), the sanitised volume spec (\<open>retainedSpec\<close>), and the one or
  two Works (\<open>mappingWorks\<close>).  The Go maps \<open>seenSource\<close>, \<open>seenTarget\<close> and
  \<open>sourceOrdinalByTarget\<close> are the accumulator.
\<close>

section \<open>Claim names\<close>

text \<open>
  The Go loop ranges over runes; a byte outside ASCII decodes to a rune outside the digits, so
  testing bytes gives the same answer.
\<close>

definition validOrdinalPVC :: "libraries \<Rightarrow> string \<Rightarrow> string \<Rightarrow> bool" where
  "validOrdinalPVC L name prefix \<longleftrightarrow>
     (if length name \<le> length prefix \<or> take (length prefix) name \<noteq> prefix then False
      else
        let suffix = drop (length prefix) name
        in if length suffix > 1 \<and> hd suffix = CHR ''0'' then False
           else if \<not> list_all isDigit suffix then False
           else length (lib_IsDNS1123Subdomain L name) = 0)"

section \<open>The claim of a standalone volume\<close>

definition quantityOf :: "(string, quantity) fmap \<Rightarrow> string \<Rightarrow> quantity" where
  "quantityOf m k = (case fmlookup m k of None \<Rightarrow> 0 | Some q \<Rightarrow> q)"

definition volumeMode :: "string option \<Rightarrow> string" where
  "volumeMode mode = (case mode of None \<Rightarrow> ''Filesystem'' | Some x \<Rightarrow> x)"

definition managedLabelsOf :: "PVMigration \<Rightarrow> (string, string) fmap" where
  "managedLabelsOf m =
     fmupd ''karmada.io/managed'' ''true'' (fmupd OwnerLabel (mig_UID m) (fmupd ManagedLabel ManagerName fmempty))"

definition encoded :: "jobj go \<Rightarrow> jobj go" where
  "encoded r = (case r of Ok manifest \<Rightarrow> Ok (fmdrop ''status'' manifest) | Err e \<Rightarrow> Err e | Panic \<Rightarrow> Panic)"

text \<open>The typed claim that is encoded, once every check has passed.\<close>

definition targetClaim :: "PVMigration \<Rightarrow> VolumeMetadata \<Rightarrow> PersistentVolumeClaimSpec \<Rightarrow> string \<Rightarrow> string \<Rightarrow> PersistentVolumeClaim" where
  "targetClaim m v spec class pvName =
     \<lparr> pvc_APIVersion = ''v1'', pvc_Kind = ''PersistentVolumeClaim'',
       pvc_meta = emptyMeta\<lparr> om_Name := vm_PVCName v, om_Namespace := mig_Namespace m, om_Labels := managedLabelsOf m \<rparr>,
       pvc_Spec = spec\<lparr> pcs_StorageClassName := Some class, pcs_VolumeName := pvName \<rparr>,
       pvc_Phase = [] \<rparr>"

definition standaloneClaim :: "libraries \<Rightarrow> PVMigration \<Rightarrow> VolumeMetadata \<Rightarrow> string \<Rightarrow> jobj go" where
  "standaloneClaim L m v pvName =
     (case vm_PVCSpec v of
        None \<Rightarrow> Panic
      | Some spec \<Rightarrow>
          (if pcs_VolumeName spec \<noteq> vm_PVName v \<or> vm_PVName v = [] \<or> pcs_Selector spec \<noteq> None \<or>
              pcs_DataSource spec \<noteq> None \<or> pcs_DataSourceRef spec \<noteq> None \<or>
              pcs_VolumeAttributesClassName spec \<noteq> None
           then fail (''standalone PVC '' @ vm_PVCName v @
                  '' has mismatched source PV or unsupported selector/data source/attributes'')
           else
             let storage = quantityOf (pcs_Requests spec) ''storage'';
                 capacity = quantityOf (pvsp_Capacity (vm_PVSpec v)) ''storage''
             in if storage \<le> 0 \<or> storage > capacity \<or> pcs_AccessModes spec = []
                then fail (''standalone PVC '' @ vm_PVCName v @ '' has invalid capacity or access modes'')
                else if \<not> list_all (\<lambda>mode. mode \<in> set (pvsp_AccessModes (vm_PVSpec v))) (pcs_AccessModes spec)
                then fail ''standalone PVC access mode is incompatible with source PV''
                else if volumeMode (pcs_VolumeMode spec) \<noteq> volumeMode (pvsp_VolumeMode (vm_PVSpec v)) \<or>
                        volumeMode (pcs_VolumeMode spec) \<noteq> ''Filesystem''
                then fail ''standalone NFS PVC requires matching filesystem volume mode''
                else
                  let class = (case pcs_StorageClassName spec of None \<Rightarrow> [] | Some c \<Rightarrow> c)
                  in if class \<noteq> pvsp_StorageClassName (vm_PVSpec v)
                     then fail ''standalone PVC storage class differs from source PV''
                     else encoded (lib_PVCToUnstructured L (targetClaim m v spec class pvName))))"

section \<open>Source snapshot\<close>

fun findSnapshot :: "string \<Rightarrow> ClusterSnapshot list \<Rightarrow> ClusterSnapshot option \<Rightarrow> ClusterSnapshot option go" where
  "findSnapshot src [] found = Ok found"
| "findSnapshot src (c # cs) found =
     (if cs_ClusterName c = src
      then (if found \<noteq> None then fail ''duplicate source snapshot'' else findSnapshot src cs (Some c))
      else findSnapshot src cs found)"

fun indexVolumes :: "VolumeMetadata list \<Rightarrow> (string, VolumeMetadata) fmap \<Rightarrow> (string, VolumeMetadata) fmap go" where
  "indexVolumes [] volumes = Ok volumes"
| "indexVolumes (v # vs) volumes =
     (if fmlookup volumes (vm_PVCName v) \<noteq> None
      then fail (''duplicate snapshot PVC '' @ vm_PVCName v)
      else indexVolumes vs (fmupd (vm_PVCName v) v volumes))"

definition snapshotUsable :: "PVMetadata \<Rightarrow> ClusterSnapshot \<Rightarrow> bool" where
  "snapshotUsable md c \<longleftrightarrow>
     \<not> (cs_CollectedAt c = None \<or> cs_ObservedGeneration c \<noteq> om_Generation (md_meta md) \<or> cs_WorkloadUID c = [])"

section \<open>One mapping\<close>

record planAcc =
  acc_seenSource :: "string list"
  acc_seenTarget :: "string list"
  acc_ordinals :: "(string, int32) fmap"

definition emptyAcc :: planAcc where
  "emptyAcc = \<lparr> acc_seenSource = [], acc_seenTarget = [], acc_ordinals = fmempty \<rparr>"

definition claimPrefix :: "PVMetadata \<Rightarrow> VolumeMetadata \<Rightarrow> string" where
  "claimPrefix md v = vm_TemplateName v @ ''-'' @ wr_Name (mds_WorkloadRef (md_Spec md)) @ ''-''"

definition checkMapping ::
  "libraries \<Rightarrow> PVMetadata \<Rightarrow> (string, VolumeMetadata) fmap \<Rightarrow> VolumeMapping \<Rightarrow> planAcc \<Rightarrow> (VolumeMetadata \<times> planAcc) go" where
  "checkMapping L md volumes mapping acc =
     (if vmap_SourcePVC mapping \<in> set (acc_seenSource acc) \<or> vmap_TargetPVC mapping \<in> set (acc_seenTarget acc)
      then fail ''PVC mapping must be one-to-one''
      else
        let acc = acc\<lparr> acc_seenSource := vmap_SourcePVC mapping # acc_seenSource acc,
                       acc_seenTarget := vmap_TargetPVC mapping # acc_seenTarget acc \<rparr>
        in case fmlookup volumes (vmap_SourcePVC mapping) of
             None \<Rightarrow> fail (''source PVC '' @ vmap_SourcePVC mapping @ '' not present in snapshot'')
           | Some v \<Rightarrow>
               go_bind
                 (if vm_Standalone v
                  then (if vm_TemplateName v \<noteq> [] \<or> vm_PVCSpec v = None \<or> vmap_SourcePVC mapping \<noteq> vmap_TargetPVC mapping
                        then fail ''standalone PVC requires source spec and identical source/target names''
                        else Ok acc)
                  else
                    if vm_TemplateName v = [] \<or> \<not> validOrdinalPVC L (vmap_TargetPVC mapping) (claimPrefix md v)
                    then fail ''source and target PVC must use the same claim template''
                    else
                      let targetOrdinal = TrimPrefix (vmap_TargetPVC mapping) (claimPrefix md v)
                      in case fmlookup (acc_ordinals acc) targetOrdinal of
                           Some prior \<Rightarrow>
                             (if prior \<noteq> vm_Ordinal v
                              then fail ''all volumes for a target ordinal must come from one source ordinal''
                              else Ok (acc\<lparr> acc_ordinals := fmupd targetOrdinal (vm_Ordinal v) (acc_ordinals acc) \<rparr>))
                         | None \<Rightarrow> Ok (acc\<lparr> acc_ordinals := fmupd targetOrdinal (vm_Ordinal v) (acc_ordinals acc) \<rparr>))
                 (\<lambda>acc. if length (lib_IsDNS1123Subdomain L (vmap_TargetPVC mapping)) > 0
                        then fail ''invalid target PVC name'' else Ok (v, acc)))"

text \<open>
  The spec that leaves the source cluster: only the NFS source, \<open>Retain\<close>, and a claim
  reference to the target claim without a UID.
\<close>

definition retainedSpec :: "PVMigration \<Rightarrow> VolumeMetadata \<Rightarrow> VolumeMapping \<Rightarrow> PersistentVolumeSpec go" where
  "retainedSpec m v mapping =
     (let spec = vm_PVSpec v
      in case pvs_NFS (pvsp_Source spec) of
           None \<Rightarrow> fail (''PVC '' @ vm_PVCName v @ '' requires portable NFS without node affinity; CSI/EBS/local sources are unsupported'')
         | Some nfs \<Rightarrow>
             (if nfs_Server nfs = [] \<or> nfs_Path nfs = [] \<or> pvsp_NodeAffinity spec \<noteq> None
              then fail (''PVC '' @ vm_PVCName v @ '' requires portable NFS without node affinity; CSI/EBS/local sources are unsupported'')
              else case pvsp_ClaimRef spec of
                None \<Rightarrow> fail ''source PV/PVC binding identity mismatch''
              | Some ref \<Rightarrow>
                  (if or_Namespace ref \<noteq> mig_Namespace m \<or> or_Name ref \<noteq> vm_PVCName v \<or>
                      or_UID ref \<noteq> vm_PVCUID v \<or> vm_PVCUID v = []
                   then fail ''source PV/PVC binding identity mismatch''
                   else if pvsp_Source spec \<noteq> \<lparr> pvs_NFS = Some nfs, pvs_others = fmempty \<rparr>
                   then fail ''ambiguous PV volume sources''
                   else Ok (spec\<lparr> pvsp_Source := \<lparr> pvs_NFS = Some nfs, pvs_others = fmempty \<rparr>,
                                  pvsp_ReclaimPolicy := ''Retain'',
                                  pvsp_ClaimRef := Some \<lparr> or_APIVersion = ''v1'', or_Kind = ''PersistentVolumeClaim'',
                                    or_Namespace = mig_Namespace m, or_Name = vmap_TargetPVC mapping,
                                    or_UID = [], or_others = fmempty \<rparr> \<rparr>))))"

definition executionNamespace :: "PVMigration \<Rightarrow> string" where
  "executionNamespace m = ''karmada-es-'' @ ms_TargetCluster (mig_Spec m)"

definition volumeParts :: "PVMigration \<Rightarrow> PVMetadata \<Rightarrow> VolumeMapping \<Rightarrow> string list" where
  "volumeParts m md mapping =
     [wr_UID (mds_WorkloadRef (md_Spec md)), ms_TargetCluster (mig_Spec m), mig_Namespace m, vmap_TargetPVC mapping]"

definition volumeName :: "libraries \<Rightarrow> PVMigration \<Rightarrow> PVMetadata \<Rightarrow> VolumeMapping \<Rightarrow> string" where
  "volumeName L m md mapping = stableName L ''pvm'' (volumeParts m md mapping)"

definition targetVolume :: "PVMigration \<Rightarrow> PersistentVolumeSpec \<Rightarrow> string \<Rightarrow> PersistentVolume" where
  "targetVolume m spec pvName =
     \<lparr> pv_APIVersion = ''v1'', pv_Kind = ''PersistentVolume'',
       pv_meta = emptyMeta\<lparr> om_Name := pvName, om_Labels := managedLabelsOf m \<rparr>,
       pv_Spec = spec, pv_Phase = [] \<rparr>"

definition workLabels :: "PVMigration \<Rightarrow> VolumeMetadata \<Rightarrow> string \<Rightarrow> (string, string) fmap" where
  "workLabels m v pvName =
     (let labels = fmupd OwnerLabel (mig_UID m) (fmupd ManagedLabel ManagerName fmempty)
      in if vm_Standalone v then fmupd standalonePairLabel pvName labels else labels)"

definition workSpec :: "jobj \<Rightarrow> json" where
  "workSpec resource =
     JObj (fmupd ''preserveResourcesOnDeletion'' (JBool True)
       (fmupd ''workload'' (JObj (fmupd ''manifests'' (JArr [JObj resource]) fmempty)) fmempty))"

definition workName :: "nat \<Rightarrow> string \<Rightarrow> string" where
  "workName index pvName = (if index = 1 then pvName @ ''-pvc'' else pvName)"

text \<open>A Work before and after \<open>setWorkRouting\<close>.\<close>

definition unroutedWork :: "PVMigration \<Rightarrow> VolumeMetadata \<Rightarrow> string \<Rightarrow> nat \<Rightarrow> jobj \<Rightarrow> jobj" where
  "unroutedWork m v pvName index resource =
     fmupd ''spec'' (workSpec resource)
       (SetLabels (workLabels m v pvName) (object WorkGVK (executionNamespace m) (workName index pvName)))"

fun worksOf :: "PVMigration \<Rightarrow> VolumeMetadata \<Rightarrow> string \<Rightarrow> nat \<Rightarrow> jobj list \<Rightarrow> jobj list go" where
  "worksOf m v pvName index [] = Ok []"
| "worksOf m v pvName index (resource # rest) =
     go_bind (of_option (setWorkRouting (unroutedWork m v pvName index resource)))
       (\<lambda>w. go_bind (worksOf m v pvName (Suc index) rest) (\<lambda>ws. Ok (w # ws)))"

definition mappingManifests ::
  "libraries \<Rightarrow> PVMigration \<Rightarrow> VolumeMetadata \<Rightarrow> PersistentVolumeSpec \<Rightarrow> string \<Rightarrow> jobj list go" where
  "mappingManifests L m v spec pvName =
     go_bind (encoded (lib_PVToUnstructured L (targetVolume m spec pvName)))
       (\<lambda>manifest.
          if vm_Standalone v
          then go_bind (standaloneClaim L m v pvName) (\<lambda>claim. Ok [manifest, claim])
          else Ok [manifest])"

definition mappingWorks ::
  "libraries \<Rightarrow> PVMigration \<Rightarrow> PVMetadata \<Rightarrow> VolumeMetadata \<Rightarrow> VolumeMapping \<Rightarrow> jobj list go" where
  "mappingWorks L m md v mapping =
     go_bind (retainedSpec m v mapping)
       (\<lambda>spec. go_bind (mappingManifests L m v spec (volumeName L m md mapping))
          (\<lambda>manifests. worksOf m v (volumeName L m md mapping) 0 manifests))"

section \<open>The plan\<close>

fun buildMappings ::
  "libraries \<Rightarrow> PVMigration \<Rightarrow> PVMetadata \<Rightarrow> (string, VolumeMetadata) fmap \<Rightarrow> VolumeMapping list \<Rightarrow> planAcc \<Rightarrow>
   jobj list \<Rightarrow> jobj list go" where
  "buildMappings L m md volumes [] acc works = Ok works"
| "buildMappings L m md volumes (mapping # rest) acc works =
     go_bind (checkMapping L md volumes mapping acc)
       (\<lambda>(v, acc). go_bind (mappingWorks L m md v mapping)
          (\<lambda>ws. buildMappings L m md volumes rest acc (works @ ws)))"

definition BuildWorks :: "libraries \<Rightarrow> PVMigration \<Rightarrow> PVMetadata \<Rightarrow> jobj list go" where
  "BuildWorks L m md =
     (if ms_Volumes (mig_Spec m) = [] then fail ''at least one explicit PVC mapping is required''
      else if length (lib_IsDNS1123Subdomain L (ms_TargetCluster (mig_Spec m))) > 0 \<or>
              length (executionNamespace m) > 63
      then fail ''invalid target execution namespace''
      else
        go_bind (findSnapshot (ms_SourceCluster (mig_Spec m)) (mdst_Clusters (md_Status md)) None)
          (\<lambda>found. case found of
             None \<Rightarrow> fail ''no matching collected source snapshot; wait for ResourceInterpreterCustomization aggregation''
           | Some snapshot \<Rightarrow>
               (if \<not> snapshotUsable md snapshot
                then fail ''no matching collected source snapshot; wait for ResourceInterpreterCustomization aggregation''
                else
                  go_bind (indexVolumes (cs_Volumes snapshot) fmempty)
                    (\<lambda>volumes. buildMappings L m md volumes (ms_Volumes (mig_Spec m)) emptyAcc []))))"

end
