(* ===== verification/VolumeClaims.thy ===== *)
theory VolumeClaims
  imports Libraries
begin

text \<open>
  \<open>internal/volumeclaims/standalone.go\<close>: which claims of a StatefulSet are standalone, that
  is, referenced by the pod template or injected by the checkpoint annotation, and not made
  from a claim template.  The Go map \<open>claims\<close> is the list of its keys in insertion order; the
  final \<open>range\<close> over it visits the keys in the order \<open>lib_RangeOrder\<close> picks, and the sort
  makes the result independent of it.
\<close>

section \<open>Model\<close>

definition stsReplicas :: "StatefulSet \<Rightarrow> int32" where
  "stsReplicas sts = (case sts_Replicas sts of None \<Rightarrow> 1 | Some r \<Rightarrow> r)"

definition stsStart :: "StatefulSet \<Rightarrow> int32" where
  "stsStart sts = (case sts_OrdinalsStart sts of None \<Rightarrow> 0 | Some s \<Rightarrow> s)"

text \<open>\<open>fmt.Sprintf("%s-%s-%d", template, sts, ordinal)\<close>\<close>

definition claimName :: "string \<Rightarrow> string \<Rightarrow> int \<Rightarrow> string" where
  "claimName template sts i = template @ ''-'' @ sts @ ''-'' @ showInt i"

definition addKey :: "string \<Rightarrow> string list \<Rightarrow> string list" where
  "addKey c cs = (if c \<in> set cs then cs else cs @ [c])"

fun addVolumes :: "string list \<Rightarrow> PodVolume list \<Rightarrow> string list \<Rightarrow> string list" where
  "addVolumes templates [] claims = claims"
| "addVolumes templates (v # vs) claims =
     (if vol_Name v \<notin> set templates \<and> vol_ClaimName v \<noteq> None \<and> vol_ClaimName v \<noteq> Some []
      then addVolumes templates vs (addKey (the (vol_ClaimName v)) claims)
      else addVolumes templates vs claims)"

text \<open>
  \<open>for offset := int32(0); offset < replicas; offset++\<close>: the sum of the two \<open>int32\<close> values
  is taken in \<open>int64\<close>, where it cannot overflow.
\<close>

definition generatedClaims :: "StatefulSet \<Rightarrow> string \<Rightarrow> string list" where
  "generatedClaims sts template =
     map (\<lambda>offset. claimName template (om_Name (sts_meta sts)) (sint (stsStart sts) + offset))
       [0..sint (stsReplicas sts) - 1]"

fun deleteGenerated :: "StatefulSet \<Rightarrow> string list \<Rightarrow> string list \<Rightarrow> string list" where
  "deleteGenerated sts [] claims = claims"
| "deleteGenerated sts (t # ts) claims =
     deleteGenerated sts ts (foldl (\<lambda>cs g. filter (\<lambda>c. c \<noteq> g) cs) claims (generatedClaims sts t))"

definition checkpointClaimAnnotation :: string where
  "checkpointClaimAnnotation = ''fluidcr.dcnlab.com/checkpoint-claim''"

definition Standalone :: "libraries \<Rightarrow> StatefulSet \<Rightarrow> string list" where
  "Standalone L sts =
     (let templates = sts_VolumeClaimTemplates sts;
          claims = addVolumes templates (sts_Volumes sts) [];
          name = sget (sts_TemplateAnnotations sts) checkpointClaimAnnotation;
          claims = (if name \<noteq> [] then addKey name claims else claims);
          claims = deleteGenerated sts templates claims
      in sort (lib_RangeOrder L claims))"

section \<open>Lemmas\<close>

lemma set_addKey [simp]: "set (addKey c cs) = insert c (set cs)"
  by (auto simp: addKey_def)

lemma distinct_addKey [simp]: "distinct cs \<Longrightarrow> distinct (addKey c cs)"
  by (simp add: addKey_def)

lemma set_addVolumes:
  "set (addVolumes ts vs cs) =
     set cs \<union> {c. c \<noteq> [] \<and> (\<exists>v\<in>set vs. vol_Name v \<notin> set ts \<and> vol_ClaimName v = Some c)}"
  by (induction vs arbitrary: cs) auto

lemma distinct_addVolumes: "distinct cs \<Longrightarrow> distinct (addVolumes ts vs cs)"
  by (induction vs arbitrary: cs) auto

lemma foldl_filter_neq:
  "foldl (\<lambda>cs g. filter (\<lambda>c. c \<noteq> g) cs) cs gs = filter (\<lambda>c. c \<notin> set gs) cs"
  by (induction gs arbitrary: cs) (auto intro: filter_cong)

lemma deleteGenerated_eq:
  "deleteGenerated sts ts cs = filter (\<lambda>c. \<forall>t\<in>set ts. c \<notin> set (generatedClaims sts t)) cs"
  by (induction ts arbitrary: cs) (auto simp: foldl_filter_neq intro: filter_cong)

lemma set_generatedClaims:
  "c \<in> set (generatedClaims sts t) \<longleftrightarrow>
     (\<exists>k. 0 \<le> k \<and> k < sint (stsReplicas sts) \<and>
          c = claimName t (om_Name (sts_meta sts)) (sint (stsStart sts) + k))"
  by (auto simp: generatedClaims_def image_iff)

text \<open>The specification: the claims named from outside the claim templates, less the aliases.\<close>

definition referencedClaims :: "StatefulSet \<Rightarrow> string set" where
  "referencedClaims sts =
     {c. c \<noteq> [] \<and>
        ((\<exists>v\<in>set (sts_Volumes sts). vol_Name v \<notin> set (sts_VolumeClaimTemplates sts) \<and>
             vol_ClaimName v = Some c)
         \<or> sget (sts_TemplateAnnotations sts) checkpointClaimAnnotation = c)}"

definition templateClaims :: "StatefulSet \<Rightarrow> string set" where
  "templateClaims sts =
     {c. \<exists>t\<in>set (sts_VolumeClaimTemplates sts). \<exists>k. 0 \<le> k \<and> k < sint (stsReplicas sts) \<and>
        c = claimName t (om_Name (sts_meta sts)) (sint (stsStart sts) + k)}"

lemma Standalone_unsorted:
  assumes perm: "\<And>ks. mset (lib_RangeOrder L ks) = mset ks"
  shows "\<exists>cs. distinct cs \<and> set cs = referencedClaims sts - templateClaims sts \<and>
              Standalone L sts = sort cs"
proof -
  let ?ts = "sts_VolumeClaimTemplates sts"
  let ?name = "sget (sts_TemplateAnnotations sts) checkpointClaimAnnotation"
  let ?cs0 = "addVolumes ?ts (sts_Volumes sts) []"
  let ?cs1 = "if ?name \<noteq> [] then addKey ?name ?cs0 else ?cs0"
  let ?cs = "deleteGenerated sts ?ts ?cs1"
  have "distinct ?cs"
    by (simp add: deleteGenerated_eq distinct_addVolumes)
  moreover have "set ?cs = referencedClaims sts - templateClaims sts"
    by (auto simp: deleteGenerated_eq set_addVolumes referencedClaims_def templateClaims_def
        set_generatedClaims)
  moreover have "Standalone L sts = sort ?cs"
    unfolding Standalone_def Let_def
    by (rule properties_for_sort) (simp_all add: perm)
  ultimately show ?thesis by blast
qed

end
