(* ===== verification/Binding.thy ===== *)
theory Binding
  imports Client BuildWorks VolumeClaims "HOL-Library.AList"
begin

text \<open>
  \<open>validateBinding\<close> and \<open>validateSelectedTargetHold\<close> of \<open>internal/management/migration.go\<close>: the
  gate a request passes before anything is planned.  The Go function mixes pure checks with
  four reads; each block between two reads is a definition of its own here, and the order of
  the blocks is the order of the Go text.
\<close>

section \<open>Checks without a read\<close>

definition requestCheck :: "PVMigration \<Rightarrow> PVMetadata \<Rightarrow> goerr option" where
  "requestCheck m md =
     (let src = ms_SourceCluster (mig_Spec m); dst = ms_TargetCluster (mig_Spec m)
      in if \<not> ms_SourceFenced (mig_Spec m)
         then Some (GoError ''sourceFenced must attest that the source workload can no longer write'')
         else if src = dst \<or> src = [] \<or> dst = []
         then Some (GoError ''different source and target clusters are required'')
         else if mds_SourceCluster (md_Spec md) \<noteq> src
         then Some (GoError ''metadata belongs to a different source cluster'')
         else None)"

definition resourceMatches :: "PVMetadata \<Rightarrow> jobj \<Rightarrow> bool" where
  "resourceMatches md rb \<longleftrightarrow>
     \<not> (strAt rb [''spec'', ''resource'', ''kind''] \<noteq> ''StatefulSet'' \<or>
        strAt rb [''spec'', ''resource'', ''apiVersion''] \<noteq> ''apps/v1'' \<or>
        strAt rb [''spec'', ''resource'', ''name''] \<noteq> wr_Name (mds_WorkloadRef (md_Spec md)))"

definition workloadMatches :: "PVMetadata \<Rightarrow> StatefulSet \<Rightarrow> bool" where
  "workloadMatches md sts \<longleftrightarrow>
     \<not> (wr_UID (mds_WorkloadRef (md_Spec md)) = [] \<or>
        wr_UID (mds_WorkloadRef (md_Spec md)) \<noteq> om_UID (sts_meta sts))"

section \<open>Reservation of target claims\<close>

definition reservedPeer :: "PVMigration \<Rightarrow> bool" where
  "reservedPeer peer \<longleftrightarrow>
     mig_Phase peer = ''Ready'' \<or> mig_Phase peer = ''Completed'' \<or>
     list_ex (\<lambda>ref. ref_Applied ref \<or> ref_Detached ref) (mig_Works peer)"

definition olderPeer :: "PVMigration \<Rightarrow> PVMigration \<Rightarrow> bool" where
  "olderPeer peer m \<longleftrightarrow>
     om_CreationTimestamp (mig_meta peer) < om_CreationTimestamp (mig_meta m) \<or>
     om_CreationTimestamp (mig_meta peer) = om_CreationTimestamp (mig_meta m) \<and> mig_UID peer < mig_UID m"

definition claimConflict :: "PVMigration \<Rightarrow> PVMigration \<Rightarrow> goerr option" where
  "claimConflict m peer =
     first_error (\<lambda>existing.
       first_error (\<lambda>requested.
         if vmap_TargetPVC existing = vmap_TargetPVC requested
         then Some (GoError (''target PVC '' @ vmap_TargetPVC requested @ '' already reserved by PVMigration '' @
                mig_Name peer @ ''; retain its record until the PV is deliberately retired''))
         else None) (ms_Volumes (mig_Spec m))) (ms_Volumes (mig_Spec peer))"

definition peerConflict :: "PVMigration \<Rightarrow> PVMigration \<Rightarrow> goerr option" where
  "peerConflict m peer =
     (if mig_UID peer = mig_UID m \<or> ms_TargetCluster (mig_Spec peer) \<noteq> ms_TargetCluster (mig_Spec m) then None
      else if \<not> reservedPeer peer \<and> \<not> olderPeer peer m then None
      else claimConflict m peer)"

section \<open>The hold on an already selected target\<close>

definition requestUIDKey :: string where
  "requestUIDKey = ''training.dcnlab.com/placement-restore-request-uid''"

definition holdChecks :: "PVMigration \<Rightarrow> PVMetadata \<Rightarrow> jobj \<Rightarrow> (string list \<times> string) list" where
  "holdChecks m md rb =
     (let workloadUID = strAt rb [''spec'', ''resource'', ''uid'']
      in [([''sourceCluster''], ms_SourceCluster (mig_Spec m)),
          ([''targetCluster''], ms_TargetCluster (mig_Spec m)),
          ([''workloadRef'', ''apiVersion''], ''apps/v1''),
          ([''workloadRef'', ''kind''], ''StatefulSet''),
          ([''workloadRef'', ''name''], wr_Name (mds_WorkloadRef (md_Spec md))),
          ([''workloadRef'', ''uid''], workloadUID),
          ([''groupRestore'', ''operationUID''], GetUID rb),
          ([''groupRestore'', ''sourceWorldUID''], workloadUID)])"

definition holdCheck :: "jobj \<Rightarrow> string list \<times> string \<Rightarrow> goerr option" where
  "holdCheck request c =
     (case c of (path, want) \<Rightarrow>
        (if stringNoError request (''spec'' # path) \<noteq> Some want
         then Some (GoError (''bound restore request '' @ Join path ''.'' @ '' mismatch''))
         else None))"

definition validateSelectedTargetHold :: "libraries \<Rightarrow> PVMigration \<Rightarrow> PVMetadata \<Rightarrow> jobj \<Rightarrow> unit act" where
  "validateSelectedTargetHold L m md rb =
     (let a = GetAnnotations rb;
          operation = sget (om_Annotations (mig_meta m)) requestUIDKey
      in require (\<not> (operation = [] \<or> sget a requestUIDKey \<noteq> operation \<or>
                    sget a ''migration.dcnlab.com/group-volume-hold'' \<noteq> operation))
           ''migration and binding must belong to the same restore hold''
       (require (\<not> (mig_UID m = [] \<or> sget a ''migration.dcnlab.com/pv-migration'' \<noteq> mig_Name m \<or>
                    sget a ''migration.dcnlab.com/pv-migration-uid'' \<noteq> mig_UID m))
           ''binding must reference the current PVMigration name and UID''
       (require (\<not> (GetUID rb = [] \<or> \<not> IsZero (GetDeletionTimestamp L rb) \<or>
                    \<not> IsZero (om_DeletionTimestamp (md_meta md))))
           ''binding or source metadata identity is not live''
       (let workloadUID = strAt rb [''spec'', ''resource'', ''uid''];
            namespace = strAt rb [''spec'', ''resource'', ''namespace'']
        in require (\<not> (workloadUID \<noteq> wr_UID (mds_WorkloadRef (md_Spec md)) \<or> namespace \<noteq> mig_Namespace m))
           ''binding workload identity does not match source metadata''
       (let name = sget a ''training.dcnlab.com/placement-restore-request''
        in require (\<not> name = []) ''binding restore request name is missing''
       (tryM (getUnstructured RestoreRequestGVK (objectKey (object RestoreRequestGVK (mig_Namespace m) name)))
          (\<lambda>e. raise (wrapError ''read bound restore request: '' e))
          (\<lambda>request.
             require (\<not> (GetUID request \<noteq> operation \<or> \<not> IsZero (GetDeletionTimestamp L request)))
               ''bound restore request UID is stale or deleting''
             (check (first_error (holdCheck request) (holdChecks m md rb)) (ret ())))))))))"

fun checkClusters :: "libraries \<Rightarrow> PVMigration \<Rightarrow> PVMetadata \<Rightarrow> jobj \<Rightarrow> nat \<Rightarrow> json list \<Rightarrow> unit act" where
  "checkClusters L m md rb n [] = ret ()"
| "checkClusters L m md rb n (item # rest) =
     (case obj_of item of
        None \<Rightarrow> checkClusters L m md rb n rest
      | Some c \<Rightarrow>
          (if jget c ''name'' = JStr (ms_TargetCluster (mig_Spec m))
           then require (\<not> n \<noteq> 1)
                  ''target is already selected by ResourceBinding; split placement cannot stage PVs''
                (tryM (validateSelectedTargetHold L m md rb)
                  (\<lambda>e. raise (wrapError (''target is already selected by ResourceBinding; pre-stage PVs before changing '' @
                     ''placement or retain the exact operation hold: '') e))
                  (\<lambda>_. checkClusters L m md rb n rest))
           else checkClusters L m md rb n rest))"

section \<open>Target names against the claim templates\<close>

definition markedStandalone :: "PVMigration \<Rightarrow> PVMetadata \<Rightarrow> (string, bool) fmap" where
  "markedStandalone m md =
     fold (\<lambda>v marked. fmupd (vm_PVCName v) (vm_Standalone v) marked)
       (concat (map cs_Volumes
          (filter (\<lambda>s. cs_ClusterName s = ms_SourceCluster (mig_Spec m)) (mdst_Clusters (md_Status md))))) fmempty"

definition templatePrefix :: "StatefulSet \<Rightarrow> string \<Rightarrow> string" where
  "templatePrefix sts template = template @ ''-'' @ om_Name (sts_meta sts) @ ''-''"

text \<open>The first template whose ordinal the name is, with the ordinal.\<close>

fun matchTemplate :: "libraries \<Rightarrow> StatefulSet \<Rightarrow> string \<Rightarrow> string list \<Rightarrow> (string \<times> string) option" where
  "matchTemplate L sts target [] = None"
| "matchTemplate L sts target (template # rest) =
     (if validOrdinalPVC L target (templatePrefix sts template)
      then Some (TrimPrefix target (templatePrefix sts template), template)
      else matchTemplate L sts target rest)"

type_synonym ordinal_templates = "(string \<times> string list) list"

definition addTemplate :: "string \<Rightarrow> string \<Rightarrow> ordinal_templates \<Rightarrow> ordinal_templates" where
  "addTemplate ordinal template byOrdinal =
     AList.update ordinal
       (addKey template (case map_of byOrdinal ordinal of None \<Rightarrow> [] | Some ts \<Rightarrow> ts)) byOrdinal"

fun groupOrdinals ::
  "libraries \<Rightarrow> StatefulSet \<Rightarrow> string list \<Rightarrow> (string, bool) fmap \<Rightarrow> VolumeMapping list \<Rightarrow> ordinal_templates \<Rightarrow>
   ordinal_templates go" where
  "groupOrdinals L sts standalone marked [] byOrdinal = Ok byOrdinal"
| "groupOrdinals L sts standalone marked (mapping # rest) byOrdinal =
     (if fmlookup marked (vmap_SourcePVC mapping) = Some True
      then (if vmap_SourcePVC mapping \<notin> set standalone \<or> vmap_SourcePVC mapping \<noteq> vmap_TargetPVC mapping
            then fail ''standalone PVC must retain an exact StatefulSet claim reference''
            else groupOrdinals L sts standalone marked rest byOrdinal)
      else
        (case matchTemplate L sts (vmap_TargetPVC mapping) (sts_VolumeClaimTemplates sts) of
           None \<Rightarrow> fail (''target PVC '' @ vmap_TargetPVC mapping @ '' is not a StatefulSet claim-template ordinal'')
         | Some (ordinal, template) \<Rightarrow>
             groupOrdinals L sts standalone marked rest (addTemplate ordinal template byOrdinal)))"

definition ordinalComplete :: "StatefulSet \<Rightarrow> ordinal_templates \<Rightarrow> string \<Rightarrow> goerr option" where
  "ordinalComplete sts byOrdinal ordinal =
     (if length (case map_of byOrdinal ordinal of None \<Rightarrow> [] | Some ts \<Rightarrow> ts) \<noteq> length (sts_VolumeClaimTemplates sts)
      then Some (GoError (''target ordinal '' @ ordinal @ '' must map every volumeClaimTemplate''))
      else None)"

definition targetsCheck :: "libraries \<Rightarrow> PVMigration \<Rightarrow> PVMetadata \<Rightarrow> StatefulSet \<Rightarrow> goerr option" where
  "targetsCheck L m md sts =
     (case groupOrdinals L sts (Standalone L sts) (markedStandalone m md) (ms_Volumes (mig_Spec m)) [] of
        Ok byOrdinal \<Rightarrow> first_error (ordinalComplete sts byOrdinal) (lib_RangeOrder L (map fst byOrdinal))
      | Err e \<Rightarrow> Some e
      | Panic \<Rightarrow> None)"

section \<open>The gate\<close>

definition validateBinding :: "libraries \<Rightarrow> PVMigration \<Rightarrow> PVMetadata \<Rightarrow> unit act" where
  "validateBinding L m md =
     check (requestCheck m md)
     (andThen (getUnstructured BindingGVK (objectKey (object BindingGVK (mig_Namespace m) (ms_ResourceBinding (mig_Spec m)))))
       (\<lambda>rb.
     require (resourceMatches md rb) ''ResourceBinding does not match PVMetadata StatefulSet''
     (andThen (getStatefulSet (mig_Namespace m, strAt rb [''spec'', ''resource'', ''name'']))
       (\<lambda>sts.
     require (workloadMatches md sts) ''PVMetadata belongs to an old or unspecified StatefulSet UID''
     (require (boolAt rb [''spec'', ''suspension'', ''dispatching''])
       ''suspend ResourceBinding dispatching before requesting PV migration''
     (andThen (listMigrations (mig_Namespace m))
       (\<lambda>peers.
     check (first_error (peerConflict m) peers)
     (let clusters = elems (sliceAt rb [''spec'', ''clusters''])
      in andThen (checkClusters L m md rb (length clusters) clusters)
       (\<lambda>_. check (targetsCheck L m md sts) (ret ()))))))))))"

end
