(* ===== verification/PlanFacts.thy ===== *)
theory PlanFacts
  imports BuildWorks
begin

text \<open>
  What a successful \<open>BuildWorks\<close> says about the request, the snapshot and the Works: one
  lemma per block of the loop, one invariant of the loop, and the shape of a single Work.
\<close>

section \<open>The shape of one Work\<close>

lemma workName_nonempty: "p \<noteq> [] \<Longrightarrow> workName i p \<noteq> []"
  by (simp add: workName_def)

lemma executionNamespace_nonempty [simp]: "executionNamespace m \<noteq> []"
  by (simp add: executionNamespace_def)

lemma volumeName_nonempty [simp]: "volumeName L m md mp \<noteq> []"
  by (simp add: volumeName_def stableName_def)

lemma unroutedWork_eq:
  assumes "p \<noteq> []"
  shows "unroutedWork m v p i r =
    fmupd ''spec'' (workSpec r)
     (fmupd ''metadata'' (JObj (fmupd ''labels'' (string_json (workLabels m v p))
         (fmupd ''name'' (JStr (workName i p)) (fmupd ''namespace'' (JStr (executionNamespace m)) fmempty))))
      (fmupd ''kind'' (JStr ''Work'') (fmupd ''apiVersion'' (JStr (apiVersionOf WorkGVK)) fmempty)))"
  using assms by (simp add: unroutedWork_def SetLabels_def setField_def object_eq workName_nonempty WorkGVK_def)

lemma unroutedWork_reads:
  assumes "p \<noteq> []"
  shows "GetName (unroutedWork m v p i r) = workName i p"
    and "GetNamespace (unroutedWork m v p i r) = executionNamespace m"
    and "GetLabels (unroutedWork m v p i r) = workLabels m v p"
    and "GetGeneration (unroutedWork m v p i r) = 0"
    and "boolAt (unroutedWork m v p i r) [''spec'', ''preserveResourcesOnDeletion'']"
    and "sliceAt (unroutedWork m v p i r) manifestsPath = Some [JObj r]"
    and "sliceAt (unroutedWork m v p i r) statusesPath = None"
    and "jget (unroutedWork m v p i r) ''spec'' = workSpec r"
  using assms
  by (simp_all add: unroutedWork_eq GetName_def GetNamespace_def GetLabels_def GetGeneration_def
      boolAt_iff sliceAt_def NestedSlice_def NestedInt64_def strAt_def NestedString_def
      NestedField_Cons workSpec_def)

lemma setWorkRouting_unrouted:
  assumes "p \<noteq> []"
  shows "setWorkRouting (unroutedWork m v p i r) =
     Some (unroutedWork m v p i (setRoute (workName i p) (executionNamespace m) r))"
proof -
  have "sliceAt (unroutedWork m v p i r) manifestsPath = Some (map JObj [r])"
    using assms by (simp add: unroutedWork_reads)
  note route = overManifests_Some [OF this, of "setRoute (workName i p) (executionNamespace m)"]
  have "setSlice (Some [JObj x]) manifestsPath (unroutedWork m v p i r) = unroutedWork m v p i x" for x
    using assms
    by (simp add: unroutedWork_eq setSlice_def setField_def slice_value_def workSpec_def
        fmupd_swap [of "''workload''" "''preserveResourcesOnDeletion''"])
  with route show ?thesis
    using assms by (simp add: setWorkRouting_def unroutedWork_reads)
qed

definition plannedWork :: "PVMigration \<Rightarrow> VolumeMetadata \<Rightarrow> string \<Rightarrow> nat \<Rightarrow> jobj \<Rightarrow> jobj" where
  "plannedWork m v p i r = unroutedWork m v p i (setRoute (workName i p) (executionNamespace m) r)"

lemma setWorkRouting_planned:
  "p \<noteq> [] \<Longrightarrow> setWorkRouting (unroutedWork m v p i r) = Some (plannedWork m v p i r)"
  by (simp add: plannedWork_def setWorkRouting_unrouted)

lemma worksOf_eq:
  assumes "p \<noteq> []"
  shows "worksOf m v p i rs = Ok (map (\<lambda>(k, r). plannedWork m v p k r) (enumerate i rs))"
  by (induction rs arbitrary: i) (simp_all add: setWorkRouting_planned [OF assms])

lemma plannedWork_reads:
  assumes "p \<noteq> []"
  shows "GetName (plannedWork m v p i r) = workName i p"
    and "GetNamespace (plannedWork m v p i r) = executionNamespace m"
    and "GetLabels (plannedWork m v p i r) = workLabels m v p"
    and "GetGeneration (plannedWork m v p i r) = 0"
    and "boolAt (plannedWork m v p i r) [''spec'', ''preserveResourcesOnDeletion'']"
    and "sliceAt (plannedWork m v p i r) manifestsPath =
           Some [JObj (setRoute (workName i p) (executionNamespace m) r)]"
  using assms by (simp_all add: plannedWork_def unroutedWork_reads)

lemma workLabels_reads:
  "sget (workLabels m v p) ManagedLabel = ManagerName"
  "sget (workLabels m v p) OwnerLabel = mig_UID m"
  "sget (workLabels m v p) standalonePairLabel = (if vm_Standalone v then p else [])"
  by (simp_all add: workLabels_def Let_def)

lemma removeWorkRouting_planned:
  assumes "p \<noteq> []" and "routable r"
  shows "removeWorkRouting (plannedWork m v p i r) = removeWorkRouting (unroutedWork m v p i r)"
proof (rule removeWorkRouting_setWorkRouting)
  show "sliceAt (unroutedWork m v p i r) manifestsPath = Some (map JObj [r])"
    using assms by (simp add: unroutedWork_reads)
  show "setWorkRouting (unroutedWork m v p i r) = Some (plannedWork m v p i r)"
    using assms by (simp add: setWorkRouting_planned)
qed (use assms in simp)

section \<open>The blocks of one round\<close>

lemma retainedSpec_Ok:
  assumes "retainedSpec m v mapping = Ok spec"
  obtains nfs ref where
    "pvs_NFS (pvsp_Source (vm_PVSpec v)) = Some nfs" "nfs_Server nfs \<noteq> []" "nfs_Path nfs \<noteq> []"
    "pvsp_NodeAffinity (vm_PVSpec v) = None"
    "pvsp_ClaimRef (vm_PVSpec v) = Some ref" "or_Namespace ref = mig_Namespace m"
    "or_Name ref = vm_PVCName v" "or_UID ref = vm_PVCUID v" "vm_PVCUID v \<noteq> []"
    "pvsp_Source spec = \<lparr> pvs_NFS = Some nfs, pvs_others = fmempty \<rparr>"
    "pvsp_ReclaimPolicy spec = ''Retain''" "pvsp_NodeAffinity spec = None"
    "pvsp_ClaimRef spec = Some \<lparr> or_APIVersion = ''v1'', or_Kind = ''PersistentVolumeClaim'',
       or_Namespace = mig_Namespace m, or_Name = vmap_TargetPVC mapping, or_UID = [], or_others = fmempty \<rparr>"
    "pvsp_Capacity spec = pvsp_Capacity (vm_PVSpec v)"
    "pvsp_StorageClassName spec = pvsp_StorageClassName (vm_PVSpec v)"
  using assms by (auto simp: retainedSpec_def Let_def split: option.splits if_splits)

lemma retainedSpec_no_panic: "retainedSpec m v mapping \<noteq> Panic"
  by (simp add: retainedSpec_def Let_def split: option.splits)

lemma encoded_Ok: "encoded r = Ok j \<longleftrightarrow> (\<exists>k. r = Ok k \<and> j = fmdrop ''status'' k)"
  by (auto simp: encoded_def split: go.splits)

lemma encoded_Panic: "encoded r = Panic \<longleftrightarrow> r = Panic"
  by (auto simp: encoded_def split: go.splits)

lemma standaloneClaim_Ok:
  assumes "standaloneClaim L m v pvName = Ok claim"
  obtains spec k where
    "vm_PVCSpec v = Some spec" "pcs_VolumeName spec = vm_PVName v" "vm_PVName v \<noteq> []"
    "pcs_Selector spec = None" "pcs_DataSource spec = None" "pcs_DataSourceRef spec = None"
    "pcs_VolumeAttributesClassName spec = None"
    "0 < quantityOf (pcs_Requests spec) ''storage''"
    "quantityOf (pcs_Requests spec) ''storage'' \<le> quantityOf (pvsp_Capacity (vm_PVSpec v)) ''storage''"
    "pcs_AccessModes spec \<noteq> []" "set (pcs_AccessModes spec) \<subseteq> set (pvsp_AccessModes (vm_PVSpec v))"
    "volumeMode (pcs_VolumeMode spec) = ''Filesystem''" "volumeMode (pvsp_VolumeMode (vm_PVSpec v)) = ''Filesystem''"
    "lib_PVCToUnstructured L (targetClaim m v spec (pvsp_StorageClassName (vm_PVSpec v)) pvName) = Ok k"
    "claim = fmdrop ''status'' k"
proof -
  from assms obtain spec where spec: "vm_PVCSpec v = Some spec"
    by (auto simp: standaloneClaim_def split: option.splits)
  show thesis
    using assms by (intro that [OF spec, where k = "case lib_PVCToUnstructured L (targetClaim m v spec (pvsp_StorageClassName (vm_PVSpec v)) pvName) of Ok k \<Rightarrow> k"])
      (auto simp: standaloneClaim_def spec Let_def encoded_Ok list_all_iff split: if_splits)
qed

lemma standaloneClaim_no_panic:
  assumes "vm_PVCSpec v \<noteq> None" and "\<And>q. lib_PVCToUnstructured L q \<noteq> Panic"
  shows "standaloneClaim L m v pvName \<noteq> Panic"
proof -
  from assms(1) obtain spec where "vm_PVCSpec v = Some spec" by blast
  then show ?thesis by (simp add: standaloneClaim_def Let_def encoded_Panic assms(2))
qed

text \<open>The conditions on one mapping that do not involve the other mappings.\<close>

definition acceptedMapping :: "libraries \<Rightarrow> PVMetadata \<Rightarrow> VolumeMapping \<Rightarrow> VolumeMetadata \<Rightarrow> bool" where
  "acceptedMapping L md mapping v \<longleftrightarrow>
     (if vm_Standalone v
      then vm_TemplateName v = [] \<and> vm_PVCSpec v \<noteq> None \<and> vmap_SourcePVC mapping = vmap_TargetPVC mapping
      else vm_TemplateName v \<noteq> [] \<and> validOrdinalPVC L (vmap_TargetPVC mapping) (claimPrefix md v)) \<and>
     lib_IsDNS1123Subdomain L (vmap_TargetPVC mapping) = []"

definition targetOrdinalOf :: "PVMetadata \<Rightarrow> VolumeMapping \<Rightarrow> VolumeMetadata \<Rightarrow> string" where
  "targetOrdinalOf md mapping v = TrimPrefix (vmap_TargetPVC mapping) (claimPrefix md v)"

lemma checkMapping_Ok:
  assumes "checkMapping L md volumes mapping acc = Ok (v, acc')"
  shows "vmap_SourcePVC mapping \<notin> set (acc_seenSource acc)"
    and "vmap_TargetPVC mapping \<notin> set (acc_seenTarget acc)"
    and "acc_seenSource acc' = vmap_SourcePVC mapping # acc_seenSource acc"
    and "acc_seenTarget acc' = vmap_TargetPVC mapping # acc_seenTarget acc"
    and "fmlookup volumes (vmap_SourcePVC mapping) = Some v"
    and "acceptedMapping L md mapping v"
    and "fmlookup (acc_ordinals acc) k = Some n \<Longrightarrow> fmlookup (acc_ordinals acc') k = Some n"
    and "\<not> vm_Standalone v \<Longrightarrow> fmlookup (acc_ordinals acc') (targetOrdinalOf md mapping v) = Some (vm_Ordinal v)"
  using assms
  by (auto simp: checkMapping_def acceptedMapping_def targetOrdinalOf_def Let_def go_bind_Ok_iff
      split: if_splits option.splits)

lemma checkMapping_no_panic: "checkMapping L md volumes mapping acc \<noteq> Panic"
  by (auto simp: checkMapping_def Let_def go_bind_Panic_iff split: option.splits if_splits)

lemma mappingWorks_Ok:
  assumes "mappingWorks L m md v mapping = Ok ws"
  obtains spec k where
    "retainedSpec m v mapping = Ok spec"
    "lib_PVToUnstructured L (targetVolume m spec (volumeName L m md mapping)) = Ok k"
    "\<not> vm_Standalone v \<Longrightarrow>
       ws = [plannedWork m v (volumeName L m md mapping) 0 (fmdrop ''status'' k)]"
    "vm_Standalone v \<Longrightarrow> \<exists>claim. standaloneClaim L m v (volumeName L m md mapping) = Ok claim \<and>
       ws = [plannedWork m v (volumeName L m md mapping) 0 (fmdrop ''status'' k),
             plannedWork m v (volumeName L m md mapping) 1 claim]"
proof -
  let ?p = "volumeName L m md mapping"
  from assms obtain spec manifests where spec: "retainedSpec m v mapping = Ok spec"
    and man: "mappingManifests L m v spec ?p = Ok manifests"
    and ws: "worksOf m v ?p 0 manifests = Ok ws"
    by (auto simp: mappingWorks_def go_bind_Ok_iff)
  from man obtain k where k: "lib_PVToUnstructured L (targetVolume m spec ?p) = Ok k"
    and rest: "if vm_Standalone v
       then \<exists>claim. standaloneClaim L m v ?p = Ok claim \<and> manifests = [fmdrop ''status'' k, claim]
       else manifests = [fmdrop ''status'' k]"
    by (auto simp: mappingManifests_def go_bind_Ok_iff encoded_Ok split: if_splits)
  show thesis
    using rest ws by (intro that [OF spec k]) (auto simp: setWorkRouting_planned split: if_splits)
qed

lemma mappingWorks_no_panic:
  assumes "vm_Standalone v \<Longrightarrow> vm_PVCSpec v \<noteq> None"
    and "\<And>p. lib_PVToUnstructured L p \<noteq> Panic" and "\<And>q. lib_PVCToUnstructured L q \<noteq> Panic"
  shows "mappingWorks L m md v mapping \<noteq> Panic"
  using assms standaloneClaim_no_panic [of v L]
  by (auto simp: mappingWorks_def mappingManifests_def go_bind_Panic_iff retainedSpec_no_panic
      encoded_Panic worksOf_eq)

section \<open>The loop\<close>

definition plannedMapping ::
  "libraries \<Rightarrow> PVMigration \<Rightarrow> PVMetadata \<Rightarrow> (string, VolumeMetadata) fmap \<Rightarrow> VolumeMapping \<Rightarrow> jobj list \<Rightarrow> bool" where
  "plannedMapping L m md volumes mapping ws \<longleftrightarrow>
     (\<exists>v. fmlookup volumes (vmap_SourcePVC mapping) = Some v \<and> acceptedMapping L md mapping v \<and>
          mappingWorks L m md v mapping = Ok ws)"

definition coherentOrdinals :: "PVMetadata \<Rightarrow> (string, VolumeMetadata) fmap \<Rightarrow> VolumeMapping list \<Rightarrow> (string \<Rightarrow> int32) \<Rightarrow> bool" where
  "coherentOrdinals md volumes mappings f \<longleftrightarrow>
     (\<forall>mapping\<in>set mappings. \<forall>v. fmlookup volumes (vmap_SourcePVC mapping) = Some v \<longrightarrow>
        \<not> vm_Standalone v \<longrightarrow> f (targetOrdinalOf md mapping v) = vm_Ordinal v)"

lemma buildMappings_Ok:
  assumes "buildMappings L m md volumes mappings acc ws0 = Ok ws"
  shows "(\<exists>wss. ws = ws0 @ concat wss \<and> list_all2 (plannedMapping L m md volumes) mappings wss) \<and>
         distinct (map vmap_SourcePVC mappings) \<and> distinct (map vmap_TargetPVC mappings) \<and>
         set (map vmap_SourcePVC mappings) \<inter> set (acc_seenSource acc) = {} \<and>
         set (map vmap_TargetPVC mappings) \<inter> set (acc_seenTarget acc) = {} \<and>
         (\<exists>f. coherentOrdinals md volumes mappings f \<and>
              (\<forall>k n. fmlookup (acc_ordinals acc) k = Some n \<longrightarrow> f k = n))"
  using assms
proof (induction mappings arbitrary: acc ws0)
  case Nil
  have "\<exists>f. \<forall>k n. fmlookup (acc_ordinals acc) k = Some n \<longrightarrow> f k = n"
    by (rule exI [where x = "\<lambda>k. the (fmlookup (acc_ordinals acc) k)"]) simp
  with Nil show ?case by (auto simp: coherentOrdinals_def)
next
  case (Cons mapping rest)
  from Cons.prems obtain v acc' ws1 where chk: "checkMapping L md volumes mapping acc = Ok (v, acc')"
    and ws1: "mappingWorks L m md v mapping = Ok ws1"
    and rest: "buildMappings L m md volumes rest acc' (ws0 @ ws1) = Ok ws"
    by (auto simp: go_bind_Ok_iff)
  note chk_facts = checkMapping_Ok [OF chk]
  from Cons.IH [OF rest] obtain wss f where
    IH: "ws = (ws0 @ ws1) @ concat wss" "list_all2 (plannedMapping L m md volumes) rest wss"
      "distinct (map vmap_SourcePVC rest)" "distinct (map vmap_TargetPVC rest)"
      "set (map vmap_SourcePVC rest) \<inter> set (acc_seenSource acc') = {}"
      "set (map vmap_TargetPVC rest) \<inter> set (acc_seenTarget acc') = {}"
      "coherentOrdinals md volumes rest f"
      "\<forall>k n. fmlookup (acc_ordinals acc') k = Some n \<longrightarrow> f k = n"
    by blast
  have "plannedMapping L m md volumes mapping ws1"
    using chk_facts ws1 by (auto simp: plannedMapping_def)
  with IH have ws: "ws = ws0 @ concat (ws1 # wss)"
    "list_all2 (plannedMapping L m md volumes) (mapping # rest) (ws1 # wss)" by auto
  have coh: "coherentOrdinals md volumes (mapping # rest) f"
    using IH(7,8) chk_facts(5,8) by (auto simp: coherentOrdinals_def)
  have "\<forall>k n. fmlookup (acc_ordinals acc) k = Some n \<longrightarrow> f k = n"
    using IH(8) chk_facts(7) by blast
  with coh have last: "\<exists>f. coherentOrdinals md volumes (mapping # rest) f \<and>
      (\<forall>k n. fmlookup (acc_ordinals acc) k = Some n \<longrightarrow> f k = n)" by blast
  have "vmap_SourcePVC mapping \<notin> set (map vmap_SourcePVC rest)"
    "vmap_TargetPVC mapping \<notin> set (map vmap_TargetPVC rest)"
    using IH(5,6) unfolding chk_facts(3,4) by auto
  with IH(3-6) chk_facts(1-4) have names:
    "distinct (map vmap_SourcePVC (mapping # rest))" "distinct (map vmap_TargetPVC (mapping # rest))"
    "set (map vmap_SourcePVC (mapping # rest)) \<inter> set (acc_seenSource acc) = {}"
    "set (map vmap_TargetPVC (mapping # rest)) \<inter> set (acc_seenTarget acc) = {}"
    unfolding chk_facts(3,4) by auto
  from ws have "\<exists>wss. ws = ws0 @ concat wss \<and>
      list_all2 (plannedMapping L m md volumes) (mapping # rest) wss" by blast
  with names last show ?case by (intro conjI)
qed

lemma buildMappings_no_panic:
  assumes "\<And>p. lib_PVToUnstructured L p \<noteq> Panic" and "\<And>q. lib_PVCToUnstructured L q \<noteq> Panic"
  shows "buildMappings L m md volumes mappings acc ws0 \<noteq> Panic"
proof (induction mappings arbitrary: acc ws0)
  case (Cons mapping rest)
  have "mappingWorks L m md v mapping \<noteq> Panic" if "checkMapping L md volumes mapping acc = Ok (v, acc')" for v acc'
    using checkMapping_Ok(6) [OF that] assms
    by (intro mappingWorks_no_panic) (auto simp: acceptedMapping_def split: if_splits)
  with Cons.IH checkMapping_no_panic show ?case
    by (simp add: go_bind_Panic_iff split: prod.split) blast
qed simp

section \<open>Snapshot selection\<close>

lemma findSnapshot_Ok:
  "findSnapshot src cs found = Ok r \<Longrightarrow>
     (case found of
        None \<Rightarrow> (case r of None \<Rightarrow> filter (\<lambda>c. cs_ClusterName c = src) cs = []
                         | Some s \<Rightarrow> filter (\<lambda>c. cs_ClusterName c = src) cs = [s])
      | Some s \<Rightarrow> r = Some s \<and> filter (\<lambda>c. cs_ClusterName c = src) cs = [])"
  by (induction src cs found rule: findSnapshot.induct) (auto split: if_splits option.splits)

lemma findSnapshot_no_panic: "findSnapshot src cs found \<noteq> Panic"
  by (induction src cs found rule: findSnapshot.induct) auto

lemma indexVolumes_Ok:
  "indexVolumes vs acc = Ok volumes \<Longrightarrow>
     distinct (map vm_PVCName vs) \<and> (\<forall>v\<in>set vs. fmlookup acc (vm_PVCName v) = None) \<and>
     (\<forall>n v. fmlookup volumes n = Some v \<longleftrightarrow> fmlookup acc n = Some v \<or> v \<in> set vs \<and> vm_PVCName v = n)"
proof (induction vs acc rule: indexVolumes.induct)
  case (2 v vs acc)
  then have new: "fmlookup acc (vm_PVCName v) = None"
    and rest: "indexVolumes vs (fmupd (vm_PVCName v) v acc) = Ok volumes"
    by (auto split: if_splits)
  from new have "\<not> fmlookup acc (vm_PVCName v) \<noteq> None" by simp
  note IH = "2.IH" [OF this rest]
  have look: "fmlookup volumes n = Some x \<longleftrightarrow>
      fmlookup acc n = Some x \<or> x \<in> set (v # vs) \<and> vm_PVCName x = n" for n x
    using IH new by (cases "vm_PVCName v = n") auto
  have "vm_PVCName v \<noteq> vm_PVCName x \<and> fmlookup acc (vm_PVCName x) = None" if "x \<in> set vs" for x
    using IH that by (auto split: if_splits)
  then have "distinct (map vm_PVCName (v # vs))" "\<forall>x\<in>set (v # vs). fmlookup acc (vm_PVCName x) = None"
    using IH new by auto
  with look show ?case by blast
qed simp

lemma indexVolumes_no_panic: "indexVolumes vs acc \<noteq> Panic"
  by (induction vs acc rule: indexVolumes.induct) auto

section \<open>The plan as a whole\<close>

text \<open>The one snapshot a plan is made from, and its volume of a given claim name.\<close>

definition planSnapshot :: "PVMigration \<Rightarrow> PVMetadata \<Rightarrow> ClusterSnapshot \<Rightarrow> bool" where
  "planSnapshot m md s \<longleftrightarrow>
     filter (\<lambda>c. cs_ClusterName c = ms_SourceCluster (mig_Spec m)) (mdst_Clusters (md_Status md)) = [s] \<and>
     snapshotUsable md s \<and> distinct (map vm_PVCName (cs_Volumes s))"

definition snapshotVolume :: "ClusterSnapshot \<Rightarrow> string \<Rightarrow> VolumeMetadata option" where
  "snapshotVolume s n = find (\<lambda>v. vm_PVCName v = n) (cs_Volumes s)"

lemma snapshotVolume_Some_iff:
  "distinct (map vm_PVCName (cs_Volumes s)) \<Longrightarrow>
     snapshotVolume s n = Some v \<longleftrightarrow> v \<in> set (cs_Volumes s) \<and> vm_PVCName v = n"
proof -
  have "distinct (map vm_PVCName vs) \<Longrightarrow>
      find (\<lambda>v. vm_PVCName v = n) vs = Some v \<longleftrightarrow> v \<in> set vs \<and> vm_PVCName v = n" for vs
    by (induction vs) (auto simp: image_iff)
  then show "distinct (map vm_PVCName (cs_Volumes s)) \<Longrightarrow> ?thesis" by (simp add: snapshotVolume_def)
qed

lemma BuildWorks_Ok:
  assumes "BuildWorks L m md = Ok works"
  obtains s volumes wss f where
    "planSnapshot m md s"
    "\<And>n. fmlookup volumes n = snapshotVolume s n"
    "works = concat wss"
    "list_all2 (plannedMapping L m md volumes) (ms_Volumes (mig_Spec m)) wss"
    "distinct (map vmap_SourcePVC (ms_Volumes (mig_Spec m)))"
    "distinct (map vmap_TargetPVC (ms_Volumes (mig_Spec m)))"
    "coherentOrdinals md volumes (ms_Volumes (mig_Spec m)) f"
    "ms_Volumes (mig_Spec m) \<noteq> []" "length (executionNamespace m) \<le> 63"
    "lib_IsDNS1123Subdomain L (ms_TargetCluster (mig_Spec m)) = []"
proof -
  from assms obtain s volumes where
      find: "findSnapshot (ms_SourceCluster (mig_Spec m)) (mdst_Clusters (md_Status md)) None = Ok (Some s)"
    and use: "snapshotUsable md s"
    and idx: "indexVolumes (cs_Volumes s) fmempty = Ok volumes"
    and build: "buildMappings L m md volumes (ms_Volumes (mig_Spec m)) emptyAcc [] = Ok works"
    and pre: "ms_Volumes (mig_Spec m) \<noteq> []" "length (executionNamespace m) \<le> 63"
      "lib_IsDNS1123Subdomain L (ms_TargetCluster (mig_Spec m)) = []"
    by (auto simp: BuildWorks_def go_bind_Ok_iff split: if_splits option.splits)
  from indexVolumes_Ok [OF idx] have dist: "distinct (map vm_PVCName (cs_Volumes s))"
    and vol: "fmlookup volumes n = Some v \<longleftrightarrow> v \<in> set (cs_Volumes s) \<and> vm_PVCName v = n" for n v
    by auto
  have snap: "planSnapshot m md s"
    using findSnapshot_Ok [OF find] use dist by (simp add: planSnapshot_def)
  have look: "fmlookup volumes n = snapshotVolume s n" for n
    using vol snapshotVolume_Some_iff [OF dist] by (metis option.exhaust)
  from buildMappings_Ok [OF build] that [OF snap look] pre show thesis by auto
qed

lemma BuildWorks_no_panic_libs:
  assumes "\<And>p. lib_PVToUnstructured L p \<noteq> Panic" and "\<And>q. lib_PVCToUnstructured L q \<noteq> Panic"
  shows "BuildWorks L m md \<noteq> Panic"
  using buildMappings_no_panic [of L, OF assms]
  by (auto simp: BuildWorks_def go_bind_Panic_iff findSnapshot_no_panic indexVolumes_no_panic
      split: option.splits)

text \<open>Every planned Work comes from one mapping, its snapshot volume and one resource.\<close>

lemma BuildWorks_work:
  assumes "BuildWorks L m md = Ok works" and "w \<in> set works"
  obtains s mapping v spec k where
    "planSnapshot m md s" "mapping \<in> set (ms_Volumes (mig_Spec m))"
    "snapshotVolume s (vmap_SourcePVC mapping) = Some v" "acceptedMapping L md mapping v"
    "retainedSpec m v mapping = Ok spec"
    "lib_PVToUnstructured L (targetVolume m spec (volumeName L m md mapping)) = Ok k"
    "w = plannedWork m v (volumeName L m md mapping) 0 (fmdrop ''status'' k) \<or>
     vm_Standalone v \<and> (\<exists>claim. standaloneClaim L m v (volumeName L m md mapping) = Ok claim \<and>
       w = plannedWork m v (volumeName L m md mapping) 1 claim)"
proof -
  obtain s volumes wss where snap: "planSnapshot m md s"
    and look: "\<And>n. fmlookup volumes n = snapshotVolume s n" and works: "works = concat wss"
    and all: "list_all2 (plannedMapping L m md volumes) (ms_Volumes (mig_Spec m)) wss"
    by (rule BuildWorks_Ok [OF assms(1)]) blast
  from assms(2) works obtain ws where ws: "ws \<in> set wss" "w \<in> set ws" by auto
  then obtain i where i: "i < length wss" "wss ! i = ws" by (auto simp: in_set_conv_nth)
  with all have "plannedMapping L m md volumes (ms_Volumes (mig_Spec m) ! i) ws"
    and mem: "ms_Volumes (mig_Spec m) ! i \<in> set (ms_Volumes (mig_Spec m))"
    by (auto simp: list_all2_conv_all_nth)
  then obtain v where v: "snapshotVolume s (vmap_SourcePVC (ms_Volumes (mig_Spec m) ! i)) = Some v"
      "acceptedMapping L md (ms_Volumes (mig_Spec m) ! i) v"
    and mw: "mappingWorks L m md v (ms_Volumes (mig_Spec m) ! i) = Ok ws"
    by (auto simp: plannedMapping_def look)
  from mw show thesis
  proof (rule mappingWorks_Ok)
    fix spec k
    assume spec: "retainedSpec m v (ms_Volumes (mig_Spec m) ! i) = Ok spec"
      "lib_PVToUnstructured L (targetVolume m spec (volumeName L m md (ms_Volumes (mig_Spec m) ! i))) = Ok k"
    assume "\<not> vm_Standalone v \<Longrightarrow>
         ws = [plannedWork m v (volumeName L m md (ms_Volumes (mig_Spec m) ! i)) 0 (fmdrop ''status'' k)]"
      "vm_Standalone v \<Longrightarrow> \<exists>claim. standaloneClaim L m v (volumeName L m md (ms_Volumes (mig_Spec m) ! i)) = Ok claim \<and>
         ws = [plannedWork m v (volumeName L m md (ms_Volumes (mig_Spec m) ! i)) 0 (fmdrop ''status'' k),
               plannedWork m v (volumeName L m md (ms_Volumes (mig_Spec m) ! i)) 1 claim]"
    then show thesis
      using ws(2) by (intro that [OF snap mem v spec]) (cases "vm_Standalone v"; auto)
  qed
qed

text \<open>Of the request the plan uses the namespace, the UID and the spec only.\<close>

lemma BuildWorks_request_cong:
  assumes "mig_Namespace m = mig_Namespace m'" and "mig_UID m = mig_UID m'" and "mig_Spec m = mig_Spec m'"
  shows "BuildWorks L m md = BuildWorks L m' md"
proof -
  have ns: "executionNamespace m = executionNamespace m'"
    unfolding executionNamespace_def assms by (rule refl)
  have labels: "managedLabelsOf m = managedLabelsOf m'" unfolding managedLabelsOf_def assms by (rule refl)
  have name: "volumeName L m md mp = volumeName L m' md mp" for mp
    unfolding volumeName_def volumeParts_def assms by (rule refl)
  have spec: "retainedSpec m v mp = retainedSpec m' v mp" for v mp
    unfolding retainedSpec_def assms by (rule refl)
  have claim: "standaloneClaim L m v p = standaloneClaim L m' v p" for v p
    unfolding standaloneClaim_def targetClaim_def labels assms by (rule refl)
  have volume: "targetVolume m sp p = targetVolume m' sp p" for sp p
    unfolding targetVolume_def labels by (rule refl)
  have work: "unroutedWork m v p i r = unroutedWork m' v p i r" for v p i r
    unfolding unroutedWork_def workLabels_def ns assms by (rule refl)
  have works: "worksOf m v p i rs = worksOf m' v p i rs" for v p i rs
    by (induction rs arbitrary: i) (simp_all add: work)
  have mapping: "mappingWorks L m md v mp = mappingWorks L m' md v mp" for v mp
    unfolding mappingWorks_def mappingManifests_def name spec claim volume works by (rule refl)
  have build: "buildMappings L m md volumes mps acc ws = buildMappings L m' md volumes mps acc ws" for volumes mps acc ws
  proof (induction mps arbitrary: acc ws)
    case (Cons mp mps)
    show ?case unfolding buildMappings.simps mapping Cons.IH by (rule refl)
  qed simp
  show ?thesis unfolding BuildWorks_def build ns assms by (rule refl)
qed

end
