(* ===== verification/Plan.thy ===== *)
theory Plan
  imports PlanFacts
begin

text \<open>
  \<open>internal/management/plan.go\<close>: the hash that a started migration is held to.  The parts that
  are encoded are the workload UID and the identities of the mapped volumes of every snapshot
  of the source cluster, then the spec of every Work without its routing annotations.
\<close>

section \<open>Model\<close>

definition volumeIdentity :: "VolumeMetadata \<Rightarrow> json" where
  "volumeIdentity v = JArr [JStr (vm_PVCName v), JStr (vm_PVCUID v), JStr (vm_PVName v)]"

definition snapshotParts :: "PVMigration \<Rightarrow> ClusterSnapshot \<Rightarrow> json list" where
  "snapshotParts m s =
     (if cs_ClusterName s \<noteq> ms_SourceCluster (mig_Spec m) then []
      else JStr (cs_WorkloadUID s) #
           concat (map (\<lambda>mapping.
             map volumeIdentity (filter (\<lambda>v. vm_PVCName v = vmap_SourcePVC mapping) (cs_Volumes s)))
             (ms_Volumes (mig_Spec m))))"

definition identityParts :: "PVMigration \<Rightarrow> PVMetadata \<Rightarrow> json list" where
  "identityParts m md = concat (map (snapshotParts m) (mdst_Clusters (md_Status md)))"

fun workParts :: "jobj list \<Rightarrow> json list option" where
  "workParts [] = Some []"
| "workParts (w # ws) =
     (case removeWorkRouting w of
        None \<Rightarrow> None
      | Some legacy \<Rightarrow> (case workParts ws of None \<Rightarrow> None | Some ps \<Rightarrow> Some (jget legacy ''spec'' # ps)))"

definition planHash :: "libraries \<Rightarrow> PVMigration \<Rightarrow> PVMetadata \<Rightarrow> jobj list \<Rightarrow> string go" where
  "planHash L m md works =
     go_bind (of_option (workParts works))
       (\<lambda>parts. go_bind (lib_Marshal L (identityParts m md @ parts))
          (\<lambda>data. Ok (hexEncode (lib_Sum256 L data))))"

section \<open>Lemmas\<close>

lemma workParts_Some_length: "workParts works = Some ps \<Longrightarrow> length ps = length works"
  by (induction works arbitrary: ps) (auto split: option.splits)

lemma workParts_cong:
  "list_all2 (\<lambda>w w'. removeWorkRouting w = removeWorkRouting w') works works' \<Longrightarrow>
     workParts works = workParts works'"
  by (induction rule: list_all2_induct) (simp_all split: option.splits)

lemma planHash_cong:
  "identityParts m md = identityParts m' md' \<Longrightarrow> workParts works = workParts works' \<Longrightarrow>
     planHash L m md works = planHash L m' md' works'"
  by (simp add: planHash_def)

lemma snapshotParts_other: "cs_ClusterName s \<noteq> ms_SourceCluster (mig_Spec m) \<Longrightarrow> snapshotParts m s = []"
  by (simp add: snapshotParts_def)

lemma identityParts_filter:
  "identityParts m md =
     concat (map (snapshotParts m)
       (filter (\<lambda>s. cs_ClusterName s = ms_SourceCluster (mig_Spec m)) (mdst_Clusters (md_Status md))))"
proof -
  have "concat (map (snapshotParts m) ss) =
      concat (map (snapshotParts m) (filter (\<lambda>s. cs_ClusterName s = ms_SourceCluster (mig_Spec m)) ss))" for ss
    by (induction ss) (simp_all add: snapshotParts_other)
  then show ?thesis by (simp add: identityParts_def)
qed

lemma map_filter_distinct:
  "distinct (map f xs) \<Longrightarrow> filter (\<lambda>v. f v = k) xs =
     (case find (\<lambda>v. f v = k) xs of None \<Rightarrow> [] | Some v \<Rightarrow> [v])"
proof (induction xs)
  case (Cons x xs)
  show ?case
  proof (cases "f x = k")
    case True
    with Cons.prems have "filter (\<lambda>v. f v = k) xs = []" by (auto simp: filter_empty_conv image_iff)
    with True show ?thesis by simp
  next
    case False
    with Cons show ?thesis by simp
  qed
qed simp

text \<open>For a plannable request the identity parts are the workload and one triple per mapping.\<close>

lemma identityParts_planned:
  assumes "planSnapshot m md s"
    and "\<forall>mapping\<in>set (ms_Volumes (mig_Spec m)). snapshotVolume s (vmap_SourcePVC mapping) \<noteq> None"
  shows "identityParts m md = JStr (cs_WorkloadUID s) #
     map (\<lambda>mapping. volumeIdentity (the (snapshotVolume s (vmap_SourcePVC mapping)))) (ms_Volumes (mig_Spec m))"
proof -
  have one: "identityParts m md = snapshotParts m s" and src: "cs_ClusterName s = ms_SourceCluster (mig_Spec m)"
    using assms(1) filter_set [of "\<lambda>c. cs_ClusterName c = ms_SourceCluster (mig_Spec m)" "mdst_Clusters (md_Status md)"]
    by (auto simp: identityParts_filter planSnapshot_def)
  have "filter (\<lambda>v. vm_PVCName v = n) (cs_Volumes s) = [the (snapshotVolume s n)]"
    if "snapshotVolume s n \<noteq> None" for n
    using assms(1) that map_filter_distinct [of vm_PVCName "cs_Volumes s" n]
    by (auto simp: planSnapshot_def snapshotVolume_def)
  with assms(2) have "concat (map (\<lambda>mapping.
      map volumeIdentity (filter (\<lambda>v. vm_PVCName v = vmap_SourcePVC mapping) (cs_Volumes s))) ms) =
      map (\<lambda>mapping. volumeIdentity (the (snapshotVolume s (vmap_SourcePVC mapping)))) ms"
    if "set ms \<subseteq> set (ms_Volumes (mig_Spec m))" for ms
    using that by (induction ms) auto
  then show ?thesis by (simp add: one src snapshotParts_def)
qed

end
