(* ===== verification/Migration.thy ===== *)
theory Migration
  imports Binding Plan
begin

text \<open>
  The migration controller: \<open>delay\<close>, \<open>setPhase\<close> and \<open>(*PVMigrationReconciler).Reconcile\<close> of
  \<open>internal/management/migration.go\<close> and \<open>ensureWorkRouting\<close> of
  \<open>internal/management/work_routing.go\<close>.

  The Go code updates the request \<open>m\<close> and the planned Works in place; here the loop threads
  them in a record.  The computation of one Work ends in one of three ways: an error
  (\<open>return result, err\<close>), an early return without error (\<open>None\<close>), or the state for the next
  Work.  \<open>Create\<close> overwrites the planned Work with the object the server answers with.
\<close>

section \<open>Results and status writes\<close>

definition delay :: "duration \<Rightarrow> duration" where
  "delay d = (if d \<le> 0 then 10 * second else d)"

definition withPhase :: "PVMigration \<Rightarrow> string \<Rightarrow> string \<Rightarrow> PVMigration" where
  "withPhase m phase message =
     m\<lparr> mig_Status := (mig_Status m)\<lparr> mst_Phase := phase, mst_Message := message,
        mst_ObservedGeneration := om_Generation (mig_meta m) \<rparr> \<rparr>"

definition setPhase :: "PVMigration \<Rightarrow> string \<Rightarrow> string \<Rightarrow> unit act" where
  "setPhase m phase message =
     (if mig_Status m = mig_Status (withPhase m phase message) then ret ()
      else patchMigrationStatus m (withPhase m phase message))"

text \<open>\<open>return result, f()\<close>\<close>

definition finish :: "duration \<Rightarrow> unit act \<Rightarrow> outcome act" where
  "finish result p = tryM p (\<lambda>e. ret (result, Some e)) (\<lambda>_. ret (result, None))"

definition orReturn :: "duration \<Rightarrow> 'a act \<Rightarrow> ('a \<Rightarrow> outcome act) \<Rightarrow> outcome act" where
  "orReturn result p k = tryM p (\<lambda>e. ret (result, Some e)) k"

section \<open>Repair of routing\<close>

definition updateRef :: "nat \<Rightarrow> (WorkReference \<Rightarrow> WorkReference) \<Rightarrow> PVMigration \<Rightarrow> PVMigration" where
  "updateRef i f m = set_works ((mig_Works m)[i := f (mig_Works m ! i)]) m"

definition clearRouting :: "nat \<Rightarrow> PVMigration \<Rightarrow> PVMigration" where
  "clearRouting i m = updateRef i (\<lambda>r. r\<lparr> ref_RoutingWorkUID := [] \<rparr>) m"

definition routingIntent :: "nat \<Rightarrow> jobj \<Rightarrow> PVMigration \<Rightarrow> PVMigration" where
  "routingIntent i actual m =
     updateRef i (\<lambda>r. r\<lparr> ref_RoutingWorkUID := GetUID actual, ref_RoutingGeneration := 2 \<rparr>) m"

definition ensureWorkRouting :: "libraries \<Rightarrow> PVMigration \<Rightarrow> nat \<Rightarrow> jobj \<Rightarrow> jobj \<Rightarrow> bool act" where
  "ensureWorkRouting L m index actual expected =
     (let ref = mig_Works m ! index
      in require (\<not> GetDeletionTimestamp L actual \<noteq> None) ''Work is terminating''
       (if comparableWorkSpec actual = comparableWorkSpec expected then ret False
        else
          case removeWorkRouting expected of
            None \<Rightarrow> Return Panic
          | Some legacy \<Rightarrow>
              require (\<not> (GetGeneration actual \<noteq> 1 \<or> GetUID actual = [] \<or> ref_Applied ref \<or> ref_Detached ref))
                (''Work '' @ GetName actual @ '' ownership or immutable spec conflict: '' @
                 ''refuse routing repair of modified/applied Work'')
              (check (validateWork actual legacy (clearRouting index m))
              (require (\<not> length (elems (sliceAt actual statusesPath)) \<noteq> 0)
                ''refuse routing repair with preexisting reflection''
              (if ref_RoutingWorkUID ref = []
               then andThen (patchMigrationStatus m (routingIntent index actual m)) (\<lambda>_. ret True)
               else
                 require (\<not> (ref_RoutingWorkUID ref \<noteq> GetUID actual \<or> ref_RoutingGeneration ref \<noteq> 2))
                   ''routing repair identity changed''
                 (case setWorkRouting actual of
                    None \<Rightarrow> Return Panic
                  | Some routed \<Rightarrow> andThen (patchUnstructured actual routed) (\<lambda>_. ret True)))))))"

section \<open>One planned Work\<close>

record syncState =
  sy_m :: PVMigration
  sy_works :: "jobj list"
  sy_all :: bool
  sy_observed :: "(string, jobj) fmap"

definition refKey :: "WorkReference \<Rightarrow> namespaced_name" where
  "refKey ref = objectKey (object WorkGVK (ref_Namespace ref) (ref_Name ref))"

definition refMatches :: "WorkReference \<Rightarrow> jobj \<Rightarrow> bool" where
  "refMatches ref expected \<longleftrightarrow>
     \<not> (ref_Name ref \<noteq> GetName expected \<or> ref_Namespace ref \<noteq> GetNamespace expected \<or>
        ref_Standalone ref \<noteq> standaloneWork expected)"

definition createMissing :: "nat \<Rightarrow> syncState \<Rightarrow> syncState option act" where
  "createMissing i s =
     (let ref = mig_Works (sy_m s) ! i
      in require (\<not> ref_RoutingWorkUID ref \<noteq> []) ''routing repair Work disappeared; refusing recreation''
       (require (\<not> ref_Applied ref)
          (''applied Work '' @ ref_Name ref @ '' disappeared before cleanup; inspect retained PV before recovery'')
       (tryM (createUnstructured (sy_works s ! i))
          (\<lambda>e. if isAlreadyExists e then ret (Some (s\<lparr> sy_all := False \<rparr>)) else raise e)
          (\<lambda>created. ret (Some (s\<lparr> sy_all := False, sy_works := (sy_works s)[i := created] \<rparr>))))))"

definition observeWork :: "libraries \<Rightarrow> nat \<Rightarrow> jobj \<Rightarrow> syncState \<Rightarrow> syncState" where
  "observeWork L i actual s =
     (let applied = workApplied L actual
      in s\<lparr> sy_m := updateRef i (\<lambda>r. r\<lparr> ref_Applied := applied \<rparr>) (sy_m s),
            sy_observed := fmupd (GetName actual) actual (sy_observed s),
            sy_all := (sy_all s \<and> applied) \<rparr>)"

definition syncWork :: "libraries \<Rightarrow> nat \<Rightarrow> syncState \<Rightarrow> syncState option act" where
  "syncWork L i s =
     (let m = sy_m s; expected = sy_works s ! i; ref = mig_Works m ! i
      in require (refMatches ref expected) ''migration Work identity changed''
       (if ref_Detached ref then ret (Some s)
        else
          tryM (getUnstructured WorkGVK (refKey ref))
            (\<lambda>e. if isNotFound e then createMissing i s else raise e)
            (\<lambda>actual.
               andThen (ensureWorkRouting L m i actual expected)
                 (\<lambda>changed.
                    if changed then ret None
                    else check (validateWork actual expected m) (ret (Some (observeWork L i actual s)))))))"

fun syncWorks :: "libraries \<Rightarrow> nat list \<Rightarrow> syncState \<Rightarrow> syncState option act" where
  "syncWorks L [] s = ret (Some s)"
| "syncWorks L (i # is) s =
     andThen (syncWork L i s) (\<lambda>r. case r of None \<Rightarrow> ret None | Some s' \<Rightarrow> syncWorks L is s')"

section \<open>The binding receipts\<close>

definition bindReceipt :: "libraries \<Rightarrow> nat \<Rightarrow> syncState \<Rightarrow> syncState option" where
  "bindReceipt L i s =
     (let ref = mig_Works (sy_m s) ! i
      in if \<not> ref_Standalone ref \<or> ref_Detached ref then Some s
         else
           let pvName = sget (GetLabels (sy_works s ! i)) standalonePairLabel
           in case splitPairApplied L (fmlookup (sy_observed s) pvName) (fmlookup (sy_observed s) (pvName @ ''-pvc'')) of
                None \<Rightarrow> None
              | Some (pvUID, pvcUID, ready) \<Rightarrow>
                  Some (s\<lparr> sy_m := updateRef i (\<lambda>r. r\<lparr> ref_Applied := ready, ref_PVUID := pvUID,
                                 ref_PVCUID := pvcUID \<rparr>) (sy_m s),
                           sy_all := (sy_all s \<and> ready) \<rparr>))"

fun bindReceipts :: "libraries \<Rightarrow> nat list \<Rightarrow> syncState \<Rightarrow> syncState option" where
  "bindReceipts L [] s = Some s"
| "bindReceipts L (i # is) s = (case bindReceipt L i s of None \<Rightarrow> None | Some s' \<Rightarrow> bindReceipts L is s')"

definition progressStatus :: "syncState \<Rightarrow> PVMigration" where
  "progressStatus s =
     (if sy_all s then withPhase (sy_m s) ''Ready'' ''PV application confirmed; cleanup may detach Works''
      else withPhase (sy_m s) ''Preparing'' ''Waiting for Applied Work and reflected Available/Bound PV'')"

section \<open>The reconciler\<close>

definition workReference :: "jobj \<Rightarrow> WorkReference" where
  "workReference w =
     \<lparr> ref_PVUID = [], ref_PVCUID = [], ref_Standalone = standaloneWork w, ref_RoutingWorkUID = [],
       ref_RoutingGeneration = 0, ref_Name = GetName w, ref_Namespace = GetNamespace w,
       ref_Applied = False, ref_Detached = False \<rparr>"

definition recordPlan :: "PVMigration \<Rightarrow> string \<Rightarrow> jobj list \<Rightarrow> PVMigration" where
  "recordPlan m hash works =
     withPhase (m\<lparr> mig_Status := (mig_Status m)\<lparr> mst_PlanHash := hash,
                    mst_Works := mig_Works m @ map workReference works \<rparr> \<rparr>)
       ''Preparing'' ''PV Work identities recorded''"

definition startState :: "PVMigration \<Rightarrow> jobj list \<Rightarrow> syncState" where
  "startState m works = \<lparr> sy_m = m, sy_works = works, sy_all = True, sy_observed = fmempty \<rparr>"

definition applyPlan :: "libraries \<Rightarrow> duration \<Rightarrow> PVMigration \<Rightarrow> jobj list \<Rightarrow> outcome act" where
  "applyPlan L result m works =
     orReturn result (syncWorks L [0..<length works] (startState m works))
       (\<lambda>r. case r of
          None \<Rightarrow> ret (result, None)
        | Some s \<Rightarrow>
            (case bindReceipts L [0..<length (mig_Works (sy_m s))] s of
               None \<Rightarrow> Return Panic
             | Some s' \<Rightarrow>
                 (if mig_Status m \<noteq> mig_Status (progressStatus s')
                  then finish result (patchMigrationStatus m (progressStatus s'))
                  else ret (result, None))))"

definition followPlan :: "libraries \<Rightarrow> duration \<Rightarrow> PVMigration \<Rightarrow> string \<Rightarrow> jobj list \<Rightarrow> outcome act" where
  "followPlan L result m hash works =
     (if length (mig_Works m) = 0 then finish result (patchMigrationStatus m (recordPlan m hash works))
      else if mst_PlanHash (mig_Status m) \<noteq> hash
      then finish result (setPhase m ''Pending'' (''source snapshot identities/specs changed after planning; '' @
             ''inspect existing Works before starting a new request''))
      else if length (mig_Works m) \<noteq> length works
      then finish result (setPhase m ''Failed'' ''immutable migration plan differs from recorded Works'')
      else applyPlan L result m works)"

definition migrationDone :: "PVMigration \<Rightarrow> bool" where
  "migrationDone m \<longleftrightarrow>
     \<not> IsZero (om_DeletionTimestamp (mig_meta m)) \<or> mig_Phase m = ''Completed'' \<or> mig_Phase m = ''Ready''"

definition MigrationReconcile :: "libraries \<Rightarrow> duration \<Rightarrow> namespaced_name \<Rightarrow> outcome act" where
  "MigrationReconcile L poll req =
     tryM (getMigration req) (\<lambda>e. ret (0, IgnoreNotFound e))
       (\<lambda>m.
          if migrationDone m then ret (0, None)
          else
            let result = delay poll
            in orReturn result (getMetadata (mig_Namespace m, ms_MetadataRef (mig_Spec m)))
              (\<lambda>md.
                 tryM (validateBinding L m md)
                   (\<lambda>e. finish result (setPhase m ''Pending'' (error_text e)))
                   (\<lambda>_.
                      case BuildWorks L m md of
                        Panic \<Rightarrow> Return Panic
                      | Err e \<Rightarrow> finish result (setPhase m ''Pending'' (error_text e))
                      | Ok works \<Rightarrow>
                          (case planHash L m md works of
                             Panic \<Rightarrow> Return Panic
                           | Err e \<Rightarrow> ret (result, Some e)
                           | Ok hash \<Rightarrow> followPlan L result m hash works))))"

end
