(* ===== verification/Cleanup.thy ===== *)
theory Cleanup
  imports Migration
begin

text \<open>
  The cleanup controller, \<open>(*PVCleanupReconciler).Reconcile\<close> of
  \<open>internal/management/cleanup.go\<close>: it detaches the Works of a \<open>Ready\<close> request one by one and
  completes the request in a later pass that finds all of them gone.
\<close>

section \<open>One recorded Work\<close>

text \<open>\<open>for _, expected := range works\<close>: every planned Work of that name is checked.\<close>

fun matchPlanned :: "PVMigration \<Rightarrow> WorkReference \<Rightarrow> jobj \<Rightarrow> jobj list \<Rightarrow> bool \<Rightarrow> bool go" where
  "matchPlanned m ref w [] matched = Ok matched"
| "matchPlanned m ref w (expected # rest) matched =
     (if GetName expected = GetName w \<and> GetNamespace expected = GetNamespace w
      then (if ref_Standalone ref \<noteq> standaloneWork expected
            then fail ''cleanup Work kind differs from recorded plan''
            else (case validateWork w expected m of
                    Some e \<Rightarrow> Err e
                  | None \<Rightarrow> matchPlanned m ref w rest True))
      else matchPlanned m ref w rest matched)"

definition planStillMatches :: "libraries \<Rightarrow> PVMigration \<Rightarrow> PVMetadata \<Rightarrow> WorkReference \<Rightarrow> jobj \<Rightarrow> unit go" where
  "planStillMatches L m md ref w =
     go_bind (BuildWorks L m md)
       (\<lambda>works. case planHash L m md works of
          Panic \<Rightarrow> Panic
        | Err e \<Rightarrow> fail ''repair cleanup plan changed''
        | Ok hash \<Rightarrow>
            (if hash \<noteq> mst_PlanHash (mig_Status m) then fail ''repair cleanup plan changed''
             else go_bind (matchPlanned m ref w works False)
               (\<lambda>matched. if \<not> matched then fail ''repair cleanup Work absent from plan'' else Ok ())))"

definition deleteWork :: "jobj \<Rightarrow> unit act" where
  "deleteWork w =
     tryM (deleteUnstructured w (GetUID w) (GetResourceVersion w))
       (\<lambda>e. if isNotFound e then ret () else raise e) ret"

record cleanupState =
  cl_m :: PVMigration
  cl_all :: bool

definition detachFound :: "libraries \<Rightarrow> nat \<Rightarrow> jobj \<Rightarrow> cleanupState \<Rightarrow> cleanupState act" where
  "detachFound L i w s =
     (let m = cl_m s; ref = mig_Works m ! i
      in require (\<not> (sget (GetLabels w) OwnerLabel \<noteq> mig_UID m \<or> sget (GetLabels w) ManagedLabel \<noteq> ManagerName \<or>
                    \<not> boolAt w [''spec'', ''preserveResourcesOnDeletion''] \<or> \<not> workGenerationAllowed w m))
           (''refuse deletion: Work '' @ ref_Name ref @ '' ownership/preservation changed'')
       (let s = s\<lparr> cl_all := False \<rparr>
        in if \<not> IsZero (GetDeletionTimestamp L w) then ret s
           else
             require (workApplied L w) (''Work '' @ ref_Name ref @ '' no longer has valid PV application evidence'')
             (require (\<not> (ref_Standalone ref \<and> \<not> standaloneReceiptMatches L w ref))
               (''Work '' @ ref_Name ref @ '' binding differs from durable Ready receipt'')
             (andThen
               (if ref_RoutingWorkUID ref \<noteq> [] \<or> ref_Standalone ref
                then andThen (getMetadata (mig_Namespace m, ms_MetadataRef (mig_Spec m)))
                       (\<lambda>md. Return (planStillMatches L m md ref w))
                else ret ())
               (\<lambda>_. andThen (deleteWork w) (\<lambda>_. ret s))))))"

definition detachWork :: "libraries \<Rightarrow> nat \<Rightarrow> cleanupState \<Rightarrow> cleanupState act" where
  "detachWork L i s =
     (let m = cl_m s; ref = mig_Works m ! i
      in require (ref_Applied ref) (''Work '' @ ref_Name ref @ '' not durably applied'')
       (if ref_Detached ref then ret s
        else
          require (\<not> ref_Namespace ref \<noteq> ''karmada-es-'' @ ms_TargetCluster (mig_Spec m))
            ''Work namespace ownership mismatch''
          (tryM (getUnstructured WorkGVK (refKey ref))
             (\<lambda>e. if isNotFound e
                  then ret (s\<lparr> cl_m := updateRef i (\<lambda>r. r\<lparr> ref_Detached := True \<rparr>) m \<rparr>)
                  else raise e)
             (\<lambda>w. detachFound L i w s))))"

fun detachWorks :: "libraries \<Rightarrow> nat list \<Rightarrow> cleanupState \<Rightarrow> cleanupState act" where
  "detachWorks L [] s = ret s"
| "detachWorks L (i # is) s = andThen (detachWork L i s) (detachWorks L is)"

section \<open>The reconciler\<close>

definition completedStatus :: "cleanupState \<Rightarrow> PVMigration" where
  "completedStatus s =
     (if cl_all s
      then (cl_m s)\<lparr> mig_Status := (mig_Status (cl_m s))\<lparr> mst_Phase := ''Completed'',
             mst_Message := ''All PV Works detached; retained PVs remain. Workload placement/restore is a separate gate.'' \<rparr> \<rparr>
      else cl_m s)"

definition CleanupReconcile :: "libraries \<Rightarrow> duration \<Rightarrow> namespaced_name \<Rightarrow> outcome act" where
  "CleanupReconcile L poll req =
     tryM (getMigration req) (\<lambda>e. ret (0, IgnoreNotFound e))
       (\<lambda>m.
          if \<not> IsZero (om_DeletionTimestamp (mig_meta m)) \<or> mig_Phase m \<noteq> ''Ready'' then ret (0, None)
          else
            let result = delay poll
            in if mst_ObservedGeneration (mig_Status m) \<noteq> om_Generation (mig_meta m) \<or> length (mig_Works m) = 0
               then ret (result, Some (GoError ''migration has no current durable application evidence''))
               else
                 orReturn result (detachWorks L [0..<length (mig_Works m)] \<lparr> cl_m = m, cl_all = True \<rparr>)
                   (\<lambda>s.
                      if mig_Status m \<noteq> mig_Status (completedStatus s)
                      then finish result (patchMigrationStatus m (completedStatus s))
                      else ret (result, None)))"

end
