(* ===== verification/BindingFacts.thy ===== *)
theory BindingFacts
  imports Binding
begin

text \<open>
  What the gate of a request stands for: the successful traces of \<open>validateBinding\<close> in closed
  form, the reservation of target claims as mutual exclusion, and the completeness of target
  ordinals.
\<close>

section \<open>Ordinals\<close>

lemma validOrdinalPVC_split:
  "validOrdinalPVC L name prefix \<Longrightarrow>
     \<exists>ordinal. name = prefix @ ordinal \<and> ordinal \<noteq> [] \<and> list_all isDigit ordinal \<and>
       (length ordinal > 1 \<longrightarrow> hd ordinal \<noteq> CHR ''0'') \<and> lib_IsDNS1123Subdomain L name = []"
proof -
  assume valid: "validOrdinalPVC L name prefix"
  then have "take (length prefix) name = prefix" by (auto simp: validOrdinalPVC_def split: if_splits)
  then have "name = prefix @ drop (length prefix) name" by (metis append_take_drop_id)
  with valid show ?thesis
    by (intro exI [of _ "drop (length prefix) name"]) (auto simp: validOrdinalPVC_def Let_def split: if_splits)
qed

lemma validOrdinalPVC_append:
  "validOrdinalPVC L (prefix @ ordinal) prefix \<longleftrightarrow>
     ordinal \<noteq> [] \<and> list_all isDigit ordinal \<and> (length ordinal > 1 \<longrightarrow> hd ordinal \<noteq> CHR ''0'') \<and>
     lib_IsDNS1123Subdomain L (prefix @ ordinal) = []"
  by (auto simp: validOrdinalPVC_def Let_def)

text \<open>A name belongs to one template only: its ordinal is what follows the last dash.\<close>

lemma dash_not_digit [simp]: "\<not> isDigit CHR ''-''"
  by (simp add: isDigit_iff)

lemma ordinal_unique:
  assumes "p @ CHR ''-'' # ds = q @ CHR ''-'' # es" and "list_all isDigit ds" and "list_all isDigit es"
  shows "p = q \<and> ds = es"
proof -
  have "takeWhile isDigit (rev (zs @ CHR ''-'' # w)) = rev w" if "list_all isDigit w" for zs w
  proof -
    have "takeWhile isDigit (rev w @ CHR ''-'' # rev zs) = rev w @ takeWhile isDigit (CHR ''-'' # rev zs)"
      by (rule takeWhile_append2) (use that in \<open>auto simp: list_all_iff\<close>)
    then show ?thesis by simp
  qed
  with assms have "rev ds = rev es" by metis
  with assms(1) show ?thesis by simp
qed

lemma templatePrefix_unique:
  assumes "validOrdinalPVC L name (templatePrefix sts t)" and "validOrdinalPVC L name (templatePrefix sts u)"
  shows "t = u"
proof -
  let ?stem = "\<lambda>t. t @ ''-'' @ om_Name (sts_meta sts)"
  have prefix: "templatePrefix sts t = ?stem t @ ''-''" for t by (simp add: templatePrefix_def)
  from validOrdinalPVC_split [OF assms(1)] obtain ds where
    ds: "name = ?stem t @ CHR ''-'' # ds" "list_all isDigit ds" by (auto simp: prefix)
  from validOrdinalPVC_split [OF assms(2)] obtain es where
    es: "name = ?stem u @ CHR ''-'' # es" "list_all isDigit es" by (auto simp: prefix)
  have "?stem t = ?stem u"
    using ordinal_unique [OF ds(1) [symmetric, unfolded es(1), symmetric]] ds(2) es(2) by blast
  then show ?thesis by simp
qed

lemma matchTemplate_Some_iff:
  "matchTemplate L sts target templates = Some (ordinal, t) \<longleftrightarrow>
     t \<in> set templates \<and> target = templatePrefix sts t @ ordinal \<and>
     validOrdinalPVC L target (templatePrefix sts t)"
proof (induction templates)
  case (Cons u rest)
  show ?case
  proof (cases "validOrdinalPVC L target (templatePrefix sts u)")
    case True
    then obtain o' where "target = templatePrefix sts u @ o'" using validOrdinalPVC_split by blast
    with True show ?thesis by (auto dest: templatePrefix_unique)
  next
    case False
    with Cons show ?thesis by auto
  qed
qed simp

lemma matchTemplate_None_iff:
  "matchTemplate L sts target templates = None \<longleftrightarrow>
     (\<forall>t\<in>set templates. \<not> validOrdinalPVC L target (templatePrefix sts t))"
  by (induction templates) auto

text \<open>The templates a list of mappings covers at one ordinal.\<close>

definition coveredTemplates ::
  "libraries \<Rightarrow> StatefulSet \<Rightarrow> (string, bool) fmap \<Rightarrow> VolumeMapping list \<Rightarrow> string \<Rightarrow> string set" where
  "coveredTemplates L sts marked mappings ordinal =
     {t \<in> set (sts_VolumeClaimTemplates sts).
        \<exists>mapping\<in>set mappings. fmlookup marked (vmap_SourcePVC mapping) \<noteq> Some True \<and>
          vmap_TargetPVC mapping = templatePrefix sts t @ ordinal \<and>
          validOrdinalPVC L (vmap_TargetPVC mapping) (templatePrefix sts t)}"

definition templatesAt :: "ordinal_templates \<Rightarrow> string \<Rightarrow> string list" where
  "templatesAt byOrdinal ordinal = (case map_of byOrdinal ordinal of None \<Rightarrow> [] | Some ts \<Rightarrow> ts)"

lemma templatesAt_addTemplate:
  "templatesAt (addTemplate ordinal t by_ord) k =
     (if k = ordinal then addKey t (templatesAt by_ord k) else templatesAt by_ord k)"
  by (auto simp: templatesAt_def addTemplate_def update_conv')

lemma keys_addTemplate [simp]: "set (map fst (addTemplate ordinal t by_ord)) = insert ordinal (set (map fst by_ord))"
  by (simp add: addTemplate_def update_keys del: set_map) auto

text \<open>A mapping's target: a standalone claim kept by name, or an ordinal \<open>P\<close> accepts.\<close>

definition targetPlaced ::
  "libraries \<Rightarrow> StatefulSet \<Rightarrow> string list \<Rightarrow> (string, bool) fmap \<Rightarrow> (string \<Rightarrow> bool) \<Rightarrow> VolumeMapping \<Rightarrow> bool" where
  "targetPlaced L sts standalone marked P mapping \<longleftrightarrow>
     (if fmlookup marked (vmap_SourcePVC mapping) = Some True
      then vmap_SourcePVC mapping \<in> set standalone \<and> vmap_TargetPVC mapping = vmap_SourcePVC mapping
      else \<exists>t\<in>set (sts_VolumeClaimTemplates sts). \<exists>ordinal.
             vmap_TargetPVC mapping = templatePrefix sts t @ ordinal \<and>
             validOrdinalPVC L (vmap_TargetPVC mapping) (templatePrefix sts t) \<and> P ordinal)"

lemma targetPlaced_mono:
  "targetPlaced L sts standalone marked P mapping \<Longrightarrow> (\<And>k. P k \<Longrightarrow> Q k) \<Longrightarrow>
     targetPlaced L sts standalone marked Q mapping"
  unfolding targetPlaced_def by (auto split: if_splits)

lemma groupOrdinals_Ok:
  assumes "groupOrdinals L sts standalone marked mappings by0 = Ok by1"
    and "\<And>k. distinct (templatesAt by0 k)"
  shows "distinct (templatesAt by1 k) \<and>
     set (templatesAt by1 k) = set (templatesAt by0 k) \<union> coveredTemplates L sts marked mappings k \<and>
     set (map fst by0) \<subseteq> set (map fst by1) \<and>
     (\<forall>mapping\<in>set mappings. targetPlaced L sts standalone marked (\<lambda>k. k \<in> set (map fst by1)) mapping)"
  using assms
proof (induction mappings arbitrary: by0)
  case Nil
  then show ?case by (simp add: coveredTemplates_def)
next
  case (Cons mapping rest)
  show ?case
  proof (cases "fmlookup marked (vmap_SourcePVC mapping) = Some True")
    case True
    with Cons.prems have here: "vmap_SourcePVC mapping \<in> set standalone" "vmap_TargetPVC mapping = vmap_SourcePVC mapping"
      and rest: "groupOrdinals L sts standalone marked rest by0 = Ok by1"
      by (auto split: if_splits)
    have "coveredTemplates L sts marked (mapping # rest) k = coveredTemplates L sts marked rest k"
      using True by (auto simp: coveredTemplates_def)
    moreover have "targetPlaced L sts standalone marked P mapping" for P
      using here True by (simp add: targetPlaced_def)
    ultimately show ?thesis using Cons.IH [OF rest Cons.prems(2)] by simp
  next
    case False
    with Cons.prems obtain ordinal t where
        m: "matchTemplate L sts (vmap_TargetPVC mapping) (sts_VolumeClaimTemplates sts) = Some (ordinal, t)"
      and rest: "groupOrdinals L sts standalone marked rest (addTemplate ordinal t by0) = Ok by1"
      by (auto split: option.splits)
    have t: "t \<in> set (sts_VolumeClaimTemplates sts)" "vmap_TargetPVC mapping = templatePrefix sts t @ ordinal"
      "validOrdinalPVC L (vmap_TargetPVC mapping) (templatePrefix sts t)"
      using m unfolding matchTemplate_Some_iff by blast+
    have "\<And>k. distinct (templatesAt (addTemplate ordinal t by0) k)"
      using Cons.prems(2) by (simp add: templatesAt_addTemplate)
    note IH = Cons.IH [OF rest this]
    have cover: "coveredTemplates L sts marked (mapping # rest) k =
        (if k = ordinal then insert t (coveredTemplates L sts marked rest k) else coveredTemplates L sts marked rest k)"
      using False t by (auto simp: coveredTemplates_def dest: templatePrefix_unique)
    have keys: "ordinal \<in> set (map fst by1)" "set (map fst by0) \<subseteq> set (map fst by1)"
      using IH unfolding keys_addTemplate by blast+
    with False t have "targetPlaced L sts standalone marked (\<lambda>k. k \<in> set (map fst by1)) mapping"
      unfolding targetPlaced_def by auto
    with IH keys cover show ?thesis
      by (simp add: templatesAt_addTemplate del: set_map)
  qed
qed

lemma groupOrdinals_no_panic: "groupOrdinals L sts standalone marked mappings by0 \<noteq> Panic"
  by (induction mappings arbitrary: by0) (auto split: option.split)

lemma covers_all:
  assumes "distinct ts" and "set ts \<subseteq> set templates" and "length ts = length templates"
  shows "set ts = set templates"
  using assms by (metis card_length card_subset_eq distinct_card List.finite_set card_mono order_antisym)

text \<open>The declarative reading of the check on the targets.\<close>

definition targetsAccepted :: "libraries \<Rightarrow> PVMigration \<Rightarrow> PVMetadata \<Rightarrow> StatefulSet \<Rightarrow> bool" where
  "targetsAccepted L m md sts \<longleftrightarrow>
     (\<forall>mapping\<in>set (ms_Volumes (mig_Spec m)).
        targetPlaced L sts (Standalone L sts) (markedStandalone m md)
          (\<lambda>ordinal. coveredTemplates L sts (markedStandalone m md) (ms_Volumes (mig_Spec m)) ordinal =
             set (sts_VolumeClaimTemplates sts)) mapping)"

lemma targetsCheck_None:
  assumes "targetsCheck L m md sts = None" and "\<And>ks. mset (lib_RangeOrder L ks) = mset ks"
  shows "targetsAccepted L m md sts"
proof -
  let ?marked = "markedStandalone m md" and ?ms = "ms_Volumes (mig_Spec m)"
  obtain by1 where group: "groupOrdinals L sts (Standalone L sts) ?marked ?ms [] = Ok by1"
    and full: "first_error (ordinalComplete sts by1) (lib_RangeOrder L (map fst by1)) = None"
    using assms(1) groupOrdinals_no_panic by (auto simp: targetsCheck_def split: go.splits)
  have "\<And>k. distinct (templatesAt [] k)" by (simp add: templatesAt_def)
  note facts = groupOrdinals_Ok [OF group this]
  have keys: "set (lib_RangeOrder L (map fst by1)) = set (map fst by1)"
    using assms(2) mset_eq_setD by blast
  have "coveredTemplates L sts ?marked ?ms k = set (sts_VolumeClaimTemplates sts)" if "k \<in> set (map fst by1)" for k
  proof -
    have "length (templatesAt by1 k) = length (sts_VolumeClaimTemplates sts)"
      using full that keys
      by (auto simp: first_error_None_iff ordinalComplete_def templatesAt_def split: if_splits)
    moreover have "set (templatesAt by1 k) = coveredTemplates L sts ?marked ?ms k"
      using facts [of k] by (simp add: templatesAt_def)
    ultimately show ?thesis
      using facts [of k] covers_all [of "templatesAt by1 k" "sts_VolumeClaimTemplates sts"]
      by (auto simp: coveredTemplates_def)
  qed
  with facts show ?thesis unfolding targetsAccepted_def by (blast intro: targetPlaced_mono)
qed

text \<open>The check on the targets passes exactly under conditions on the mappings alone.\<close>

lemma groupOrdinals_succeeds:
  "(\<exists>by1. groupOrdinals L sts standalone marked mappings by0 = Ok by1) \<longleftrightarrow>
     (\<forall>mapping\<in>set mappings. targetPlaced L sts standalone marked (\<lambda>_. True) mapping)"
proof (induction mappings arbitrary: by0)
  case (Cons mapping rest)
  show ?case
  proof (cases "fmlookup marked (vmap_SourcePVC mapping) = Some True")
    case True
    with Cons show ?thesis by (auto simp: targetPlaced_def)
  next
    case False
    show ?thesis
    proof (cases "matchTemplate L sts (vmap_TargetPVC mapping) (sts_VolumeClaimTemplates sts)")
      case None
      then have "\<not> targetPlaced L sts standalone marked (\<lambda>_. True) mapping"
        using False by (auto simp: targetPlaced_def matchTemplate_None_iff)
      with False None show ?thesis by simp
    next
      case (Some p)
      then obtain ordinal t where p: "p = (ordinal, t)" by (cases p)
      with Some have "targetPlaced L sts standalone marked (\<lambda>_. True) mapping"
        using False unfolding targetPlaced_def by (auto simp: matchTemplate_Some_iff)
      with Cons False Some p show ?thesis by simp
    qed
  qed
qed simp

lemma groupOrdinals_keys:
  "groupOrdinals L sts standalone marked mappings by0 = Ok by1 \<Longrightarrow> k \<in> set (map fst by1) \<Longrightarrow>
     k \<in> set (map fst by0) \<or> coveredTemplates L sts marked mappings k \<noteq> {}"
proof (induction mappings arbitrary: by0)
  case (Cons mapping rest)
  have more: "coveredTemplates L sts marked rest k \<subseteq> coveredTemplates L sts marked (mapping # rest) k"
    by (auto simp: coveredTemplates_def)
  show ?case
  proof (cases "fmlookup marked (vmap_SourcePVC mapping) = Some True")
    case True
    with Cons.prems have "groupOrdinals L sts standalone marked rest by0 = Ok by1" by (auto split: if_splits)
    from Cons.IH [OF this Cons.prems(2)] more show ?thesis by blast
  next
    case False
    with Cons.prems obtain ordinal t where
        m: "matchTemplate L sts (vmap_TargetPVC mapping) (sts_VolumeClaimTemplates sts) = Some (ordinal, t)"
      and rest: "groupOrdinals L sts standalone marked rest (addTemplate ordinal t by0) = Ok by1"
      by (auto split: option.splits)
    have "t \<in> coveredTemplates L sts marked (mapping # rest) ordinal"
      using m False unfolding matchTemplate_Some_iff coveredTemplates_def by auto
    with Cons.IH [OF rest Cons.prems(2)] more show ?thesis
      unfolding keys_addTemplate by blast
  qed
qed simp

lemma covers_iff:
  assumes "C \<subseteq> set ts"
  shows "card C = length ts \<longleftrightarrow> distinct ts \<and> C = set ts"
  using assms by (metis List.finite_set card_distinct card_length card_mono card_subset_eq distinct_card order_antisym)

definition ordinalCovered :: "libraries \<Rightarrow> PVMigration \<Rightarrow> PVMetadata \<Rightarrow> StatefulSet \<Rightarrow> string \<Rightarrow> bool" where
  "ordinalCovered L m md sts ordinal \<longleftrightarrow>
     distinct (sts_VolumeClaimTemplates sts) \<and>
     coveredTemplates L sts (markedStandalone m md) (ms_Volumes (mig_Spec m)) ordinal = set (sts_VolumeClaimTemplates sts)"

lemma used_ordinals_covered:
  "(\<forall>mapping\<in>set (ms_Volumes (mig_Spec m)).
      targetPlaced L sts standalone (markedStandalone m md) (ordinalCovered L m md sts) mapping) \<longleftrightarrow>
   (\<forall>mapping\<in>set (ms_Volumes (mig_Spec m)).
      targetPlaced L sts standalone (markedStandalone m md) (\<lambda>_. True) mapping) \<and>
   (\<forall>k. coveredTemplates L sts (markedStandalone m md) (ms_Volumes (mig_Spec m)) k \<noteq> {} \<longrightarrow> ordinalCovered L m md sts k)"
    (is "?all \<longleftrightarrow> ?some \<and> ?covered")
proof (intro iffI conjI)
  assume ?all
  then show ?some by (blast intro: targetPlaced_mono)
  show ?covered
  proof (intro allI impI)
    fix k
    assume "coveredTemplates L sts (markedStandalone m md) (ms_Volumes (mig_Spec m)) k \<noteq> {}"
    then obtain t mapping where t: "mapping \<in> set (ms_Volumes (mig_Spec m))"
      "fmlookup (markedStandalone m md) (vmap_SourcePVC mapping) \<noteq> Some True"
      "vmap_TargetPVC mapping = templatePrefix sts t @ k" "validOrdinalPVC L (vmap_TargetPVC mapping) (templatePrefix sts t)"
      by (auto simp: coveredTemplates_def)
    with \<open>?all\<close> obtain u o' where u: "vmap_TargetPVC mapping = templatePrefix sts u @ o'"
      "validOrdinalPVC L (vmap_TargetPVC mapping) (templatePrefix sts u)" "ordinalCovered L m md sts o'"
      unfolding targetPlaced_def by (metis (no_types, lifting))
    with t templatePrefix_unique [OF t(4) u(2)] show "ordinalCovered L m md sts k" by simp
  qed
next
  assume both: "?some \<and> ?covered"
  show ?all
  proof
    fix mapping
    assume mem: "mapping \<in> set (ms_Volumes (mig_Spec m))"
    with both have some: "targetPlaced L sts standalone (markedStandalone m md) (\<lambda>_. True) mapping" by blast
    show "targetPlaced L sts standalone (markedStandalone m md) (ordinalCovered L m md sts) mapping"
    proof (cases "fmlookup (markedStandalone m md) (vmap_SourcePVC mapping) = Some True")
      case True
      with some show ?thesis by (simp add: targetPlaced_def)
    next
      case False
      with some obtain t k where t: "t \<in> set (sts_VolumeClaimTemplates sts)" "vmap_TargetPVC mapping = templatePrefix sts t @ k"
        "validOrdinalPVC L (vmap_TargetPVC mapping) (templatePrefix sts t)"
        unfolding targetPlaced_def by (metis (no_types, lifting))
      with False mem have "t \<in> coveredTemplates L sts (markedStandalone m md) (ms_Volumes (mig_Spec m)) k"
        unfolding coveredTemplates_def by blast
      with both have "ordinalCovered L m md sts k" by blast
      with False t show ?thesis unfolding targetPlaced_def by auto
    qed
  qed
qed

lemma groupOrdinals_sizes:
  assumes group: "groupOrdinals L sts standalone marked ms [] = Ok by1"
  shows "(\<forall>k\<in>set (map fst by1). length (templatesAt by1 k) = n) \<longleftrightarrow>
     (\<forall>k. coveredTemplates L sts marked ms k \<noteq> {} \<longrightarrow> card (coveredTemplates L sts marked ms k) = n)"
proof -
  have "\<And>k. distinct (templatesAt [] k)" by (simp add: templatesAt_def)
  note facts = groupOrdinals_Ok [OF group this]
  have at: "length (templatesAt by1 k) = card (coveredTemplates L sts marked ms k)" for k
    using facts [of k] distinct_card [of "templatesAt by1 k"] by (simp add: templatesAt_def)
  have "k \<in> set (map fst by1) \<longleftrightarrow> coveredTemplates L sts marked ms k \<noteq> {}" for k
  proof
    show "k \<in> set (map fst by1) \<Longrightarrow> coveredTemplates L sts marked ms k \<noteq> {}"
      using groupOrdinals_keys [OF group] by simp
    assume "coveredTemplates L sts marked ms k \<noteq> {}"
    moreover have "set (templatesAt by1 k) = coveredTemplates L sts marked ms k"
      using facts [of k] by (simp add: templatesAt_def [of "[]"])
    ultimately have "templatesAt by1 k \<noteq> []" by force
    then have "map_of by1 k \<noteq> None" by (auto simp: templatesAt_def split: option.splits)
    then show "k \<in> set (map fst by1)" by (simp add: map_of_eq_None_iff)
  qed
  then show ?thesis by (simp only: at Ball_def)
qed

lemma targetsCheck_None_iff:
  assumes "\<forall>ks. mset (lib_RangeOrder L ks) = mset ks"
  shows "targetsCheck L m md sts = None \<longleftrightarrow>
     (\<forall>mapping\<in>set (ms_Volumes (mig_Spec m)).
        targetPlaced L sts (Standalone L sts) (markedStandalone m md) (ordinalCovered L m md sts) mapping)"
proof (cases "\<exists>by1. groupOrdinals L sts (Standalone L sts) (markedStandalone m md) (ms_Volumes (mig_Spec m)) [] = Ok by1")
  case False
  then have "targetsCheck L m md sts \<noteq> None"
    using groupOrdinals_no_panic by (auto simp: targetsCheck_def split: go.split)
  with False show ?thesis unfolding used_ordinals_covered groupOrdinals_succeeds by blast
next
  case True
  then obtain by1 where
    group: "groupOrdinals L sts (Standalone L sts) (markedStandalone m md) (ms_Volumes (mig_Spec m)) [] = Ok by1" by blast
  have sub: "coveredTemplates L sts marked ms k \<subseteq> set (sts_VolumeClaimTemplates sts)" for marked ms k
    by (auto simp: coveredTemplates_def)
  have "set (lib_RangeOrder L (map fst by1)) = set (map fst by1)"
    using assms mset_eq_setD by blast
  then have "targetsCheck L m md sts = None \<longleftrightarrow>
      (\<forall>k\<in>set (map fst by1). length (templatesAt by1 k) = length (sts_VolumeClaimTemplates sts))"
    unfolding targetsCheck_def group go.case first_error_None_iff
    by (simp add: ordinalComplete_def templatesAt_def del: set_map)
  with True show ?thesis
    unfolding used_ordinals_covered groupOrdinals_succeeds groupOrdinals_sizes [OF group] ordinalCovered_def
      covers_iff [OF sub] by blast
qed

text \<open>Which sources count as standalone: the last volume of that name in the source's snapshots decides.\<close>

definition countsStandalone :: "PVMigration \<Rightarrow> PVMetadata \<Rightarrow> string \<Rightarrow> bool" where
  "countsStandalone m md n \<longleftrightarrow>
     (\<exists>pre v post. concat (map cs_Volumes (filter (\<lambda>s. cs_ClusterName s = ms_SourceCluster (mig_Spec m))
          (mdst_Clusters (md_Status md)))) = pre @ v # post \<and>
        vm_PVCName v = n \<and> vm_Standalone v \<and> (\<forall>w\<in>set post. vm_PVCName w \<noteq> n))"

lemma markedStandalone_iff: "fmlookup (markedStandalone m md) n = Some True \<longleftrightarrow> countsStandalone m md n"
proof -
  have "fmlookup (fold (\<lambda>v marked. fmupd (vm_PVCName v) (vm_Standalone v) marked) vs fmempty) n = Some True \<longleftrightarrow>
      (\<exists>pre v post. vs = pre @ v # post \<and> vm_PVCName v = n \<and> vm_Standalone v \<and> (\<forall>w\<in>set post. vm_PVCName w \<noteq> n))" for vs
  proof (induction vs rule: rev_induct)
    case (snoc x xs)
    show ?case
    proof (cases "vm_PVCName x = n")
      case True
      have "(\<exists>pre v post. xs @ [x] = pre @ v # post \<and> vm_PVCName v = n \<and> vm_Standalone v \<and> (\<forall>w\<in>set post. vm_PVCName w \<noteq> n)) \<longleftrightarrow>
          vm_Standalone x"
      proof
        assume "\<exists>pre v post. xs @ [x] = pre @ v # post \<and> vm_PVCName v = n \<and> vm_Standalone v \<and> (\<forall>w\<in>set post. vm_PVCName w \<noteq> n)"
        then obtain pre v post where split: "xs @ [x] = pre @ v # post" "vm_Standalone v" "\<forall>w\<in>set post. vm_PVCName w \<noteq> n" by blast
        then show "vm_Standalone x" using True by (cases post rule: rev_cases) auto
      next
        assume "vm_Standalone x"
        with True show "\<exists>pre v post. xs @ [x] = pre @ v # post \<and> vm_PVCName v = n \<and> vm_Standalone v \<and> (\<forall>w\<in>set post. vm_PVCName w \<noteq> n)"
          by (intro exI [of _ xs] exI [of _ x] exI [of _ "[]"]) simp
      qed
      with True show ?thesis by simp
    next
      case False
      have "(\<exists>pre v post. xs @ [x] = pre @ v # post \<and> vm_PVCName v = n \<and> vm_Standalone v \<and> (\<forall>w\<in>set post. vm_PVCName w \<noteq> n)) \<longleftrightarrow>
          (\<exists>pre v post. xs = pre @ v # post \<and> vm_PVCName v = n \<and> vm_Standalone v \<and> (\<forall>w\<in>set post. vm_PVCName w \<noteq> n))"
      proof
        assume "\<exists>pre v post. xs @ [x] = pre @ v # post \<and> vm_PVCName v = n \<and> vm_Standalone v \<and> (\<forall>w\<in>set post. vm_PVCName w \<noteq> n)"
        then obtain pre v post where split: "xs @ [x] = pre @ v # post" "vm_PVCName v = n" "vm_Standalone v"
          "\<forall>w\<in>set post. vm_PVCName w \<noteq> n" by blast
        with False obtain post' where "post = post' @ [x]" "xs = pre @ v # post'" by (cases post rule: rev_cases) auto
        with split show "\<exists>pre v post. xs = pre @ v # post \<and> vm_PVCName v = n \<and> vm_Standalone v \<and> (\<forall>w\<in>set post. vm_PVCName w \<noteq> n)"
          by auto
      next
        assume "\<exists>pre v post. xs = pre @ v # post \<and> vm_PVCName v = n \<and> vm_Standalone v \<and> (\<forall>w\<in>set post. vm_PVCName w \<noteq> n)"
        then obtain pre v post where "xs = pre @ v # post" "vm_PVCName v = n" "vm_Standalone v" "\<forall>w\<in>set post. vm_PVCName w \<noteq> n" by blast
        with False show "\<exists>pre v post. xs @ [x] = pre @ v # post \<and> vm_PVCName v = n \<and> vm_Standalone v \<and> (\<forall>w\<in>set post. vm_PVCName w \<noteq> n)"
          by (intro exI [of _ pre] exI [of _ v] exI [of _ "post @ [x]"]) auto
      qed
      with snoc.IH False show ?thesis by simp
    qed
  qed simp
  then show ?thesis
    unfolding markedStandalone_def countsStandalone_def .
qed

section \<open>Reservation as mutual exclusion\<close>

text \<open>
  The age of a request is its creation time, then its UID.  Strings are compared by bytes.
\<close>

datatype age = Age time string

primrec age_key :: "age \<Rightarrow> time \<times> string" where
  "age_key (Age t u) = (t, u)"

lemma age_key_inj: "age_key a = age_key b \<Longrightarrow> a = b"
  by (cases a; cases b) simp

instantiation age :: linorder
begin

definition less_eq_age :: "age \<Rightarrow> age \<Rightarrow> bool" where
  "a \<le> b \<longleftrightarrow> fst (age_key a) < fst (age_key b) \<or>
     fst (age_key a) = fst (age_key b) \<and> snd (age_key a) \<le> snd (age_key b)"

definition less_age :: "age \<Rightarrow> age \<Rightarrow> bool" where
  "a < b \<longleftrightarrow> fst (age_key a) < fst (age_key b) \<or>
     fst (age_key a) = fst (age_key b) \<and> snd (age_key a) < snd (age_key b)"

instance
  by standard (auto simp: less_eq_age_def less_age_def intro!: age_key_inj prod_eqI)

end

definition ageOf :: "PVMigration \<Rightarrow> age" where
  "ageOf m = Age (om_CreationTimestamp (mig_meta m)) (mig_UID m)"

lemma olderPeer_age: "olderPeer peer m \<longleftrightarrow> ageOf peer < ageOf m"
  by (simp add: olderPeer_def ageOf_def less_age_def)

lemma ageOf_eq: "ageOf p = ageOf q \<Longrightarrow> mig_UID p = mig_UID q"
  by (simp add: ageOf_def)

text \<open>
  The protocol of the reservation, for any requests with an age: a request that is admitted
  has no conflicting peer in its listing that holds a reservation or is older.
\<close>

locale reservation =
  fixes age :: "'r \<Rightarrow> 'k::linorder"
    and holds :: "'r \<Rightarrow> bool"
    and conflicts :: "'r \<Rightarrow> 'r \<Rightarrow> bool"
    and admitted :: "'r \<Rightarrow> 'r list \<Rightarrow> bool"
  assumes admitted_iff: "admitted r peers \<longleftrightarrow>
      (\<forall>p\<in>set peers. conflicts p r \<longrightarrow> \<not> holds p \<and> \<not> age p < age r)"
    and conflicts_sym: "conflicts p r \<Longrightarrow> conflicts r p"
    and conflicts_age: "conflicts p r \<Longrightarrow> age p \<noteq> age r"
begin

lemma holder_excludes: "p \<in> set peers \<Longrightarrow> holds p \<Longrightarrow> conflicts p r \<Longrightarrow> \<not> admitted r peers"
  using admitted_iff by blast

lemma exclusive:
  assumes "conflicts p r" and "p \<in> set peers" and "r \<in> set peers'"
    and "admitted r peers" and "admitted p peers'"
  shows False
proof -
  have "age p < age r \<or> age r < age p" using conflicts_age [OF assms(1)] by auto
  with assms admitted_iff conflicts_sym show False by blast
qed

text \<open>Among requests that see each other at most one is admitted, and the oldest is not kept waiting.\<close>

lemma at_most_one:
  assumes "\<And>p q. p \<in> S \<Longrightarrow> q \<in> S \<Longrightarrow> p \<noteq> q \<Longrightarrow> conflicts p q"
    and "\<And>p. p \<in> S \<Longrightarrow> S \<subseteq> set (peers p)"
    and "p \<in> S" "q \<in> S" "admitted p (peers p)" "admitted q (peers q)"
  shows "p = q"
  using assms exclusive [of p q "peers q" "peers p"] by blast

lemma oldest_admitted:
  assumes "\<And>p. p \<in> set peers \<Longrightarrow> conflicts p r \<Longrightarrow> \<not> holds p \<and> age r \<le> age p"
  shows "admitted r peers"
  using assms admitted_iff by (meson leD)

end

text \<open>Two requests conflict when they ask for one claim name on one target cluster.\<close>

definition targetClaims :: "PVMigration \<Rightarrow> string set" where
  "targetClaims m = vmap_TargetPVC ` set (ms_Volumes (mig_Spec m))"

definition requestsConflict :: "PVMigration \<Rightarrow> PVMigration \<Rightarrow> bool" where
  "requestsConflict p m \<longleftrightarrow>
     mig_UID p \<noteq> mig_UID m \<and> ms_TargetCluster (mig_Spec p) = ms_TargetCluster (mig_Spec m) \<and>
     targetClaims p \<inter> targetClaims m \<noteq> {}"

definition peersAllow :: "PVMigration \<Rightarrow> PVMigration list \<Rightarrow> bool" where
  "peersAllow m peers \<longleftrightarrow> first_error (peerConflict m) peers = None"

lemma claimConflict_None_iff: "claimConflict m peer = None \<longleftrightarrow> targetClaims peer \<inter> targetClaims m = {}"
  by (auto simp: claimConflict_def first_error_None_iff targetClaims_def split: if_splits)

lemma peersAllow_iff:
  "peersAllow m peers \<longleftrightarrow>
     (\<forall>p\<in>set peers. requestsConflict p m \<longrightarrow> \<not> reservedPeer p \<and> \<not> ageOf p < ageOf m)"
  by (auto simp: peersAllow_def first_error_None_iff peerConflict_def claimConflict_None_iff
      requestsConflict_def olderPeer_age)

interpretation claims: reservation ageOf reservedPeer requestsConflict peersAllow
  by unfold_locales (auto simp: peersAllow_iff requestsConflict_def dest: ageOf_eq)

section \<open>The gate in closed form\<close>

definition holdAccepted :: "libraries \<Rightarrow> PVMigration \<Rightarrow> PVMetadata \<Rightarrow> jobj \<Rightarrow> jobj \<Rightarrow> bool" where
  "holdAccepted L m md rb request \<longleftrightarrow>
     (let a = GetAnnotations rb;
          operation = sget (om_Annotations (mig_meta m)) requestUIDKey;
          workloadUID = strAt rb [''spec'', ''resource'', ''uid'']
      in operation \<noteq> [] \<and> sget a requestUIDKey = operation \<and>
         sget a ''migration.dcnlab.com/group-volume-hold'' = operation \<and>
         mig_UID m \<noteq> [] \<and> sget a ''migration.dcnlab.com/pv-migration'' = mig_Name m \<and>
         sget a ''migration.dcnlab.com/pv-migration-uid'' = mig_UID m \<and>
         GetUID rb \<noteq> [] \<and> GetDeletionTimestamp L rb = None \<and> IsZero (om_DeletionTimestamp (md_meta md)) \<and>
         workloadUID = wr_UID (mds_WorkloadRef (md_Spec md)) \<and>
         strAt rb [''spec'', ''resource'', ''namespace''] = mig_Namespace m \<and>
         sget a ''training.dcnlab.com/placement-restore-request'' \<noteq> [] \<and>
         GetUID request = operation \<and> GetDeletionTimestamp L request = None \<and>
         (\<forall>(path, want)\<in>set (holdChecks m md rb). stringNoError request (''spec'' # path) = Some want))"

definition holdCall :: "PVMigration \<Rightarrow> jobj \<Rightarrow> api_call" where
  "holdCall m rb = GetCall (UnstructuredKind RestoreRequestGVK)
     (mig_Namespace m, sget (GetAnnotations rb) ''training.dcnlab.com/placement-restore-request'')"

lemma first_error_holdCheck:
  "first_error (holdCheck request) cs = None \<longleftrightarrow>
     (\<forall>(path, want)\<in>set cs. stringNoError request (''spec'' # path) = Some want)"
proof -
  have "holdCheck request c = None \<longleftrightarrow> (case c of (path, want) \<Rightarrow> stringNoError request (''spec'' # path) = Some want)"
    for c by (simp add: holdCheck_def split: prod.split)
  then show ?thesis by (simp add: first_error_None_iff)
qed

lemma validateSelectedTargetHold_Ok:
  "exec (validateSelectedTargetHold L m md rb) tr (Ok u) \<longleftrightarrow>
     (\<exists>request. tr = [(holdCall m rb, Object (UnstructuredObj request))] \<and> holdAccepted L m md rb request)"
  unfolding validateSelectedTargetHold_def Let_def
  by (simp add: exec_rules holdCall_def holdAccepted_def first_error_holdCheck GetDeletionTimestamp_IsZero
      Let_def) blast

text \<open>The target is among the clusters of the binding.\<close>

definition targetSelected :: "PVMigration \<Rightarrow> jobj \<Rightarrow> bool" where
  "targetSelected m rb \<longleftrightarrow>
     (\<exists>c. JObj c \<in> set (elems (sliceAt rb [''spec'', ''clusters''])) \<and>
          jget c ''name'' = JStr (ms_TargetCluster (mig_Spec m)))"

definition holdTrace :: "libraries \<Rightarrow> PVMigration \<Rightarrow> PVMetadata \<Rightarrow> jobj \<Rightarrow> trace \<Rightarrow> bool" where
  "holdTrace L m md rb tr \<longleftrightarrow>
     (if targetSelected m rb
      then length (elems (sliceAt rb [''spec'', ''clusters''])) = 1 \<and>
           (\<exists>request. tr = [(holdCall m rb, Object (UnstructuredObj request))] \<and> holdAccepted L m md rb request)
      else tr = [])"

lemma checkClusters_skip:
  "\<nexists>c. JObj c \<in> set items \<and> jget c ''name'' = JStr (ms_TargetCluster (mig_Spec m)) \<Longrightarrow>
     checkClusters L m md rb n items = ret ()"
  by (induction items) (auto split: option.split)

lemma checkClusters_many:
  "n \<noteq> 1 \<Longrightarrow> JObj c \<in> set items \<Longrightarrow> jget c ''name'' = JStr (ms_TargetCluster (mig_Spec m)) \<Longrightarrow>
     \<not> exec (checkClusters L m md rb n items) tr (Ok u)"
  by (induction items) (auto simp: exec_rules split: option.split)

lemma checkClusters_Ok:
  "exec (checkClusters L m md rb (length (elems (sliceAt rb [''spec'', ''clusters''])))
      (elems (sliceAt rb [''spec'', ''clusters'']))) tr (Ok u) \<longleftrightarrow> holdTrace L m md rb tr"
proof (cases "targetSelected m rb")
  case False
  then have "checkClusters L m md rb n (elems (sliceAt rb [''spec'', ''clusters''])) = ret ()" for n
    by (intro checkClusters_skip) (simp add: targetSelected_def)
  with False show ?thesis by (simp add: holdTrace_def)
next
  case True
  then obtain c where c: "JObj c \<in> set (elems (sliceAt rb [''spec'', ''clusters'']))"
    "jget c ''name'' = JStr (ms_TargetCluster (mig_Spec m))" by (auto simp: targetSelected_def)
  show ?thesis
  proof (cases "length (elems (sliceAt rb [''spec'', ''clusters''])) = 1")
    case True
    with c(1) have "elems (sliceAt rb [''spec'', ''clusters'']) = [JObj c]"
      by (auto simp: length_Suc_conv)
    with c(2) \<open>targetSelected m rb\<close> show ?thesis
      by (simp add: exec_rules holdTrace_def validateSelectedTargetHold_Ok)
  next
    case False
    with checkClusters_many [OF False c] \<open>targetSelected m rb\<close> show ?thesis by (simp add: holdTrace_def)
  qed
qed

text \<open>Every condition of the gate on what its reads returned.\<close>

definition bindingAccepted ::
  "libraries \<Rightarrow> PVMigration \<Rightarrow> PVMetadata \<Rightarrow> jobj \<Rightarrow> StatefulSet \<Rightarrow> PVMigration list \<Rightarrow> bool" where
  "bindingAccepted L m md rb sts peers \<longleftrightarrow>
     requestCheck m md = None \<and> resourceMatches md rb \<and> workloadMatches md sts \<and>
     boolAt rb [''spec'', ''suspension'', ''dispatching''] \<and> peersAllow m peers \<and> targetsCheck L m md sts = None"

definition gateReads :: "PVMigration \<Rightarrow> jobj \<Rightarrow> StatefulSet \<Rightarrow> PVMigration list \<Rightarrow> trace" where
  "gateReads m rb sts peers =
     [(GetCall (UnstructuredKind BindingGVK) (mig_Namespace m, ms_ResourceBinding (mig_Spec m)),
         Object (UnstructuredObj rb)),
      (GetCall StatefulSetKind (mig_Namespace m, strAt rb [''spec'', ''resource'', ''name'']),
         Object (StatefulSetObj sts)),
      (ListMigrations (mig_Namespace m), Items peers)]"

lemma validateBinding_Ok:
  "exec (validateBinding L m md) tr (Ok u) \<longleftrightarrow>
     (\<exists>rb sts peers hold. tr = gateReads m rb sts peers @ hold \<and> bindingAccepted L m md rb sts peers \<and>
        holdTrace L m md rb hold)"
  unfolding validateBinding_def Let_def
  by (simp add: exec_rules checkClusters_Ok gateReads_def bindingAccepted_def peersAllow_def) blast

end
