(* ===== verification/MigrationFacts.thy ===== *)
theory MigrationFacts
  imports Migration BindingFacts
begin

text \<open>
  The contract of the migration controller over any API server: which calls it makes after
  which replies.  One lemma per function of the controller, one invariant for the loop over
  the planned Works, and the interpretation of the locale \<open>controller\<close>.
\<close>

section \<open>The gate only reads\<close>

lemma readsOnly_checkClusters: "readsOnly (checkClusters L m md rb n items)"
proof -
  have hold: "readsOnly (validateSelectedTargetHold L m md rb)"
    unfolding validateSelectedTargetHold_def Let_def by (intro callsOnly_intros readsOnly_calls)
  show ?thesis
    by (induction items) (auto split: option.split intro!: callsOnly_intros(2-6) hold)
qed

lemma readsOnly_validateBinding: "readsOnly (validateBinding L m md)"
  unfolding validateBinding_def Let_def
  by (intro callsOnly_intros readsOnly_calls readsOnly_checkClusters)

section \<open>The contract\<close>

text \<open>A request that is not finished, its metadata, and a passed gate at the head of the trace.\<close>

definition admittedTrace ::
  "libraries \<Rightarrow> namespaced_name \<Rightarrow> trace \<Rightarrow> PVMigration \<Rightarrow> PVMetadata \<Rightarrow> bool" where
  "admittedTrace L req tr m md \<longleftrightarrow>
     \<not> migrationDone m \<and>
     (\<exists>gate rest. tr = (GetCall MigrationKind req, Object (MigrationObj m)) #
          (GetCall MetadataKind (mig_Namespace m, ms_MetadataRef (mig_Spec m)), Object (MetadataObj md)) # gate @ rest \<and>
        exec (validateBinding L m md) gate (Ok ()))"

text \<open>The recorded plan is the one that is planned now.\<close>

definition followed :: "libraries \<Rightarrow> PVMigration \<Rightarrow> PVMetadata \<Rightarrow> jobj list \<Rightarrow> bool" where
  "followed L m md works \<longleftrightarrow>
     BuildWorks L m md = Ok works \<and> planHash L m md works = Ok (mst_PlanHash (mig_Status m)) \<and>
     mig_Works m \<noteq> [] \<and> length (mig_Works m) = length works"

definition workRead :: "WorkReference \<Rightarrow> jobj \<Rightarrow> api_call \<times> api_reply" where
  "workRead ref w = (GetCall (UnstructuredKind WorkGVK) (refKey ref), Object (UnstructuredObj w))"

text \<open>A Work that was read in this pass, is the planned one, and counts as applied.\<close>

definition evidence :: "libraries \<Rightarrow> trace \<Rightarrow> PVMigration \<Rightarrow> jobj list \<Rightarrow> nat \<Rightarrow> jobj \<Rightarrow> bool" where
  "evidence L tr m works i w \<longleftrightarrow>
     workRead (mig_Works m ! i) w \<in> set tr \<and> validateWork w (works ! i) m = None \<and> workApplied L w"

text \<open>Two Works read in this pass that form the reciprocal binding of a pair name, with its receipt.\<close>

definition pairEvidence :: "libraries \<Rightarrow> trace \<Rightarrow> PVMigration \<Rightarrow> jobj list \<Rightarrow> string \<Rightarrow> WorkReference \<Rightarrow> bool" where
  "pairEvidence L tr m works p ref \<longleftrightarrow>
     (\<exists>x y j k. j < length works \<and> k < length works \<and>
        workRead (mig_Works m ! j) x \<in> set tr \<and> validateWork x (works ! j) m = None \<and>
        workRead (mig_Works m ! k) y \<in> set tr \<and> validateWork y (works ! k) m = None \<and>
        GetName x = p \<and> GetName y = p @ ''-pvc'' \<and>
        splitPairApplied L (Some x) (Some y) = Some (ref_PVUID ref, ref_PVCUID ref, True))"

abbreviation pairNameOf :: "jobj \<Rightarrow> string" where
  "pairNameOf w \<equiv> sget (GetLabels w) standalonePairLabel"

definition readyEvidence :: "libraries \<Rightarrow> trace \<Rightarrow> PVMigration \<Rightarrow> jobj list \<Rightarrow> WorkReference list \<Rightarrow> bool" where
  "readyEvidence L tr m works refs \<longleftrightarrow>
     (\<forall>i<length works. ref_Detached (mig_Works m ! i) \<or>
        ref_Applied (refs ! i) \<and> (\<exists>w. evidence L tr m works i w) \<and>
        (ref_Standalone (mig_Works m ! i) \<longrightarrow> pairEvidence L tr m works (pairNameOf (works ! i)) (refs ! i)))"

text \<open>
  How a pass may change the references: \<open>Applied\<close> and the receipts only, and an \<open>Applied\<close> flag
  it sets has evidence, of the Work or of the pair it belongs to.
\<close>

definition refProgress :: "WorkReference \<Rightarrow> WorkReference \<Rightarrow> bool" where
  "refProgress old new \<longleftrightarrow>
     ref_identity new = ref_identity old \<and> ref_Detached new = ref_Detached old \<and>
     ref_RoutingWorkUID new = ref_RoutingWorkUID old \<and> ref_RoutingGeneration new = ref_RoutingGeneration old"

definition refsProgress ::
  "libraries \<Rightarrow> trace \<Rightarrow> PVMigration \<Rightarrow> jobj list \<Rightarrow> WorkReference list \<Rightarrow> bool" where
  "refsProgress L tr m works refs \<longleftrightarrow>
     list_all2 refProgress (mig_Works m) refs \<and>
     (\<forall>i<length refs. ref_Applied (refs ! i) \<longrightarrow>
        ref_Applied (mig_Works m ! i) \<or> (\<exists>w. evidence L tr m works i w) \<or>
        ref_Standalone (mig_Works m ! i) \<and> (\<exists>p. pairEvidence L tr m works p (refs ! i)))"

definition phaseWrite :: "PVMigration \<Rightarrow> PVMigration \<Rightarrow> PVMigration \<Rightarrow> bool" where
  "phaseWrite m base new \<longleftrightarrow>
     base = m \<and> (\<exists>phase message. phase \<in> {''Pending'', ''Failed''} \<and> new = withPhase m phase message)"

definition statusWrite :: "libraries \<Rightarrow> namespaced_name \<Rightarrow> trace \<Rightarrow> PVMigration \<Rightarrow> PVMigration \<Rightarrow> bool" where
  "statusWrite L req tr base new \<longleftrightarrow>
     (\<exists>m rest. tr = (GetCall MigrationKind req, Object (MigrationObj m)) # rest \<and> \<not> migrationDone m \<and>
        (phaseWrite m base new \<or>
         (\<exists>md works. admittedTrace L req tr m md \<and>
            ((\<exists>hash. mig_Works m = [] \<and> BuildWorks L m md = Ok works \<and> planHash L m md works = Ok hash \<and>
                base = m \<and> new = recordPlan m hash works) \<or>
             followed L m md works \<and>
               (\<exists>refs. refsProgress L tr m works refs \<and>
                  ((\<exists>i actual. i < length works \<and> tr \<noteq> [] \<and> last tr = workRead (mig_Works m ! i) actual \<and>
                      refs ! i = mig_Works m ! i \<and> ref_RoutingWorkUID (mig_Works m ! i) = [] \<and>
                      \<not> ref_Applied (mig_Works m ! i) \<and> GetUID actual \<noteq> [] \<and> GetGeneration actual = 1 \<and>
                      base = set_works refs m \<and> new = routingIntent i actual base) \<or>
                   base = m \<and>
                   (new = withPhase (set_works refs m) ''Preparing'' ''Waiting for Applied Work and reflected Available/Bound PV'' \<or>
                    new = withPhase (set_works refs m) ''Ready'' ''PV application confirmed; cleanup may detach Works'' \<and>
                    readyEvidence L tr m works refs)))))))"

definition repairable :: "libraries \<Rightarrow> PVMigration \<Rightarrow> nat \<Rightarrow> jobj \<Rightarrow> jobj \<Rightarrow> bool" where
  "repairable L m i actual expected \<longleftrightarrow>
     GetDeletionTimestamp L actual = None \<and> GetGeneration actual = 1 \<and> GetUID actual \<noteq> [] \<and>
     \<not> ref_Applied (mig_Works m ! i) \<and> \<not> ref_Detached (mig_Works m ! i) \<and>
     elems (sliceAt actual statusesPath) = [] \<and>
     (\<exists>legacy. removeWorkRouting expected = Some legacy \<and> validateWork actual legacy (clearRouting i m) = None)"

text \<open>What the controller may write.  It never deletes.\<close>

definition migrationGuard :: "libraries \<Rightarrow> namespaced_name \<Rightarrow> trace \<Rightarrow> api_call \<Rightarrow> bool" where
  "migrationGuard L req tr c =
     (case c of
        GetCall _ _ \<Rightarrow> True
      | ListMigrations _ \<Rightarrow> True
      | CreateCall obj \<Rightarrow>
          (\<exists>m md works i t. admittedTrace L req tr m md \<and> followed L m md works \<and> i < length works \<and>
             obj = UnstructuredObj (works ! i) \<and> refMatches (mig_Works m ! i) (works ! i) \<and>
             \<not> ref_Applied (mig_Works m ! i) \<and> \<not> ref_Detached (mig_Works m ! i) \<and>
             ref_RoutingWorkUID (mig_Works m ! i) = [] \<and>
             tr \<noteq> [] \<and> last tr = (GetCall (UnstructuredKind WorkGVK) (refKey (mig_Works m ! i)), Failed (NotFound t)))
      | PatchCall base new \<Rightarrow>
          (\<exists>m md works i actual routed. admittedTrace L req tr m md \<and> followed L m md works \<and> i < length works \<and>
             tr \<noteq> [] \<and> last tr = workRead (mig_Works m ! i) actual \<and>
             repairable L m i actual (works ! i) \<and> setWorkRouting actual = Some routed \<and>
             ref_RoutingWorkUID (mig_Works m ! i) = GetUID actual \<and> ref_RoutingGeneration (mig_Works m ! i) = 2 \<and>
             base = UnstructuredObj actual \<and> new = UnstructuredObj routed)
      | StatusPatchCall base new \<Rightarrow>
          (\<exists>mb mn. base = MigrationObj mb \<and> new = MigrationObj mn \<and> statusWrite L req tr mb mn)
      | DeleteCall _ _ _ \<Rightarrow> False
      | NowCall \<Rightarrow> False)"

text \<open>
  Every pass over a request that is not skipped asks for another one after the poll interval;
  a skipped or unreadable request costs one read.
\<close>

definition polledPost ::
  "duration \<Rightarrow> (PVMigration \<Rightarrow> bool) \<Rightarrow> namespaced_name \<Rightarrow> trace \<Rightarrow> outcome go \<Rightarrow> bool" where
  "polledPost poll skipped req tr r \<longleftrightarrow>
     (case r of
        Ok (d, e) \<Rightarrow>
          d = delay poll \<or>
          d = 0 \<and> (\<exists>reply. tr = [(GetCall MigrationKind req, reply)] \<and>
            (case reply of Failed err \<Rightarrow> e = IgnoreNotFound err
                         | Object (MigrationObj m) \<Rightarrow> skipped m \<and> e = None
                         | _ \<Rightarrow> False))
      | Err _ \<Rightarrow> False
      | Panic \<Rightarrow> True)"

lemma migrationGuard_reads [guard_simps]:
  "migrationGuard L req tr (GetCall k nn)" "migrationGuard L req tr (ListMigrations ns)"
  by (simp_all add: migrationGuard_def)

section \<open>Routing repair\<close>

lemma ensureWorkRouting_wp:
  assumes intent: "repairable L m i actual expected \<Longrightarrow> ref_RoutingWorkUID (mig_Works m ! i) = [] \<Longrightarrow>
      G tr (StatusPatchCall (MigrationObj m) (MigrationObj (routingIntent i actual m)))"
    and edit: "\<And>routed. repairable L m i actual expected \<Longrightarrow> setWorkRouting actual = Some routed \<Longrightarrow>
      ref_RoutingWorkUID (mig_Works m ! i) = GetUID actual \<Longrightarrow> ref_RoutingGeneration (mig_Works m ! i) = 2 \<Longrightarrow>
      G tr (PatchCall (UnstructuredObj actual) (UnstructuredObj routed))"
    and same: "Q tr (Ok False)"
    and stop: "\<And>t. Q t (Ok True)" "\<And>t e. Q t (Err e)" "\<And>t. Q t Panic"
  shows "wp G (ensureWorkRouting L m i actual expected) Q tr"
  unfolding ensureWorkRouting_def Let_def
  using intent edit same stop
  by (auto simp: wp_rules repairable_def Let_def split: option.split)

section \<open>The loop over the planned Works\<close>

lemma refProgress_refl [simp]: "refProgress r r"
  by (simp add: refProgress_def)

lemma refProgress_fields:
  assumes "refProgress r r'"
  shows "ref_identity r' = ref_identity r" "ref_RoutingWorkUID r' = ref_RoutingWorkUID r"
    "ref_RoutingGeneration r' = ref_RoutingGeneration r" "ref_Detached r' = ref_Detached r"
    "ref_Standalone r' = ref_Standalone r" "ref_Name r' = ref_Name r" "ref_Namespace r' = ref_Namespace r"
  using assms by (auto simp: refProgress_def ref_identity_def)

lemma refProgress_update:
  "refProgress r r' \<Longrightarrow> refProgress r (r'\<lparr> ref_Applied := a \<rparr>)"
  "refProgress r r' \<Longrightarrow> refProgress r (r'\<lparr> ref_Applied := a, ref_PVUID := u, ref_PVCUID := v \<rparr>)"
  by (simp_all add: refProgress_def ref_identity_def)

lemma set_works_twice [simp]: "set_works refs (set_works refs' m) = set_works refs m"
  by (simp add: set_works_def)

lemma set_works_same [simp]: "set_works (mig_Works m) m = m"
  by (simp add: set_works_def)

lemma validateWork_progress:
  assumes "list_all2 refProgress (mig_Works m) refs"
  shows "validateWork w e (set_works refs m) = validateWork w e m"
proof -
  have "map ref_identity refs = map ref_identity (mig_Works m)"
    "map (\<lambda>r. (ref_RoutingWorkUID r, ref_RoutingGeneration r)) refs =
     map (\<lambda>r. (ref_RoutingWorkUID r, ref_RoutingGeneration r)) (mig_Works m)"
    using assms by (auto simp: list_eq_iff_nth_eq list_all2_conv_all_nth refProgress_fields)
  from generationAllowed_cong [OF this] show ?thesis
    by (simp add: validateWork_def workGenerationAllowed_def)
qed

lemma repairable_progress:
  assumes "list_all2 refProgress (mig_Works m) refs" and "i < length refs" and "refs ! i = mig_Works m ! i"
  shows "repairable L (set_works refs m) i actual expected \<longleftrightarrow> repairable L m i actual expected"
proof -
  let ?f = "\<lambda>r. r\<lparr> ref_RoutingWorkUID := [] \<rparr>"
  have "clearRouting i (set_works refs m) = set_works (refs[i := ?f (refs ! i)]) (clearRouting i m)"
    by (simp add: clearRouting_def updateRef_def)
  moreover have "list_all2 refProgress (mig_Works (clearRouting i m)) (refs[i := ?f (refs ! i)])"
    using assms by (simp add: clearRouting_def updateRef_def list_all2_update_cong)
  ultimately have "validateWork actual legacy (clearRouting i (set_works refs m)) =
      validateWork actual legacy (clearRouting i m)" for legacy
    by (metis validateWork_progress)
  with assms(3) show ?thesis by (simp add: repairable_def)
qed

lemma admittedTrace_append: "admittedTrace L req tr m md \<Longrightarrow> admittedTrace L req (tr @ ext) m md"
  unfolding admittedTrace_def by (metis append.assoc append_Cons)

lemma evidence_append: "evidence L tr m works i w \<Longrightarrow> evidence L (tr @ ext) m works i w"
  by (auto simp: evidence_def)

lemma pairEvidence_append: "pairEvidence L tr m works p ref \<Longrightarrow> pairEvidence L (tr @ ext) m works p ref"
  unfolding pairEvidence_def set_append Un_iff by blast

lemma refsProgress_append: "refsProgress L tr m works refs \<Longrightarrow> refsProgress L (tr @ ext) m works refs"
  unfolding refsProgress_def using evidence_append pairEvidence_append by blast

definition appliedBelow ::
  "libraries \<Rightarrow> trace \<Rightarrow> PVMigration \<Rightarrow> jobj list \<Rightarrow> WorkReference list \<Rightarrow> nat \<Rightarrow> bool" where
  "appliedBelow L tr m works refs k \<longleftrightarrow>
     (\<forall>j<k. ref_Detached (mig_Works m ! j) \<or> ref_Applied (refs ! j) \<and> (\<exists>w. evidence L tr m works j w))"

definition observedOK :: "trace \<Rightarrow> PVMigration \<Rightarrow> jobj list \<Rightarrow> (string, jobj) fmap \<Rightarrow> bool" where
  "observedOK tr m works observed \<longleftrightarrow>
     (\<forall>name w. fmlookup observed name = Some w \<longrightarrow> GetName w = name \<and>
        (\<exists>j<length works. workRead (mig_Works m ! j) w \<in> set tr \<and> validateWork w (works ! j) m = None))"

definition syncInv ::
  "libraries \<Rightarrow> namespaced_name \<Rightarrow> PVMigration \<Rightarrow> PVMetadata \<Rightarrow> jobj list \<Rightarrow> nat \<Rightarrow> syncState \<Rightarrow> trace \<Rightarrow> bool" where
  "syncInv L req m md works k s tr \<longleftrightarrow>
     admittedTrace L req tr m md \<and> followed L m md works \<and>
     (\<exists>refs. sy_m s = set_works refs m \<and> refsProgress L tr m works refs \<and>
        (\<forall>j. k \<le> j \<longrightarrow> j < length works \<longrightarrow> refs ! j = mig_Works m ! j) \<and>
        (sy_all s \<longrightarrow> appliedBelow L tr m works refs k)) \<and>
     length (sy_works s) = length works \<and> (\<forall>j. k \<le> j \<longrightarrow> j < length works \<longrightarrow> sy_works s ! j = works ! j) \<and>
     (sy_all s \<longrightarrow> sy_works s = works) \<and> observedOK tr m works (sy_observed s)"

lemma observedOK_append: "observedOK tr m works obs \<Longrightarrow> observedOK (tr @ ext) m works obs"
  unfolding observedOK_def by fastforce

lemma appliedBelow_append: "appliedBelow L tr m works refs k \<Longrightarrow> appliedBelow L (tr @ ext) m works refs k"
  unfolding appliedBelow_def using evidence_append by blast

lemma syncInv_append: "syncInv L req m md works k s tr \<Longrightarrow> syncInv L req m md works k s (tr @ ext)"
  unfolding syncInv_def
  by (auto intro: admittedTrace_append refsProgress_append appliedBelow_append observedOK_append)

lemma syncInv_start:
  "admittedTrace L req tr m md \<Longrightarrow> followed L m md works \<Longrightarrow> syncInv L req m md works 0 (startState m works) tr"
  unfolding syncInv_def startState_def
  by (auto simp: refsProgress_def appliedBelow_def observedOK_def intro!: exI [of _ "mig_Works m"] list.rel_refl)

text \<open>A Work that is skipped because it is detached, and one whose creation was attempted.\<close>

lemma syncInv_skip:
  "syncInv L req m md works k s tr \<Longrightarrow> ref_Detached (mig_Works m ! k) \<Longrightarrow>
     syncInv L req m md works (Suc k) s tr"
  unfolding syncInv_def appliedBelow_def by (auto simp: less_Suc_eq)

lemma syncInv_create:
  assumes "syncInv L req m md works k s tr"
  shows "syncInv L req m md works (Suc k) (s\<lparr> sy_all := False \<rparr>) tr"
    and "syncInv L req m md works (Suc k) (s\<lparr> sy_all := False, sy_works := (sy_works s)[k := c] \<rparr>) tr"
  using assms unfolding syncInv_def by (auto simp: nth_list_update)

lemma syncInv_observe:
  assumes inv: "syncInv L req m md works k s tr" and k: "k < length works"
    and read: "workRead (mig_Works m ! k) actual \<in> set tr" and valid: "validateWork actual (works ! k) m = None"
  shows "syncInv L req m md works (Suc k) (observeWork L k actual s) tr"
proof -
  from inv obtain refs where refs: "sy_m s = set_works refs m" "refsProgress L tr m works refs"
      "\<forall>j. k \<le> j \<longrightarrow> j < length works \<longrightarrow> refs ! j = mig_Works m ! j"
      "sy_all s \<longrightarrow> appliedBelow L tr m works refs k"
    and rest: "admittedTrace L req tr m md" "followed L m md works" "length (sy_works s) = length works"
      "\<forall>j. k \<le> j \<longrightarrow> j < length works \<longrightarrow> sy_works s ! j = works ! j" "sy_all s \<longrightarrow> sy_works s = works"
      "observedOK tr m works (sy_observed s)"
    by (auto simp: syncInv_def)
  have len: "length refs = length works"
    using refs(2) rest(2) by (auto simp: refsProgress_def followed_def dest: list_all2_lengthD)
  let ?r = "(refs ! k)\<lparr> ref_Applied := workApplied L actual \<rparr>" and ?refs = "refs[k := (refs ! k)\<lparr> ref_Applied := workApplied L actual \<rparr>]"
  have ev: "workApplied L actual \<Longrightarrow> evidence L tr m works k actual"
    using read valid by (simp add: evidence_def)
  have "list_all2 refProgress (mig_Works m) ?refs"
    using refs(2) k len by (auto simp: refsProgress_def list_all2_conv_all_nth nth_list_update refProgress_update)
  moreover have "ref_Applied (mig_Works m ! i) \<or> (\<exists>w. evidence L tr m works i w) \<or>
      ref_Standalone (mig_Works m ! i) \<and> (\<exists>p. pairEvidence L tr m works p (?refs ! i))"
    if "i < length ?refs" "ref_Applied (?refs ! i)" for i
    using that refs(2) ev k len by (cases "i = k") (auto simp: refsProgress_def)
  ultimately have "refsProgress L tr m works ?refs" by (simp add: refsProgress_def)
  moreover have "sy_all s \<and> workApplied L actual \<longrightarrow> appliedBelow L tr m works ?refs (Suc k)"
    using refs(4) ev k len by (auto simp: appliedBelow_def less_Suc_eq nth_list_update)
  moreover have "observedOK tr m works (fmupd (GetName actual) actual (sy_observed s))"
    using rest(6) read valid k by (auto simp: observedOK_def)
  ultimately show ?thesis
    using rest refs(1,3) unfolding syncInv_def observeWork_def Let_def updateRef_def
    by (auto intro!: exI [of _ ?refs])
qed

lemma syncInv_facts:
  assumes "syncInv L req m md works k s tr" and "k < length works"
  obtains refs where "sy_m s = set_works refs m" "refsProgress L tr m works refs"
    "list_all2 refProgress (mig_Works m) refs" "k < length refs" "refs ! k = mig_Works m ! k"
    "sy_works s ! k = works ! k" "admittedTrace L req tr m md" "followed L m md works"
proof -
  from assms obtain refs where refs: "sy_m s = set_works refs m" "refsProgress L tr m works refs"
      "refs ! k = mig_Works m ! k" and rest: "sy_works s ! k = works ! k" "admittedTrace L req tr m md" "followed L m md works"
    unfolding syncInv_def by auto
  from refs(2) rest(3) have all: "list_all2 refProgress (mig_Works m) refs" and "length refs = length works"
    by (auto simp: refsProgress_def followed_def dest: list_all2_lengthD)
  with assms(2) show thesis using that [OF refs(1,2) all _ refs(3) rest] by simp
qed

lemma admittedTrace_head:
  "admittedTrace L req tr m md \<Longrightarrow>
     \<not> migrationDone m \<and> (\<exists>rest. tr = (GetCall MigrationKind req, Object (MigrationObj m)) # rest)"
  by (auto simp: admittedTrace_def)

lemma statusWrite_intent:
  assumes "admittedTrace L req tr m md" "followed L m md works" "refsProgress L tr m works refs" "i < length works"
    and "tr \<noteq> []" "last tr = workRead (mig_Works m ! i) actual" "refs ! i = mig_Works m ! i"
    and "ref_RoutingWorkUID (mig_Works m ! i) = []" "\<not> ref_Applied (mig_Works m ! i)"
    and "GetUID actual \<noteq> []" "GetGeneration actual = 1"
  shows "statusWrite L req tr (set_works refs m) (routingIntent i actual (set_works refs m))"
  using admittedTrace_head [OF assms(1)] assms unfolding statusWrite_def by blast

definition loopPost :: "libraries \<Rightarrow> namespaced_name \<Rightarrow> PVMigration \<Rightarrow> PVMetadata \<Rightarrow> jobj list \<Rightarrow> nat \<Rightarrow>
    trace \<Rightarrow> syncState option go \<Rightarrow> bool" where
  "loopPost L req m md works k tr r \<longleftrightarrow> (\<forall>s. r = Ok (Some s) \<longrightarrow> syncInv L req m md works k s tr)"

lemma loopPost_simps [simp]:
  "loopPost L req m md works k tr (Ok (Some s)) \<longleftrightarrow> syncInv L req m md works k s tr"
  "loopPost L req m md works k tr (Ok None)" "loopPost L req m md works k tr (Err e)"
  "loopPost L req m md works k tr Panic"
  by (auto simp: loopPost_def)

lemma createMissing_wp:
  assumes inv: "syncInv L req m md works k s tr" and k: "k < length works"
    and match: "refMatches (mig_Works m ! k) (works ! k)" and det: "\<not> ref_Detached (mig_Works m ! k)"
    and last: "tr \<noteq> []" "last tr = (GetCall (UnstructuredKind WorkGVK) (refKey (mig_Works m ! k)), Failed (NotFound t))"
  shows "wp (migrationGuard L req) (createMissing k s) (loopPost L req m md works (Suc k)) tr"
proof -
  from inv k obtain refs where f: "sy_m s = set_works refs m" "refs ! k = mig_Works m ! k"
    "sy_works s ! k = works ! k" "admittedTrace L req tr m md" "followed L m md works"
    by (rule syncInv_facts)
  have guard: "migrationGuard L req tr (CreateCall (UnstructuredObj (works ! k)))"
    if "\<not> ref_Applied (mig_Works m ! k)" "ref_RoutingWorkUID (mig_Works m ! k) = []"
    unfolding migrationGuard_def using that f k match det last by auto
  note step = syncInv_create [OF syncInv_append [OF inv]]
  show ?thesis
    using f guard step by (simp add: createMissing_def Let_def wp_rules)
qed

lemma syncWork_wp:
  assumes inv: "syncInv L req m md works k s tr" and k: "k < length works"
  shows "wp (migrationGuard L req) (syncWork L k s) (loopPost L req m md works (Suc k)) tr"
proof -
  from inv k obtain refs where f: "sy_m s = set_works refs m" "refsProgress L tr m works refs"
    "list_all2 refProgress (mig_Works m) refs" "k < length refs" "refs ! k = mig_Works m ! k"
    "sy_works s ! k = works ! k" "admittedTrace L req tr m md" "followed L m md works"
    by (rule syncInv_facts)
  let ?ref = "mig_Works m ! k" and ?key = "GetCall (UnstructuredKind WorkGVK) (refKey (mig_Works m ! k))"
  have missing: "wp (migrationGuard L req) (createMissing k s) (loopPost L req m md works (Suc k)) (tr @ [(?key, Failed (NotFound t))])"
    if "refMatches ?ref (works ! k)" "\<not> ref_Detached ?ref" for t
    using that by (intro createMissing_wp [OF syncInv_append [OF inv] k]) auto
  have found: "wp (migrationGuard L req) (ensureWorkRouting L (sy_m s) k w (works ! k))
      (after (migrationGuard L req) raise
        (\<lambda>changed. if changed then ret None
           else check (validateWork w (sy_works s ! k) (sy_m s)) (ret (Some (observeWork L k w s))))
        (loopPost L req m md works (Suc k))) (tr @ [workRead ?ref w])" for w
  proof -
    let ?tr = "tr @ [workRead ?ref w]"
    have inv': "syncInv L req m md works k s ?tr" by (rule syncInv_append [OF inv])
    have adm: "admittedTrace L req ?tr m md" and prog: "refsProgress L ?tr m works refs"
      using f admittedTrace_append refsProgress_append by blast+
    have rep: "repairable L (sy_m s) k w e \<longleftrightarrow> repairable L m k w e" for e
      using f by (simp add: repairable_progress)
    have intent: "migrationGuard L req ?tr (StatusPatchCall (MigrationObj (sy_m s)) (MigrationObj (routingIntent k w (sy_m s))))"
      if "repairable L (sy_m s) k w (works ! k)" "ref_RoutingWorkUID (mig_Works (sy_m s) ! k) = []"
    proof -
      have "statusWrite L req ?tr (sy_m s) (routingIntent k w (sy_m s))"
        using that rep f k unfolding f(1) repairable_def
        by (intro statusWrite_intent [OF adm f(8) prog k]) auto
      then show ?thesis by (simp add: migrationGuard_def)
    qed
    have edit: "migrationGuard L req ?tr (PatchCall (UnstructuredObj w) (UnstructuredObj routed))"
      if "repairable L (sy_m s) k w (works ! k)" "setWorkRouting w = Some routed"
        "ref_RoutingWorkUID (mig_Works (sy_m s) ! k) = GetUID w" "ref_RoutingGeneration (mig_Works (sy_m s) ! k) = 2" for routed
      unfolding migrationGuard_def using that f adm k rep by auto
    have valid: "validateWork w (works ! k) (sy_m s) = validateWork w (works ! k) m"
      using f(1,3) by (simp add: validateWork_progress)
    have observe: "validateWork w (works ! k) m = None \<Longrightarrow> syncInv L req m md works (Suc k) (observeWork L k w s) ?tr"
      by (rule syncInv_observe [OF inv' k]) auto
    show ?thesis
    proof (rule ensureWorkRouting_wp)
      show "after (migrationGuard L req) raise
          (\<lambda>changed. if changed then ret None
             else check (validateWork w (sy_works s ! k) (sy_m s)) (ret (Some (observeWork L k w s))))
          (loopPost L req m md works (Suc k)) ?tr (Ok False)"
        using observe f(6) by (simp add: wp_rules valid split: option.split)
    qed (use intent edit in \<open>simp_all add: wp_rules\<close>)
  qed
  show ?thesis
    unfolding syncWork_def Let_def
    using f missing found syncInv_skip [OF inv]
    by (auto simp: wp_rules guard_simps workRead_def elim!: isNotFound.elims)
qed

lemma syncWorks_wp:
  assumes "syncInv L req m md works k s tr" and "k \<le> length works" and "is = [k..<length works]"
  shows "wp (migrationGuard L req) (syncWorks L is s) (loopPost L req m md works (length works)) tr"
  using assms
proof (induction "is" arbitrary: k s tr)
  case (Cons i rest)
  then have k: "k < length works" by (cases "k < length works") auto
  with Cons.prems(3) have i: "i = k" "rest = [Suc k..<length works]" by (auto simp: upt_conv_Cons)
  have "wp (migrationGuard L req) (syncWork L k s) (loopPost L req m md works (Suc k)) tr"
    by (rule syncWork_wp [OF Cons.prems(1) k])
  then have "wp (migrationGuard L req) (syncWork L k s)
      (after (migrationGuard L req) raise
        (\<lambda>r. case r of None \<Rightarrow> ret None | Some s' \<Rightarrow> syncWorks L rest s')
        (loopPost L req m md works (length works))) tr"
  proof (rule wp_mono)
    fix tr' r
    assume "loopPost L req m md works (Suc k) tr' r"
    then show "after (migrationGuard L req) raise
        (\<lambda>r. case r of None \<Rightarrow> ret None | Some s' \<Rightarrow> syncWorks L rest s')
        (loopPost L req m md works (length works)) tr' r"
      using Cons.IH [of "Suc k" _ tr'] k i(2)
      by (cases r) (auto simp: wp_rules split: option.split)
  qed
  then show ?case by (simp add: wp_rules i(1))
next
  case Nil
  then have "length [k..<length works] = 0" by (metis list.size(3))
  with Nil(2) have "k = length works" by simp
  with Nil show ?case by (simp add: wp_rules)
qed

section \<open>The receipts\<close>

text \<open>Once the loop is over the trace is fixed; the receipts only add to the references.\<close>

definition receiptInv ::
  "libraries \<Rightarrow> PVMigration \<Rightarrow> jobj list \<Rightarrow> trace \<Rightarrow> nat \<Rightarrow> syncState \<Rightarrow> bool" where
  "receiptInv L m works tr k s \<longleftrightarrow>
     (\<exists>refs. sy_m s = set_works refs m \<and> refsProgress L tr m works refs \<and>
        (sy_all s \<longrightarrow> appliedBelow L tr m works refs (length works)) \<and>
        (sy_all s \<longrightarrow> (\<forall>j<k. \<not> ref_Detached (mig_Works m ! j) \<longrightarrow> ref_Standalone (mig_Works m ! j) \<longrightarrow>
           pairEvidence L tr m works (pairNameOf (works ! j)) (refs ! j)))) \<and>
     (sy_all s \<longrightarrow> sy_works s = works) \<and> observedOK tr m works (sy_observed s)"

lemma pairEvidence_intro:
  assumes "observedOK tr m works observed"
    and "splitPairApplied L (fmlookup observed p) (fmlookup observed (p @ ''-pvc'')) = Some (u, v, True)"
    and "ref_PVUID ref = u" "ref_PVCUID ref = v"
  shows "pairEvidence L tr m works p ref"
proof -
  from assms(2) obtain x y where xy: "fmlookup observed p = Some x" "fmlookup observed (p @ ''-pvc'') = Some y"
    by (auto elim: splitPairApplied_ready)
  from assms(1) xy obtain j k where
    "GetName x = p" "j < length works" "workRead (mig_Works m ! j) x \<in> set tr" "validateWork x (works ! j) m = None"
    "GetName y = p @ ''-pvc''" "k < length works" "workRead (mig_Works m ! k) y \<in> set tr" "validateWork y (works ! k) m = None"
    unfolding observedOK_def by blast
  with xy assms(2-4) show ?thesis
    unfolding pairEvidence_def
    by (intro exI [of _ x] exI [of _ y] exI [of _ j] exI [of _ k]) simp
qed

lemma receiptInv_start:
  "syncInv L req m md works (length works) s tr \<Longrightarrow> receiptInv L m works tr 0 s"
  unfolding syncInv_def receiptInv_def by auto

lemma bindReceipt_inv:
  assumes inv: "receiptInv L m works tr k s" and fol: "followed L m md works" and k: "k < length works"
    and step: "bindReceipt L k s = Some s'"
  shows "receiptInv L m works tr (Suc k) s'"
proof -
  from inv obtain refs where refs: "sy_m s = set_works refs m" "refsProgress L tr m works refs"
      "sy_all s \<longrightarrow> appliedBelow L tr m works refs (length works)"
      "sy_all s \<longrightarrow> (\<forall>j<k. \<not> ref_Detached (mig_Works m ! j) \<longrightarrow> ref_Standalone (mig_Works m ! j) \<longrightarrow>
           pairEvidence L tr m works (pairNameOf (works ! j)) (refs ! j))"
    and rest: "sy_all s \<longrightarrow> sy_works s = works" "observedOK tr m works (sy_observed s)"
    unfolding receiptInv_def by blast
  from refs(2) fol have all: "list_all2 refProgress (mig_Works m) refs" and len: "length refs = length works"
    by (auto simp: refsProgress_def followed_def dest: list_all2_lengthD)
  then have same: "ref_Standalone (refs ! k) = ref_Standalone (mig_Works m ! k)"
      "ref_Detached (refs ! k) = ref_Detached (mig_Works m ! k)"
    using k by (auto simp: list_all2_conv_all_nth refProgress_fields)
  show ?thesis
  proof (cases "ref_Standalone (mig_Works m ! k) \<and> \<not> ref_Detached (mig_Works m ! k)")
    case False
    with step refs(1) same have "s' = s" by (auto simp: bindReceipt_def)
    with False refs rest show ?thesis unfolding receiptInv_def by (auto simp: less_Suc_eq)
  next
    case True
    let ?p = "sget (GetLabels (sy_works s ! k)) standalonePairLabel"
    from step True refs(1) same obtain u v ready where
      pair: "splitPairApplied L (fmlookup (sy_observed s) ?p) (fmlookup (sy_observed s) (?p @ ''-pvc'')) = Some (u, v, ready)"
      and s': "s' = s\<lparr> sy_m := updateRef k (\<lambda>r. r\<lparr> ref_Applied := ready, ref_PVUID := u, ref_PVCUID := v \<rparr>) (sy_m s),
                 sy_all := (sy_all s \<and> ready) \<rparr>"
      by (auto simp: bindReceipt_def Let_def split: option.splits)
    let ?r = "(refs ! k)\<lparr> ref_Applied := ready, ref_PVUID := u, ref_PVCUID := v \<rparr>"
    let ?refs = "refs[k := ?r]"
    have pairE: "ready \<Longrightarrow> pairEvidence L tr m works ?p ?r"
      using pair rest(2) by (intro pairEvidence_intro) auto
    have "list_all2 refProgress (mig_Works m) ?refs"
      using all k len by (auto simp: list_all2_conv_all_nth nth_list_update refProgress_update)
    moreover have "ref_Applied (mig_Works m ! i) \<or> (\<exists>w. evidence L tr m works i w) \<or>
        ref_Standalone (mig_Works m ! i) \<and> (\<exists>p. pairEvidence L tr m works p (?refs ! i))"
      if "i < length ?refs" "ref_Applied (?refs ! i)" for i
      using that refs(2) pairE True k len by (cases "i = k") (auto simp: refsProgress_def)
    ultimately have prog: "refsProgress L tr m works ?refs" by (simp add: refsProgress_def)
    have below: "sy_all s \<and> ready \<longrightarrow> appliedBelow L tr m works ?refs (length works)"
      using refs(3) k len unfolding appliedBelow_def by (auto simp: nth_list_update)
    have receipts: "pairEvidence L tr m works (pairNameOf (works ! j)) (?refs ! j)"
      if "sy_all s" "ready" "j < Suc k" "\<not> ref_Detached (mig_Works m ! j)" "ref_Standalone (mig_Works m ! j)" for j
    proof (cases "j = k")
      case True
      with that pairE rest(1) k len show ?thesis by simp
    next
      case False
      with that refs(4) show ?thesis by simp
    qed
    show ?thesis
      unfolding receiptInv_def s' updateRef_def
      using refs(1) rest prog below receipts by (auto intro!: exI [of _ ?refs])
  qed
qed

lemma bindReceipts_inv:
  assumes "receiptInv L m works tr k s" and "followed L m md works" and "k \<le> length works"
    and "bindReceipts L [k..<length works] s = Some s'"
  shows "receiptInv L m works tr (length works) s'"
  using assms
proof (induction "length works - k" arbitrary: k s)
  case (Suc n)
  then have k: "k < length works" by simp
  with Suc.prems(4) obtain s1 where s1: "bindReceipt L k s = Some s1"
    "bindReceipts L [Suc k..<length works] s1 = Some s'"
    by (auto simp: upt_conv_Cons split: option.splits)
  from Suc.hyps(2) have n: "n = length works - Suc k" by simp
  from Suc.hyps(1) [OF n bindReceipt_inv [OF Suc.prems(1,2) k s1(1)] Suc.prems(2) _ s1(2)] k
  show ?case by simp
qed simp

text \<open>The receipts never panic: a Work that counts as applied has a string UID.\<close>

lemma bindReceipts_no_panic: "bindReceipts L is s \<noteq> None"
proof (induction "is" arbitrary: s)
  case (Cons i rest)
  let ?p = "pairNameOf (sy_works s ! i)"
  obtain u v b where
    "splitPairApplied L (fmlookup (sy_observed s) ?p) (fmlookup (sy_observed s) (?p @ ''-pvc'')) = Some (u, v, b)"
    using splitPairApplied_no_panic by (metis not_None_eq prod_cases3)
  then have "bindReceipt L i s \<noteq> None" by (simp add: bindReceipt_def Let_def)
  with Cons show ?case by auto
qed simp

lemma progressStatus_write:
  assumes inv: "receiptInv L m works tr (length works) s" and adm: "admittedTrace L req tr m md"
    and fol: "followed L m md works"
  shows "statusWrite L req tr m (progressStatus s)"
proof -
  from inv obtain refs where refs: "sy_m s = set_works refs m" "refsProgress L tr m works refs"
      "sy_all s \<longrightarrow> readyEvidence L tr m works refs"
    unfolding receiptInv_def appliedBelow_def readyEvidence_def by blast
  from admittedTrace_head [OF adm] obtain rest where
    "tr = (GetCall MigrationKind req, Object (MigrationObj m)) # rest" "\<not> migrationDone m" by blast
  moreover have "progressStatus s = withPhase (set_works refs m) ''Preparing'' ''Waiting for Applied Work and reflected Available/Bound PV'' \<or>
      progressStatus s = withPhase (set_works refs m) ''Ready'' ''PV application confirmed; cleanup may detach Works'' \<and>
      readyEvidence L tr m works refs"
    using refs by (simp add: progressStatus_def)
  ultimately show ?thesis
    using refs(2) adm fol unfolding statusWrite_def by blast
qed

section \<open>The whole pass\<close>

lemma finish_wp:
  assumes "wp G p (\<lambda>t r. case r of Ok _ \<Rightarrow> Q t (Ok (d, None)) | Err e \<Rightarrow> Q t (Ok (d, Some e)) | Panic \<Rightarrow> Q t Panic) tr"
  shows "wp G (finish d p) Q tr"
  unfolding finish_def wp_tryM
  by (rule wp_mono [OF assms]) (auto simp: after_def wp_ret split: go.splits)

lemma patchMigrationStatus_wp:
  assumes "G tr (StatusPatchCall (MigrationObj b) (MigrationObj n))"
    and "\<And>t. Q t (Ok ())" and "\<And>t e. Q t (Err e)"
  shows "wp G (patchMigrationStatus b n) Q tr"
  using assms by (simp add: wp_rules Let_def)

definition requeued :: "duration \<Rightarrow> trace \<Rightarrow> outcome go \<Rightarrow> bool" where
  "requeued d tr r \<longleftrightarrow> r = Panic \<or> (\<exists>e. r = Ok (d, e))"

lemma requeued_simps [simp]: "requeued d tr (Ok (d, e))" "requeued d tr Panic" "\<not> requeued d tr (Err err)"
  by (simp_all add: requeued_def)

lemma finish_status_wp:
  assumes "statusWrite L req tr b n"
  shows "wp (migrationGuard L req) (finish d (patchMigrationStatus b n)) (requeued d) tr"
  using assms by (intro finish_wp patchMigrationStatus_wp) (simp_all add: migrationGuard_def)

lemma finish_setPhase_wp:
  assumes "tr = (GetCall MigrationKind req, Object (MigrationObj m)) # rest" and "\<not> migrationDone m"
    and "phase \<in> {''Pending'', ''Failed''}"
  shows "wp (migrationGuard L req) (finish d (setPhase m phase message)) (requeued d) tr"
proof -
  have "phaseWrite m m (withPhase m phase message)" using assms(3) by (auto simp: phaseWrite_def)
  then have "statusWrite L req tr m (withPhase m phase message)"
    using assms(1,2) unfolding statusWrite_def by blast
  from finish_status_wp [OF this] show ?thesis
    by (simp add: setPhase_def finish_def wp_rules)
qed

lemma applyPlan_wp:
  assumes adm: "admittedTrace L req tr m md" and fol: "followed L m md works"
  shows "wp (migrationGuard L req) (applyPlan L d m works) (requeued d) tr"
proof -
  have "syncInv L req m md works 0 (startState m works) tr" using adm fol by (rule syncInv_start)
  then have "wp (migrationGuard L req) (syncWorks L [0..<length works] (startState m works))
      (loopPost L req m md works (length works)) tr"
    by (rule syncWorks_wp) simp_all
  then show ?thesis
    unfolding applyPlan_def orReturn_def wp_tryM
  proof (rule wp_mono)
    fix t r
    assume r: "loopPost L req m md works (length works) t r"
    show "after (migrationGuard L req) (\<lambda>e. ret (d, Some e))
       (\<lambda>r. case r of None \<Rightarrow> ret (d, None)
          | Some s \<Rightarrow> (case bindReceipts L [0..<length (mig_Works (sy_m s))] s of
               None \<Rightarrow> Return Panic
             | Some s' \<Rightarrow> (if mig_Status m \<noteq> mig_Status (progressStatus s')
                  then finish d (patchMigrationStatus m (progressStatus s')) else ret (d, None)))) (requeued d) t r"
    proof (cases "\<exists>s. r = Ok (Some s)")
      case True
      then obtain s where s: "r = Ok (Some s)" by blast
      with r have inv: "syncInv L req m md works (length works) s t" by simp
      then have adm': "admittedTrace L req t m md" and len: "length (mig_Works (sy_m s)) = length works"
        using fol by (auto simp: syncInv_def refsProgress_def followed_def dest: list_all2_lengthD)
      obtain s' where s': "bindReceipts L [0..<length works] s = Some s'"
        using bindReceipts_no_panic by blast
      have "receiptInv L m works t (length works) s'"
        using bindReceipts_inv [OF receiptInv_start [OF inv] fol _ s'] by simp
      from progressStatus_write [OF this adm' fol] finish_status_wp show ?thesis
        by (simp add: s len s' wp_rules)
    next
      case False
      with r show ?thesis by (cases r) (auto simp: wp_rules split: option.split)
    qed
  qed
qed

lemma followPlan_wp:
  assumes adm: "admittedTrace L req tr m md" and build: "BuildWorks L m md = Ok works"
    and hash: "planHash L m md works = Ok hash"
  shows "wp (migrationGuard L req) (followPlan L d m hash works) (requeued d) tr"
proof -
  from admittedTrace_head [OF adm] obtain rest where
    head: "tr = (GetCall MigrationKind req, Object (MigrationObj m)) # rest" "\<not> migrationDone m" by blast
  have "statusWrite L req tr m (recordPlan m hash works)" if "mig_Works m = []"
    using head adm build hash that unfolding statusWrite_def by blast
  moreover have "followed L m md works"
    if "mig_Works m \<noteq> []" "mst_PlanHash (mig_Status m) = hash" "length (mig_Works m) = length works"
    using that build hash by (simp add: followed_def)
  ultimately show ?thesis
    unfolding followPlan_def
    using finish_status_wp [of L req tr] finish_setPhase_wp [OF head] applyPlan_wp [OF adm] by simp
qed

lemma MigrationReconcile_wp:
  "wp (migrationGuard L req) (MigrationReconcile L poll req) (polledPost poll migrationDone req) []"
proof -
  have post: "polledPost poll migrationDone req t r" if "requeued (delay poll) t r" for t r
    using that by (auto simp: requeued_def polledPost_def)
  have gate: "wp (migrationGuard L req) (validateBinding L m md)
      (after (migrationGuard L req) (\<lambda>e. finish (delay poll) (setPhase m ''Pending'' (error_text e)))
        (\<lambda>_. case BuildWorks L m md of
              Panic \<Rightarrow> Return Panic
            | Err e \<Rightarrow> finish (delay poll) (setPhase m ''Pending'' (error_text e))
            | Ok works \<Rightarrow> (case planHash L m md works of
                 Panic \<Rightarrow> Return Panic
               | Err e \<Rightarrow> ret (delay poll, Some e)
               | Ok hash \<Rightarrow> followPlan L (delay poll) m hash works))
        (polledPost poll migrationDone req))
      [(GetCall MigrationKind req, Object (MigrationObj m)),
       (GetCall MetadataKind (mig_Namespace m, ms_MetadataRef (mig_Spec m)), Object (MetadataObj md))]"
    (is "wp _ _ (after _ ?h ?k _) ?tr")
    if live: "\<not> migrationDone m" for m md
  proof (rule wp_mono [OF wp_callsOnly [OF readsOnly_validateBinding]])
    show "isRead c \<Longrightarrow> migrationGuard L req t c" for t c
      by (cases c) (auto simp: migrationGuard_def)
  next
    fix t r
    assume "\<exists>ext. t = ?tr @ ext \<and> exec (validateBinding L m md) ext r"
    then obtain ext where t: "t = ?tr @ ext" and ext: "exec (validateBinding L m md) ext r" by blast
    then have head: "t = (GetCall MigrationKind req, Object (MigrationObj m)) # tl t" by simp
    have pending: "wp (migrationGuard L req) (finish (delay poll) (setPhase m ''Pending'' msg)) (polledPost poll migrationDone req) t" for msg
      by (rule wp_mono [OF finish_setPhase_wp [OF head live]]) (simp_all add: post)
    have adm: "admittedTrace L req t m md" if "r = Ok ()"
      using t ext that live unfolding admittedTrace_def by auto
    have plan: "wp (migrationGuard L req) (followPlan L (delay poll) m hash works) (polledPost poll migrationDone req) t"
      if "r = Ok ()" "BuildWorks L m md = Ok works" "planHash L m md works = Ok hash" for works hash
      by (rule wp_mono [OF followPlan_wp [OF adm]]) (use that post in auto)
    show "after (migrationGuard L req) ?h ?k (polledPost poll migrationDone req) t r"
      using pending plan post
      by (cases r) (auto simp: after_def wp_rules split: go.split)
  qed
  show ?thesis
    unfolding MigrationReconcile_def Let_def orReturn_def
    by (simp add: wp_rules guard_simps gate) (simp add: polledPost_def)
qed

interpretation migration: controller "MigrationReconcile L poll" "migrationGuard L" "polledPost poll migrationDone" for L poll
  by unfold_locales (rule MigrationReconcile_wp)

end
