(* ===== verification/CleanupFacts.thy ===== *)
theory CleanupFacts
  imports Cleanup MigrationFacts
begin

text \<open>
  The contract of the cleanup controller over any API server: it only ever deletes Works, each
  under the UID and resource version it has just checked, and it completes a request only when
  every Work is gone.
\<close>

section \<open>The contract\<close>

definition planConfirms :: "libraries \<Rightarrow> PVMigration \<Rightarrow> PVMetadata \<Rightarrow> WorkReference \<Rightarrow> jobj \<Rightarrow> bool" where
  "planConfirms L m md ref w \<longleftrightarrow>
     (\<exists>works. BuildWorks L m md = Ok works \<and> planHash L m md works = Ok (mst_PlanHash (mig_Status m)) \<and>
        (\<exists>expected\<in>set works. GetName expected = GetName w \<and> GetNamespace expected = GetNamespace w \<and>
           ref_Standalone ref = standaloneWork expected \<and> validateWork w expected m = None))"

text \<open>Everything that must hold of a Work before its deletion is requested.\<close>

definition deletable :: "libraries \<Rightarrow> PVMigration \<Rightarrow> WorkReference \<Rightarrow> jobj \<Rightarrow> bool" where
  "deletable L m ref w \<longleftrightarrow>
     ref_Applied ref \<and> \<not> ref_Detached ref \<and> ref_Namespace ref = ''karmada-es-'' @ ms_TargetCluster (mig_Spec m) \<and>
     sget (GetLabels w) OwnerLabel = mig_UID m \<and> sget (GetLabels w) ManagedLabel = ManagerName \<and>
     boolAt w [''spec'', ''preserveResourcesOnDeletion''] \<and> workGenerationAllowed w m \<and>
     GetDeletionTimestamp L w = None \<and> workApplied L w \<and>
     (ref_Standalone ref \<longrightarrow> standaloneReceiptMatches L w ref)"

definition currentReady :: "PVMigration \<Rightarrow> bool" where
  "currentReady m \<longleftrightarrow>
     IsZero (om_DeletionTimestamp (mig_meta m)) \<and> mig_Phase m = ''Ready'' \<and>
     mst_ObservedGeneration (mig_Status m) = om_Generation (mig_meta m) \<and> mig_Works m \<noteq> []"

definition workGone :: "trace \<Rightarrow> WorkReference \<Rightarrow> bool" where
  "workGone tr ref \<longleftrightarrow> (\<exists>t. (GetCall (UnstructuredKind WorkGVK) (refKey ref), Failed (NotFound t)) \<in> set tr)"

text \<open>A pass only raises the \<open>Detached\<close> flag, of a Work the server does not have any more.\<close>

definition refDetach :: "trace \<Rightarrow> WorkReference \<Rightarrow> WorkReference \<Rightarrow> bool" where
  "refDetach tr old new \<longleftrightarrow> new = old \<or> new = old\<lparr> ref_Detached := True \<rparr> \<and> workGone tr old"

definition cleanupWrite :: "trace \<Rightarrow> PVMigration \<Rightarrow> PVMigration \<Rightarrow> bool" where
  "cleanupWrite tr m new \<longleftrightarrow>
     (\<exists>refs. list_all2 (refDetach tr) (mig_Works m) refs \<and>
        (new = set_works refs m \<or>
         new = completedStatus \<lparr> cl_m = set_works refs m, cl_all = True \<rparr> \<and>
         (\<forall>ref\<in>set refs. ref_Applied ref \<and> ref_Detached ref)))"

definition cleanupGuard :: "libraries \<Rightarrow> namespaced_name \<Rightarrow> trace \<Rightarrow> api_call \<Rightarrow> bool" where
  "cleanupGuard L req tr c =
     (case c of
        GetCall _ _ \<Rightarrow> True
      | DeleteCall obj uid rv \<Rightarrow>
          (\<exists>m rest i w. tr = (GetCall MigrationKind req, Object (MigrationObj m)) # rest \<and> currentReady m \<and>
             i < length (mig_Works m) \<and> workRead (mig_Works m ! i) w \<in> set tr \<and>
             obj = UnstructuredObj w \<and> uid = GetUID w \<and> rv = GetResourceVersion w \<and>
             deletable L m (mig_Works m ! i) w \<and>
             (ref_RoutingWorkUID (mig_Works m ! i) \<noteq> [] \<or> ref_Standalone (mig_Works m ! i) \<longrightarrow>
                (\<exists>md. (GetCall MetadataKind (mig_Namespace m, ms_MetadataRef (mig_Spec m)), Object (MetadataObj md)) \<in> set tr \<and>
                   planConfirms L m md (mig_Works m ! i) w)))
      | StatusPatchCall base new \<Rightarrow>
          (\<exists>m rest m'. tr = (GetCall MigrationKind req, Object (MigrationObj m)) # rest \<and> currentReady m \<and>
             base = MigrationObj m \<and> new = MigrationObj m' \<and> cleanupWrite tr m m')
      | _ \<Rightarrow> False)"

lemma cleanupGuard_reads [guard_simps]: "cleanupGuard L req tr (GetCall k nn)"
  by (simp add: cleanupGuard_def)

section \<open>Checks against the plan\<close>

text \<open>
  Detached flags matter neither to the plan nor to the validation of a Work.
\<close>

lemma BuildWorks_set_works: "BuildWorks L (set_works refs m) md = BuildWorks L m md"
  by (rule BuildWorks_request_cong) simp_all

lemma planHash_set_works: "planHash L (set_works refs m) md works = planHash L m md works"
  unfolding planHash_def identityParts_def snapshotParts_def set_works_simps by (rule refl)

lemma generationAllowed_detach:
  "list_all2 (refDetach tr) refs refs' \<Longrightarrow> generationAllowed refs' w = generationAllowed refs w"
  by (induction rule: list_all2_induct) (auto simp: refDetach_def)

lemma validateWork_detach:
  "list_all2 (refDetach tr) (mig_Works m) refs \<Longrightarrow> validateWork w e (set_works refs m) = validateWork w e m"
  by (simp add: validateWork_def workGenerationAllowed_def generationAllowed_detach)

lemma matchPlanned_Ok:
  "matchPlanned m ref w works b = Ok True \<Longrightarrow> b \<or>
     (\<exists>expected\<in>set works. GetName expected = GetName w \<and> GetNamespace expected = GetNamespace w \<and>
        ref_Standalone ref = standaloneWork expected \<and> validateWork w expected m = None)"
  by (induction m ref w works b rule: matchPlanned.induct) (auto split: if_splits option.splits)

lemma planStillMatches_Ok:
  "planStillMatches L m md ref w = Ok u \<Longrightarrow> planConfirms L m md ref w"
proof -
  assume "planStillMatches L m md ref w = Ok u"
  then obtain works where works: "BuildWorks L m md = Ok works"
    and rest: "(case planHash L m md works of
          Panic \<Rightarrow> Panic
        | Err e \<Rightarrow> fail ''repair cleanup plan changed''
        | Ok hash \<Rightarrow>
            (if hash \<noteq> mst_PlanHash (mig_Status m) then fail ''repair cleanup plan changed''
             else go_bind (matchPlanned m ref w works False)
               (\<lambda>matched. if \<not> matched then fail ''repair cleanup Work absent from plan'' else Ok ()))) = Ok u"
    unfolding planStillMatches_def go_bind_Ok_iff by blast
  from rest have hash: "planHash L m md works = Ok (mst_PlanHash (mig_Status m))"
    and "go_bind (matchPlanned m ref w works False)
       (\<lambda>matched. if \<not> matched then fail ''repair cleanup Work absent from plan'' else Ok ()) = Ok u"
    by (cases "planHash L m md works"; simp split: if_splits)+
  then have "matchPlanned m ref w works False = Ok True"
    by (auto simp: go_bind_Ok_iff split: if_splits)
  from matchPlanned_Ok [OF this] works hash show ?thesis unfolding planConfirms_def by blast
qed

section \<open>The loop over the recorded Works\<close>

definition cleanInv :: "namespaced_name \<Rightarrow> PVMigration \<Rightarrow> nat \<Rightarrow> cleanupState \<Rightarrow> trace \<Rightarrow> bool" where
  "cleanInv req m k s tr \<longleftrightarrow>
     currentReady m \<and> (\<exists>rest. tr = (GetCall MigrationKind req, Object (MigrationObj m)) # rest) \<and>
     (\<exists>refs. cl_m s = set_works refs m \<and> list_all2 (refDetach tr) (mig_Works m) refs \<and>
        (\<forall>j. k \<le> j \<longrightarrow> j < length refs \<longrightarrow> refs ! j = mig_Works m ! j) \<and>
        (\<forall>j<k. j < length refs \<longrightarrow> ref_Applied (refs ! j)) \<and>
        (cl_all s \<longrightarrow> (\<forall>j<k. j < length refs \<longrightarrow> ref_Detached (refs ! j))))"

lemma refDetach_append: "list_all2 (refDetach tr) xs ys \<Longrightarrow> list_all2 (refDetach (tr @ ext)) xs ys"
  by (erule list_all2_mono) (auto simp: refDetach_def workGone_def)

lemma cleanInvE:
  assumes "cleanInv req m k s tr"
  obtains rest refs where "currentReady m" "tr = (GetCall MigrationKind req, Object (MigrationObj m)) # rest"
    "cl_m s = set_works refs m" "list_all2 (refDetach tr) (mig_Works m) refs" "length refs = length (mig_Works m)"
    "\<forall>j. k \<le> j \<longrightarrow> j < length refs \<longrightarrow> refs ! j = mig_Works m ! j"
    "\<forall>j<k. j < length refs \<longrightarrow> ref_Applied (refs ! j)"
    "cl_all s \<longrightarrow> (\<forall>j<k. j < length refs \<longrightarrow> ref_Detached (refs ! j))"
  using assms unfolding cleanInv_def by (metis list_all2_lengthD)

lemma cleanInvI:
  assumes "currentReady m" "tr = (GetCall MigrationKind req, Object (MigrationObj m)) # rest"
    "cl_m s = set_works refs m" "list_all2 (refDetach tr) (mig_Works m) refs"
    "\<And>j. k \<le> j \<Longrightarrow> j < length refs \<Longrightarrow> refs ! j = mig_Works m ! j"
    "\<And>j. j < k \<Longrightarrow> j < length refs \<Longrightarrow> ref_Applied (refs ! j)"
    "\<And>j. cl_all s \<Longrightarrow> j < k \<Longrightarrow> j < length refs \<Longrightarrow> ref_Detached (refs ! j)"
  shows "cleanInv req m k s tr"
  using assms unfolding cleanInv_def by blast

lemma cleanInv_append: "cleanInv req m k s tr \<Longrightarrow> cleanInv req m k s (tr @ ext)"
proof (erule cleanInvE)
  fix rest refs
  assume head: "currentReady m" "tr = (GetCall MigrationKind req, Object (MigrationObj m)) # rest"
    and refs: "cl_m s = set_works refs m" "list_all2 (refDetach tr) (mig_Works m) refs"
    and facts: "\<forall>j. k \<le> j \<longrightarrow> j < length refs \<longrightarrow> refs ! j = mig_Works m ! j"
      "\<forall>j<k. j < length refs \<longrightarrow> ref_Applied (refs ! j)"
      "cl_all s \<longrightarrow> (\<forall>j<k. j < length refs \<longrightarrow> ref_Detached (refs ! j))"
  from head(2) have "tr @ ext = (GetCall MigrationKind req, Object (MigrationObj m)) # rest @ ext" by simp
  from cleanInvI [OF head(1) this refs(1) refDetach_append [OF refs(2)]] facts
  show "cleanInv req m k s (tr @ ext)" by blast
qed

lemma cleanInv_next:
  assumes "cleanInv req m k s tr" and "ref_Applied (mig_Works m ! k)"
    and "cl_all s \<Longrightarrow> b \<Longrightarrow> ref_Detached (mig_Works m ! k)"
  shows "cleanInv req m (Suc k) (s\<lparr> cl_all := cl_all s \<and> b \<rparr>) tr"
proof (rule cleanInvE [OF assms(1)])
  fix rest refs
  assume head: "currentReady m" "tr = (GetCall MigrationKind req, Object (MigrationObj m)) # rest"
    and refs: "cl_m s = set_works refs m" "list_all2 (refDetach tr) (mig_Works m) refs"
    and tail: "\<forall>j. k \<le> j \<longrightarrow> j < length refs \<longrightarrow> refs ! j = mig_Works m ! j"
    and applied: "\<forall>j<k. j < length refs \<longrightarrow> ref_Applied (refs ! j)"
    and detached: "cl_all s \<longrightarrow> (\<forall>j<k. j < length refs \<longrightarrow> ref_Detached (refs ! j))"
  show ?thesis
    by (rule cleanInvI [OF head _ refs(2)])
      (use refs(1) tail applied detached assms(2,3) in \<open>auto simp: less_Suc_eq\<close>)
qed

lemma cleanInv_gone:
  assumes "cleanInv req m k s tr" and "ref_Applied (mig_Works m ! k)" and "workGone tr (mig_Works m ! k)"
    and "k < length (mig_Works m)"
  shows "cleanInv req m (Suc k) (s\<lparr> cl_m := updateRef k (\<lambda>r. r\<lparr> ref_Detached := True \<rparr>) (cl_m s) \<rparr>) tr"
proof (rule cleanInvE [OF assms(1)])
  fix rest refs
  assume head: "currentReady m" "tr = (GetCall MigrationKind req, Object (MigrationObj m)) # rest"
    and refs: "cl_m s = set_works refs m" "list_all2 (refDetach tr) (mig_Works m) refs" "length refs = length (mig_Works m)"
    and tail: "\<forall>j. k \<le> j \<longrightarrow> j < length refs \<longrightarrow> refs ! j = mig_Works m ! j"
    and applied: "\<forall>j<k. j < length refs \<longrightarrow> ref_Applied (refs ! j)"
    and detached: "cl_all s \<longrightarrow> (\<forall>j<k. j < length refs \<longrightarrow> ref_Detached (refs ! j))"
  let ?r = "(refs ! k)\<lparr> ref_Detached := True \<rparr>"
  have same: "refs ! k = mig_Works m ! k" using tail assms(4) refs(3) by simp
  have "refDetach tr (mig_Works m ! k) ?r" using assms(3) same by (simp add: refDetach_def)
  with refs(2) assms(4) have "list_all2 (refDetach tr) ((mig_Works m)[k := mig_Works m ! k]) (refs[k := ?r])"
    by (intro list_all2_update_cong)
  then have rel: "list_all2 (refDetach tr) (mig_Works m) (refs[k := ?r])" by simp
  show ?thesis
  proof (rule cleanInvI [OF head _ rel])
    show "refs[k := ?r] ! j = mig_Works m ! j" if "Suc k \<le> j" "j < length (refs[k := ?r])" for j
      using that tail by simp
    show "ref_Applied (refs[k := ?r] ! j)" if "j < Suc k" "j < length (refs[k := ?r])" for j
      using that applied assms(2) same by (cases "j = k") simp_all
    show "ref_Detached (refs[k := ?r] ! j)"
      if "cl_all (s\<lparr> cl_m := updateRef k (\<lambda>r. r\<lparr> ref_Detached := True \<rparr>) (cl_m s) \<rparr>)" "j < Suc k" "j < length (refs[k := ?r])" for j
      using that detached by (cases "j = k") simp_all
  qed (simp add: refs(1) updateRef_def)
qed

definition cleanPost :: "namespaced_name \<Rightarrow> PVMigration \<Rightarrow> nat \<Rightarrow> trace \<Rightarrow> cleanupState go \<Rightarrow> bool" where
  "cleanPost req m k tr r \<longleftrightarrow> (\<forall>s. r = Ok s \<longrightarrow> cleanInv req m k s tr)"

lemma cleanPost_simps [simp]:
  "cleanPost req m k tr (Ok s) \<longleftrightarrow> cleanInv req m k s tr"
  "cleanPost req m k tr (Err e)" "cleanPost req m k tr Panic"
  by (auto simp: cleanPost_def)

lemma detachFound_wp:
  assumes inv: "cleanInv req m k s tr" and k: "k < length (mig_Works m)"
    and read: "workRead (mig_Works m ! k) w \<in> set tr"
    and ref: "ref_Applied (mig_Works m ! k)" "\<not> ref_Detached (mig_Works m ! k)"
      "ref_Namespace (mig_Works m ! k) = ''karmada-es-'' @ ms_TargetCluster (mig_Spec m)"
  shows "wp (cleanupGuard L req) (detachFound L k w s) (cleanPost req m (Suc k)) tr"
proof -
  from inv obtain rest refs where
      ready: "currentReady m" and head: "tr = (GetCall MigrationKind req, Object (MigrationObj m)) # rest"
    and refs: "cl_m s = set_works refs m" "list_all2 (refDetach tr) (mig_Works m) refs" "length refs = length (mig_Works m)"
    and tail: "\<forall>j. k \<le> j \<longrightarrow> j < length refs \<longrightarrow> refs ! j = mig_Works m ! j"
    and "\<forall>j<k. j < length refs \<longrightarrow> ref_Applied (refs ! j)"
    and "cl_all s \<longrightarrow> (\<forall>j<k. j < length refs \<longrightarrow> ref_Detached (refs ! j))"
    by (rule cleanInvE)
  from refs(3) tail k have same: "refs ! k = mig_Works m ! k" by simp
  let ?s = "s\<lparr> cl_all := False \<rparr>" and ?ref = "mig_Works m ! k"
  have next': "cleanInv req m (Suc k) ?s (tr @ ext)" for ext
    using cleanInv_next [OF cleanInv_append [OF inv] ref(1), of False] by simp
  have gen: "workGenerationAllowed w (set_works refs m) = workGenerationAllowed w m"
    using refs(2) by (simp add: workGenerationAllowed_def generationAllowed_detach)
  have confirms: "planStillMatches L (set_works refs m) md r w = Ok u \<Longrightarrow> planConfirms L m md r w" for md r u
  proof -
    assume "planStillMatches L (set_works refs m) md r w = Ok u"
    from planStillMatches_Ok [OF this] show ?thesis
      unfolding planConfirms_def BuildWorks_set_works planHash_set_works validateWork_detach [OF refs(2)]
      by simp
  qed
  let ?plan = "\<lambda>t. ref_RoutingWorkUID ?ref \<noteq> [] \<or> ref_Standalone ?ref \<longrightarrow>
      (\<exists>md. (GetCall MetadataKind (mig_Namespace m, ms_MetadataRef (mig_Spec m)), Object (MetadataObj md)) \<in> set t \<and>
         planConfirms L m md ?ref w)"
  have delete: "wp (cleanupGuard L req) (andThen (deleteWork w) (\<lambda>_. ret ?s)) (cleanPost req m (Suc k)) (tr @ ext)"
    if "deletable L m ?ref w" "?plan (tr @ ext)" for ext
  proof -
    have "cleanupGuard L req (tr @ ext) (DeleteCall (UnstructuredObj w) (GetUID w) (GetResourceVersion w))"
      unfolding cleanupGuard_def using that head ready k read by auto
    with next' show ?thesis by (simp add: deleteWork_def wp_rules Let_def)
  qed
  show ?thesis
  proof (cases "deletable L m ?ref w")
    case True
    then have sound: "sget (GetLabels w) OwnerLabel = mig_UID m" "sget (GetLabels w) ManagedLabel = ManagerName"
      "boolAt w [''spec'', ''preserveResourcesOnDeletion'']" "workGenerationAllowed w m"
      "GetDeletionTimestamp L w = None" "workApplied L w" "\<not> (ref_Standalone ?ref \<and> \<not> standaloneReceiptMatches L w ?ref)"
      by (auto simp: deletable_def)
    have step: "after (cleanupGuard L req) raise (\<lambda>_. andThen (deleteWork w) (\<lambda>_. ret ?s)) (cleanPost req m (Suc k))
        (tr @ [(GetCall MetadataKind (mig_Namespace m, ms_MetadataRef (mig_Spec m)), Object (MetadataObj md))])
        (planStillMatches L (set_works refs m) md ?ref w)" for md
    proof (cases "planStillMatches L (set_works refs m) md ?ref w")
      case (Ok u)
      let ?read = "(GetCall MetadataKind (mig_Namespace m, ms_MetadataRef (mig_Spec m)), Object (MetadataObj md))"
      from confirms Ok have "planConfirms L m md ?ref w" by simp
      then have "?plan (tr @ [?read])" by auto
      from delete [OF True this] Ok show ?thesis by (simp add: wp_rules)
    qed (simp_all add: wp_rules)
    show ?thesis
      unfolding detachFound_def Let_def refs(1)
      using sound step delete [OF True, of "[]"]
      by (simp add: wp_rules same gen guard_simps)
  next
    case False
    have "ref_Standalone ?ref \<longrightarrow> standaloneReceiptMatches L w ?ref \<Longrightarrow>
      \<not> (sget (GetLabels w) OwnerLabel = mig_UID m \<and> sget (GetLabels w) ManagedLabel = ManagerName \<and>
         boolAt w [''spec'', ''preserveResourcesOnDeletion''] \<and> workGenerationAllowed w m \<and>
         GetDeletionTimestamp L w = None \<and> workApplied L w)"
      using False ref by (auto simp: deletable_def)
    with next' [of "[]"] show ?thesis
      unfolding detachFound_def Let_def refs(1)
      by (auto simp: wp_rules same gen GetDeletionTimestamp_IsZero)
  qed
qed

lemma detachWork_wp:
  assumes inv: "cleanInv req m k s tr" and k: "k < length (mig_Works m)"
  shows "wp (cleanupGuard L req) (detachWork L k s) (cleanPost req m (Suc k)) tr"
proof -
  let ?ref = "mig_Works m ! k"
  from inv obtain rest refs where
      ready: "currentReady m" and head: "tr = (GetCall MigrationKind req, Object (MigrationObj m)) # rest"
    and refs: "cl_m s = set_works refs m" "list_all2 (refDetach tr) (mig_Works m) refs" "length refs = length (mig_Works m)"
    and tail: "\<forall>j. k \<le> j \<longrightarrow> j < length refs \<longrightarrow> refs ! j = mig_Works m ! j"
    and "\<forall>j<k. j < length refs \<longrightarrow> ref_Applied (refs ! j)"
    and "cl_all s \<longrightarrow> (\<forall>j<k. j < length refs \<longrightarrow> ref_Detached (refs ! j))"
    by (rule cleanInvE)
  from refs(3) tail k have same: "refs ! k = ?ref" by simp
  have skip: "cleanInv req m (Suc k) s tr" if "ref_Applied ?ref" "ref_Detached ?ref"
    using cleanInv_next [OF inv that(1), of True] that by simp
  have gone: "cleanInv req m (Suc k) (s\<lparr> cl_m := updateRef k (\<lambda>r. r\<lparr> ref_Detached := True \<rparr>) (set_works refs m) \<rparr>)
      (tr @ [(GetCall (UnstructuredKind WorkGVK) (refKey ?ref), Failed e)])"
    if "ref_Applied ?ref" "isNotFound e" for e
  proof -
    let ?tr = "tr @ [(GetCall (UnstructuredKind WorkGVK) (refKey ?ref), Failed e)]"
    from that(2) obtain t where "e = NotFound t" by (cases e) auto
    then have "workGone ?tr ?ref" by (auto simp: workGone_def)
    from cleanInv_gone [OF cleanInv_append [OF inv] that(1) this k] show ?thesis by (simp only: refs(1))
  qed
  have found: "wp (cleanupGuard L req) (detachFound L k w s) (cleanPost req m (Suc k))
      (tr @ [(GetCall (UnstructuredKind WorkGVK) (refKey ?ref), Object (UnstructuredObj w))])"
    if "ref_Applied ?ref" "\<not> ref_Detached ?ref"
      "ref_Namespace ?ref = ''karmada-es-'' @ ms_TargetCluster (mig_Spec m)" for w
    by (rule detachFound_wp [OF cleanInv_append [OF inv] k _ that]) (simp add: workRead_def)
  show ?thesis
    unfolding detachWork_def Let_def
    using refs(1) same skip gone found by (auto simp: wp_rules guard_simps)
qed

lemma detachWorks_wp:
  assumes "cleanInv req m k s tr" and "k \<le> length (mig_Works m)" and "is = [k..<length (mig_Works m)]"
  shows "wp (cleanupGuard L req) (detachWorks L is s) (cleanPost req m (length (mig_Works m))) tr"
  using assms
proof (induction "is" arbitrary: k s tr)
  case Nil
  then have "length [k..<length (mig_Works m)] = 0" by (metis list.size(3))
  with Nil(2) have "k = length (mig_Works m)" by simp
  with Nil show ?case by (simp add: wp_rules)
next
  case (Cons i rest)
  then have k: "k < length (mig_Works m)" by (cases "k < length (mig_Works m)") auto
  with Cons.prems(3) have i: "i = k" "rest = [Suc k..<length (mig_Works m)]" by (auto simp: upt_conv_Cons)
  have "wp (cleanupGuard L req) (detachWork L k s)
      (after (cleanupGuard L req) raise (detachWorks L rest) (cleanPost req m (length (mig_Works m)))) tr"
  proof (rule wp_mono [OF detachWork_wp [OF Cons.prems(1) k]])
    fix tr' r
    assume "cleanPost req m (Suc k) tr' r"
    then show "after (cleanupGuard L req) raise (detachWorks L rest) (cleanPost req m (length (mig_Works m))) tr' r"
      using Cons.IH [of "Suc k" _ tr'] k i(2) by (cases r) (auto simp: wp_rules)
  qed
  then show ?case by (simp add: wp_rules i(1))
qed

section \<open>The whole pass\<close>

lemma completedStatus_write:
  assumes "cleanInv req m (length (mig_Works m)) s tr"
  shows "cleanupGuard L req tr (StatusPatchCall (MigrationObj m) (MigrationObj (completedStatus s)))"
proof -
  from assms obtain refs rest where refs: "cl_m s = set_works refs m" "list_all2 (refDetach tr) (mig_Works m) refs"
      "\<forall>j<length (mig_Works m). j < length refs \<longrightarrow> ref_Applied (refs ! j)"
      "cl_all s \<longrightarrow> (\<forall>j<length (mig_Works m). j < length refs \<longrightarrow> ref_Detached (refs ! j))"
    and rest: "currentReady m" "tr = (GetCall MigrationKind req, Object (MigrationObj m)) # rest"
    unfolding cleanInv_def by blast
  have "length refs = length (mig_Works m)" using refs(2) by (simp add: list_all2_lengthD)
  with refs(3,4) have "cl_all s \<longrightarrow> (\<forall>ref\<in>set refs. ref_Applied ref \<and> ref_Detached ref)"
    by (auto simp: in_set_conv_nth)
  with refs(1,2) have "cleanupWrite tr m (completedStatus s)"
    unfolding cleanupWrite_def completedStatus_def by (intro exI [of _ refs]) (cases "cl_all s"; simp)
  with rest show ?thesis by (simp add: cleanupGuard_def)
qed

abbreviation cleanupSkips :: "PVMigration \<Rightarrow> bool" where
  "cleanupSkips m \<equiv> \<not> IsZero (om_DeletionTimestamp (mig_meta m)) \<or> mig_Phase m \<noteq> ''Ready''"

lemma CleanupReconcile_wp:
  "wp (cleanupGuard L req) (CleanupReconcile L poll req) (polledPost poll cleanupSkips req) []"
proof -
  have post: "polledPost poll cleanupSkips req t r" if "requeued (delay poll) t r" for t r
    using that by (auto simp: requeued_def polledPost_def)
  have loop: "wp (cleanupGuard L req) (detachWorks L [0..<length (mig_Works m)] \<lparr> cl_m = m, cl_all = True \<rparr>)
      (after (cleanupGuard L req) (\<lambda>e. ret (delay poll, Some e))
        (\<lambda>s. if mig_Status m \<noteq> mig_Status (completedStatus s)
              then finish (delay poll) (patchMigrationStatus m (completedStatus s)) else ret (delay poll, None))
        (polledPost poll cleanupSkips req)) [(GetCall MigrationKind req, Object (MigrationObj m))]"
    if "currentReady m" for m
  proof (rule wp_mono [OF detachWorks_wp [of req m 0]])
    show "cleanInv req m 0 \<lparr> cl_m = m, cl_all = True \<rparr> [(GetCall MigrationKind req, Object (MigrationObj m))]"
      using that unfolding cleanInv_def
      by (auto intro!: exI [of _ "mig_Works m"] list.rel_refl simp: refDetach_def)
  next
    fix t r
    assume r: "cleanPost req m (length (mig_Works m)) t r"
    have "wp (cleanupGuard L req) (finish (delay poll) (patchMigrationStatus m (completedStatus s)))
        (polledPost poll cleanupSkips req) t" if "r = Ok s" for s
      using r that completedStatus_write post
      by (intro finish_wp patchMigrationStatus_wp) simp_all
    then show "after (cleanupGuard L req) (\<lambda>e. ret (delay poll, Some e))
        (\<lambda>s. if mig_Status m \<noteq> mig_Status (completedStatus s)
              then finish (delay poll) (patchMigrationStatus m (completedStatus s)) else ret (delay poll, None))
        (polledPost poll cleanupSkips req) t r"
      using post by (cases r) (auto simp: wp_rules)
  qed simp_all
  show ?thesis
    unfolding CleanupReconcile_def Let_def orReturn_def
    using loop by (simp add: wp_rules guard_simps currentReady_def) (simp add: polledPost_def)
qed

interpretation cleanup: controller "CleanupReconcile L poll" "cleanupGuard L" "polledPost poll cleanupSkips" for L poll
  by unfold_locales (rule CleanupReconcile_wp)

end
