(* ===== verification/Discovery.thy ===== *)
theory Discovery
  imports Client VolumeClaims
begin

text \<open>
  The discovery controller, \<open>(*MetadataDiscovery).Reconcile\<close> of
  \<open>internal/management/discovery.go\<close>: for every cluster an opted-in StatefulSet is bound to, it
  makes one \<open>PVMetadata\<close> object and one propagation policy that pins it to that cluster.
\<close>

definition discoveryDelay :: "duration \<Rightarrow> duration" where
  "discoveryDelay d = (if d \<le> 0 then 30 * second else d)"

definition managerLabels :: "(string, string) fmap" where
  "managerLabels = fmupd ManagedLabel ManagerName fmempty"

section \<open>The metadata object of a cluster\<close>

definition metadataNameOf :: "libraries \<Rightarrow> StatefulSet \<Rightarrow> string \<Rightarrow> string" where
  "metadataNameOf L sts clusterName = stableName L ''pvm'' [om_UID (sts_meta sts), clusterName]"

definition newMetadata :: "StatefulSet \<Rightarrow> string \<Rightarrow> string \<Rightarrow> PVMetadata" where
  "newMetadata sts clusterName name =
     \<lparr> md_meta = emptyMeta\<lparr> om_Name := name, om_Namespace := om_Namespace (sts_meta sts),
         om_Labels := managerLabels \<rparr>,
       md_Spec = \<lparr> mds_WorkloadRef = \<lparr> wr_Name = om_Name (sts_meta sts), wr_UID = om_UID (sts_meta sts) \<rparr>,
         mds_SourceCluster = clusterName \<rparr>,
       md_Status = emptyMetadataStatus \<rparr>"

definition obtainMetadata :: "StatefulSet \<Rightarrow> string \<Rightarrow> string \<Rightarrow> PVMetadata act" where
  "obtainMetadata sts clusterName name =
     (let key = (om_Namespace (sts_meta sts), name)
      in tryM (getMetadata key)
           (\<lambda>e. if isNotFound e
                then tryM (createMetadata (newMetadata sts clusterName name))
                       (\<lambda>e. if isAlreadyExists e then getMetadata key else raise e)
                       (\<lambda>_. getMetadata key)
                else raise e)
           ret)"

definition metadataOwned :: "StatefulSet \<Rightarrow> string \<Rightarrow> PVMetadata \<Rightarrow> bool" where
  "metadataOwned sts clusterName md \<longleftrightarrow>
     \<not> (mds_SourceCluster (md_Spec md) \<noteq> clusterName \<or>
        wr_Name (mds_WorkloadRef (md_Spec md)) \<noteq> om_Name (sts_meta sts) \<or>
        wr_UID (mds_WorkloadRef (md_Spec md)) \<noteq> om_UID (sts_meta sts) \<or>
        sget (om_Labels (md_meta md)) ManagedLabel \<noteq> ManagerName)"

section \<open>The policy of a cluster\<close>

definition policySpec :: "PVMetadata \<Rightarrow> string \<Rightarrow> json" where
  "policySpec md clusterName =
     JObj (fmupd ''placement'' (JObj (fmupd ''clusterAffinity'' (JObj (fmupd ''clusterNames''
             (JArr [JStr clusterName]) fmempty)) fmempty))
       (fmupd ''resourceSelectors'' (JArr [JObj (fmupd ''namespace'' (JStr (om_Namespace (md_meta md)))
             (fmupd ''name'' (JStr (om_Name (md_meta md))) (fmupd ''kind'' (JStr ''PVMetadata'')
               (fmupd ''apiVersion'' (JStr ''migration.dcnlab.com/v1alpha1'') fmempty))))]) fmempty))"

definition newPolicy :: "StatefulSet \<Rightarrow> PVMetadata \<Rightarrow> string \<Rightarrow> string \<Rightarrow> jobj" where
  "newPolicy sts md clusterName name =
     fmupd ''spec'' (policySpec md clusterName)
       (setField (JArr [JObj (controllerOwner ''migration.dcnlab.com/v1alpha1'' ''PVMetadata''
            (om_Name (md_meta md)) (om_UID (md_meta md)))]) [''metadata'', ''ownerReferences'']
         (SetLabels managerLabels (object PolicyGVK (om_Namespace (sts_meta sts)) name)))"

definition policyPinned :: "jobj \<Rightarrow> string \<Rightarrow> bool" where
  "policyPinned pp clusterName \<longleftrightarrow>
     (let names = stringsAt pp [''spec'', ''placement'', ''clusterAffinity'', ''clusterNames'']
      in \<not> (length names \<noteq> 1 \<or> names ! 0 \<noteq> clusterName))"

definition ensurePolicy :: "libraries \<Rightarrow> StatefulSet \<Rightarrow> PVMetadata \<Rightarrow> string \<Rightarrow> string \<Rightarrow> unit act" where
  "ensurePolicy L sts md clusterName name =
     tryM (getUnstructured PolicyGVK (om_Namespace (sts_meta sts), name))
       (\<lambda>e. if \<not> isNotFound e then raise e
            else tryM (createUnstructured (newPolicy sts md clusterName name))
                   (\<lambda>e. if isAlreadyExists e then ret () else raise e) (\<lambda>_. ret ()))
       (\<lambda>pp.
          require (lib_ControllerUID L pp = Some (om_UID (md_meta md)))
            (''PropagationPolicy '' @ name @ '' ownership conflict'')
          (require (policyPinned pp clusterName) (''PropagationPolicy '' @ name @ '' was retargeted'')
          (ret ())))"

section \<open>The loop over the clusters\<close>

definition discoverCluster :: "libraries \<Rightarrow> StatefulSet \<Rightarrow> string \<Rightarrow> unit act" where
  "discoverCluster L sts clusterName =
     (let name = metadataNameOf L sts clusterName
      in andThen (obtainMetadata sts clusterName name)
           (\<lambda>md. require (metadataOwned sts clusterName md) (''PVMetadata '' @ name @ '' ownership/spec conflict'')
                 (ensurePolicy L sts md clusterName name)))"

fun discoverClusters :: "libraries \<Rightarrow> StatefulSet \<Rightarrow> json list \<Rightarrow> unit act" where
  "discoverClusters L sts [] = ret ()"
| "discoverClusters L sts (entry # rest) =
     (case obj_of entry of
        None \<Rightarrow> raise (GoError ''invalid ResourceBinding cluster'')
      | Some cluster \<Rightarrow>
          (let clusterName = (case str_of (jget cluster ''name'') of None \<Rightarrow> [] | Some n \<Rightarrow> n)
           in if clusterName = [] then discoverClusters L sts rest
              else andThen (discoverCluster L sts clusterName) (\<lambda>_. discoverClusters L sts rest)))"

text \<open>
  \<open>spec.clusters\<close> of a binding: an error when the field is not a list.  The Go error quotes
  the value found; its text is not modelled beyond the path.
\<close>

definition bindingClusters :: "jobj \<Rightarrow> json list go" where
  "bindingClusters rb =
     (case NestedSlice rb [''spec'', ''clusters''] of
        Found xs \<Rightarrow> Ok (elems xs)
      | Missing \<Rightarrow> Ok []
      | BadType \<Rightarrow> fail ''.spec.clusters accessor error'')"

definition DiscoveryReconcile :: "libraries \<Rightarrow> duration \<Rightarrow> namespaced_name \<Rightarrow> outcome act" where
  "DiscoveryReconcile L poll req =
     (let result = discoveryDelay poll
      in tryM (getUnstructured BindingGVK req) (\<lambda>e. ret (0, IgnoreNotFound e))
        (\<lambda>rb.
           if strAt rb [''spec'', ''resource'', ''kind''] \<noteq> ''StatefulSet'' \<or>
              strAt rb [''spec'', ''resource'', ''apiVersion''] \<noteq> ''apps/v1'' \<or>
              \<not> IsZero (GetDeletionTimestamp L rb)
           then ret (0, None)
           else
             tryM (getStatefulSet (fst req, strAt rb [''spec'', ''resource'', ''name'']))
               (\<lambda>e. ret (result, IgnoreNotFound e))
               (\<lambda>sts.
                  if sget (om_Labels (sts_meta sts)) OptInLabel \<noteq> ''enabled'' then ret (result, None)
                  else
                    tryM (andThen (Return (bindingClusters rb)) (discoverClusters L sts))
                      (\<lambda>e. ret (result, Some e)) (\<lambda>_. ret (result, None)))))"

end
