(* ===== verification/DiscoveryFacts.thy ===== *)
theory DiscoveryFacts
  imports Discovery
begin

text \<open>
  The contract of the discovery controller over any API server: it creates metadata objects
  and policies that were missing a moment ago, and neither changes nor deletes anything, so an
  existing policy keeps the cluster it was made for.
\<close>

section \<open>The contract\<close>

text \<open>The binding and the opted-in workload at the head of the trace.\<close>

definition discoveryHead :: "namespaced_name \<Rightarrow> trace \<Rightarrow> jobj \<Rightarrow> StatefulSet \<Rightarrow> bool" where
  "discoveryHead req tr rb sts \<longleftrightarrow>
     (\<exists>rest. tr = (GetCall (UnstructuredKind BindingGVK) req, Object (UnstructuredObj rb)) #
        (GetCall StatefulSetKind (fst req, strAt rb [''spec'', ''resource'', ''name'']), Object (StatefulSetObj sts)) # rest) \<and>
     sget (om_Labels (sts_meta sts)) OptInLabel = ''enabled''"

definition boundCluster :: "jobj \<Rightarrow> string \<Rightarrow> bool" where
  "boundCluster rb clusterName \<longleftrightarrow> clusterName \<noteq> [] \<and>
     (\<exists>c. JObj c \<in> set (elems (sliceAt rb [''spec'', ''clusters''])) \<and> jget c ''name'' = JStr clusterName)"

abbreviation discoveryKey :: "libraries \<Rightarrow> StatefulSet \<Rightarrow> string \<Rightarrow> namespaced_name" where
  "discoveryKey L sts clusterName \<equiv> (om_Namespace (sts_meta sts), metadataNameOf L sts clusterName)"

definition metadataRead :: "libraries \<Rightarrow> StatefulSet \<Rightarrow> string \<Rightarrow> PVMetadata \<Rightarrow> api_call \<times> api_reply" where
  "metadataRead L sts clusterName md = (GetCall MetadataKind (discoveryKey L sts clusterName), Object (MetadataObj md))"

definition discoveryGuard :: "libraries \<Rightarrow> namespaced_name \<Rightarrow> trace \<Rightarrow> api_call \<Rightarrow> bool" where
  "discoveryGuard L req tr c =
     (case c of
        GetCall _ _ \<Rightarrow> True
      | CreateCall obj \<Rightarrow>
          (\<exists>rb sts clusterName t. discoveryHead req tr rb sts \<and> boundCluster rb clusterName \<and>
             (obj = MetadataObj (newMetadata sts clusterName (metadataNameOf L sts clusterName)) \<and>
              last tr = (GetCall MetadataKind (discoveryKey L sts clusterName), Failed (NotFound t)) \<or>
              (\<exists>md. obj = UnstructuredObj (newPolicy sts md clusterName (metadataNameOf L sts clusterName)) \<and>
                 metadataRead L sts clusterName md \<in> set tr \<and> metadataOwned sts clusterName md \<and>
                 last tr = (GetCall (UnstructuredKind PolicyGVK) (discoveryKey L sts clusterName), Failed (NotFound t)))))
      | _ \<Rightarrow> False)"

text \<open>A cluster that a pass has provided for: its metadata is ours, and its policy pins it.\<close>

definition provided :: "libraries \<Rightarrow> StatefulSet \<Rightarrow> trace \<Rightarrow> string \<Rightarrow> bool" where
  "provided L sts tr clusterName \<longleftrightarrow>
     (\<exists>md. metadataRead L sts clusterName md \<in> set tr \<and> metadataOwned sts clusterName md \<and>
        ((\<exists>pp. (GetCall (UnstructuredKind PolicyGVK) (discoveryKey L sts clusterName), Object (UnstructuredObj pp)) \<in> set tr \<and>
            lib_ControllerUID L pp = Some (om_UID (md_meta md)) \<and> policyPinned pp clusterName) \<or>
         (\<exists>reply. (CreateCall (UnstructuredObj (newPolicy sts md clusterName (metadataNameOf L sts clusterName))), reply) \<in> set tr \<and>
            (case reply of Failed e \<Rightarrow> isAlreadyExists e | _ \<Rightarrow> True))))"

definition discoveryPost :: "libraries \<Rightarrow> duration \<Rightarrow> namespaced_name \<Rightarrow> trace \<Rightarrow> outcome go \<Rightarrow> bool" where
  "discoveryPost L poll req tr r \<longleftrightarrow>
     (\<exists>d e. r = Ok (d, e) \<and> (d = 0 \<or> d = discoveryDelay poll) \<and>
        (\<forall>rb sts. e = None \<longrightarrow> discoveryHead req tr rb sts \<longrightarrow>
           (\<forall>clusterName. boundCluster rb clusterName \<longrightarrow> provided L sts tr clusterName)))"

lemma discoveryGuard_reads [guard_simps]: "discoveryGuard L req tr (GetCall k nn)"
  by (simp add: discoveryGuard_def)

section \<open>One cluster\<close>

lemma discoveryHead_append: "discoveryHead req tr rb sts \<Longrightarrow> discoveryHead req (tr @ ext) rb sts"
  by (auto simp: discoveryHead_def)

lemma provided_append: "provided L sts tr clusterName \<Longrightarrow> provided L sts (tr @ ext) clusterName"
  unfolding provided_def set_append Un_iff by blast

lemma discoveryHead_unique:
  "discoveryHead req tr rb sts \<Longrightarrow> discoveryHead req tr rb' sts' \<Longrightarrow> rb' = rb \<and> sts' = sts"
  by (auto simp: discoveryHead_def)

lemma notFound_text: "isNotFound e \<Longrightarrow> \<exists>t. e = NotFound t"
  by (cases e) auto

definition obtained :: "libraries \<Rightarrow> namespaced_name \<Rightarrow> jobj \<Rightarrow> StatefulSet \<Rightarrow> string \<Rightarrow> trace \<Rightarrow> trace \<Rightarrow> PVMetadata go \<Rightarrow> bool" where
  "obtained L req rb sts clusterName tr t r \<longleftrightarrow>
     r \<noteq> Panic \<and> (\<exists>ext. t = tr @ ext) \<and> (\<forall>md. r = Ok md \<longrightarrow> metadataRead L sts clusterName md \<in> set t)"

lemma obtainMetadata_wp:
  assumes "discoveryHead req tr rb sts" and "boundCluster rb clusterName"
  shows "wp (discoveryGuard L req) (obtainMetadata sts clusterName (metadataNameOf L sts clusterName))
           (obtained L req rb sts clusterName tr) tr"
proof -
  let ?name = "metadataNameOf L sts clusterName"
  have create: "discoveryGuard L req (tr @ [(GetCall MetadataKind (discoveryKey L sts clusterName), Failed e)])
      (CreateCall (MetadataObj (newMetadata sts clusterName ?name)))" if "isNotFound e" for e
    using assms discoveryHead_append notFound_text [OF that] unfolding discoveryGuard_def by fastforce
  show ?thesis
    unfolding obtainMetadata_def Let_def
    using create by (auto simp: wp_rules guard_simps obtained_def metadataRead_def)
qed

definition provides :: "libraries \<Rightarrow> StatefulSet \<Rightarrow> string \<Rightarrow> trace \<Rightarrow> trace \<Rightarrow> unit go \<Rightarrow> bool" where
  "provides L sts clusterName tr t r \<longleftrightarrow>
     r \<noteq> Panic \<and> (\<exists>ext. t = tr @ ext) \<and> (r = Ok () \<longrightarrow> provided L sts t clusterName)"

lemma ensurePolicy_wp:
  assumes head: "discoveryHead req tr rb sts" and bound: "boundCluster rb clusterName"
    and md: "metadataRead L sts clusterName md \<in> set tr" "metadataOwned sts clusterName md"
  shows "wp (discoveryGuard L req) (ensurePolicy L sts md clusterName (metadataNameOf L sts clusterName))
           (provides L sts clusterName tr) tr"
proof -
  let ?name = "metadataNameOf L sts clusterName"
  let ?key = "GetCall (UnstructuredKind PolicyGVK) (discoveryKey L sts clusterName)"
  have create: "discoveryGuard L req (tr @ [(?key, Failed e)]) (CreateCall (UnstructuredObj (newPolicy sts md clusterName ?name)))"
    if "isNotFound e" for e
    using head bound md discoveryHead_append notFound_text [OF that] unfolding discoveryGuard_def by fastforce
  have made: "provided L sts (tr @ ext) clusterName"
    if "(CreateCall (UnstructuredObj (newPolicy sts md clusterName ?name)), reply) \<in> set ext"
      "case reply of Failed e \<Rightarrow> isAlreadyExists e | _ \<Rightarrow> True" for ext reply
    using md that unfolding provided_def set_append Un_iff by blast
  have kept: "provided L sts (tr @ [(?key, Object (UnstructuredObj pp))]) clusterName"
    if "lib_ControllerUID L pp = Some (om_UID (md_meta md))" "policyPinned pp clusterName" for pp
    using md that unfolding provided_def by auto
  show ?thesis
    unfolding ensurePolicy_def
    using create made kept by (auto simp: wp_rules guard_simps provides_def)
qed

lemma discoverCluster_wp:
  assumes head: "discoveryHead req tr rb sts" and bound: "boundCluster rb clusterName"
  shows "wp (discoveryGuard L req) (discoverCluster L sts clusterName) (provides L sts clusterName tr) tr"
  unfolding discoverCluster_def Let_def wp_andThen
proof (rule wp_mono [OF obtainMetadata_wp [OF assms]])
  fix t r
  assume r: "obtained L req rb sts clusterName tr t r"
  then obtain ext where t: "t = tr @ ext" by (auto simp: obtained_def)
  have head': "discoveryHead req t rb sts" using head t discoveryHead_append by blast
  have "wp (discoveryGuard L req) (ensurePolicy L sts md clusterName (metadataNameOf L sts clusterName))
      (provides L sts clusterName tr) t" if "r = Ok md" "metadataOwned sts clusterName md" for md
    using r that t
    by (intro wp_mono [OF ensurePolicy_wp [OF head' bound]]) (auto simp: obtained_def provides_def)
  with r show "after (discoveryGuard L req) raise
      (\<lambda>md. require (metadataOwned sts clusterName md)
         (''PVMetadata '' @ metadataNameOf L sts clusterName @ '' ownership/spec conflict'')
         (ensurePolicy L sts md clusterName (metadataNameOf L sts clusterName)))
      (provides L sts clusterName tr) t r"
    by (cases r) (auto simp: wp_rules obtained_def provides_def)
qed

section \<open>The loop and the whole pass\<close>

definition providesAll :: "libraries \<Rightarrow> StatefulSet \<Rightarrow> json list \<Rightarrow> trace \<Rightarrow> trace \<Rightarrow> unit go \<Rightarrow> bool" where
  "providesAll L sts entries tr t r \<longleftrightarrow>
     r \<noteq> Panic \<and> (\<exists>ext. t = tr @ ext) \<and>
     (r = Ok () \<longrightarrow> (\<forall>c clusterName. JObj c \<in> set entries \<longrightarrow> jget c ''name'' = JStr clusterName \<longrightarrow>
        clusterName \<noteq> [] \<longrightarrow> provided L sts t clusterName))"

lemma discoverClusters_wp:
  assumes "discoveryHead req tr rb sts" and "set entries \<subseteq> set (elems (sliceAt rb [''spec'', ''clusters'']))"
  shows "wp (discoveryGuard L req) (discoverClusters L sts entries) (providesAll L sts entries tr) tr"
  using assms
proof (induction entries arbitrary: tr)
  case Nil
  then show ?case by (simp add: wp_rules providesAll_def)
next
  case (Cons entry rest)
  show ?case
  proof (cases "obj_of entry")
    case None
    then show ?thesis by (simp add: wp_rules providesAll_def)
  next
    case (Some c)
    then have entry: "entry = JObj c" by simp
    let ?n = "case str_of (jget c ''name'') of None \<Rightarrow> [] | Some n \<Rightarrow> n"
    have name: "jget c ''name'' = JStr n \<Longrightarrow> ?n = n" for n by simp
    show ?thesis
    proof (cases "?n = []")
      case True
      have "wp (discoveryGuard L req) (discoverClusters L sts rest) (providesAll L sts rest tr) tr"
        using Cons.IH [OF Cons.prems(1)] Cons.prems(2) by simp
      then have "wp (discoveryGuard L req) (discoverClusters L sts rest) (providesAll L sts (entry # rest) tr) tr"
        by (rule wp_mono) (use True name entry in \<open>auto simp: providesAll_def\<close>)
      with True show ?thesis by (simp add: entry Let_def)
    next
      case False
      then have "jget c ''name'' = JStr ?n" by (auto split: option.splits)
      with False Cons.prems(2) entry have bound: "boundCluster rb ?n" by (auto simp: boundCluster_def)
      have "wp (discoveryGuard L req) (discoverCluster L sts ?n)
          (after (discoveryGuard L req) raise (\<lambda>_. discoverClusters L sts rest) (providesAll L sts (entry # rest) tr)) tr"
      proof (rule wp_mono [OF discoverCluster_wp [OF Cons.prems(1) bound]])
        fix t r
        assume r: "provides L sts ?n tr t r"
        then obtain ext where t: "t = tr @ ext" by (auto simp: provides_def)
        have "wp (discoveryGuard L req) (discoverClusters L sts rest) (providesAll L sts rest t) t"
          using Cons.IH [of t] Cons.prems discoveryHead_append t by auto
        moreover have "providesAll L sts (entry # rest) tr t' r'"
          if "providesAll L sts rest t t' r'" "r = Ok ()" for t' r'
          using that r t name entry provided_append unfolding providesAll_def provides_def by fastforce
        ultimately have "wp (discoveryGuard L req) (discoverClusters L sts rest) (providesAll L sts (entry # rest) tr) t"
          if "r = Ok ()" using that by (blast intro: wp_mono)
        with r show "after (discoveryGuard L req) raise (\<lambda>_. discoverClusters L sts rest)
            (providesAll L sts (entry # rest) tr) t r"
          by (cases r) (auto simp: wp_rules providesAll_def provides_def)
      qed
      then show ?thesis using False by (simp add: entry wp_rules Let_def)
    qed
  qed
qed

lemma boundCluster_entries:
  "bindingClusters rb = Ok entries \<Longrightarrow> entries = elems (sliceAt rb [''spec'', ''clusters''])"
  by (auto simp: bindingClusters_def sliceAt_def split: access.splits)

lemma bindingClusters_no_panic: "bindingClusters rb \<noteq> Panic"
  by (auto simp: bindingClusters_def split: access.splits)

lemma DiscoveryReconcile_wp:
  "wp (discoveryGuard L req) (DiscoveryReconcile L poll req) (discoveryPost L poll req) []"
proof -
  let ?head = "\<lambda>rb sts. [(GetCall (UnstructuredKind BindingGVK) req, Object (UnstructuredObj rb)),
      (GetCall StatefulSetKind (fst req, strAt rb [''spec'', ''resource'', ''name'']), Object (StatefulSetObj sts))]"
  have loop: "wp (discoveryGuard L req) (andThen (Return (bindingClusters rb)) (discoverClusters L sts))
      (after (discoveryGuard L req) (\<lambda>e. ret (discoveryDelay poll, Some e)) (\<lambda>_. ret (discoveryDelay poll, None))
        (discoveryPost L poll req)) (?head rb sts)"
    if opt: "sget (om_Labels (sts_meta sts)) OptInLabel = ''enabled''" for rb sts
  proof (cases "bindingClusters rb")
    case (Ok entries)
    have head: "discoveryHead req (?head rb sts) rb sts" using opt by (simp add: discoveryHead_def)
    note entries = boundCluster_entries [OF Ok]
    have "wp (discoveryGuard L req) (discoverClusters L sts entries)
        (after (discoveryGuard L req) (\<lambda>e. ret (discoveryDelay poll, Some e)) (\<lambda>_. ret (discoveryDelay poll, None))
          (discoveryPost L poll req)) (?head rb sts)"
    proof (rule wp_mono [OF discoverClusters_wp [OF head]])
      fix t r
      assume r: "providesAll L sts entries (?head rb sts) t r"
      then obtain ext where t: "t = ?head rb sts @ ext" by (auto simp: providesAll_def)
      then have "discoveryHead req t rb sts" using discoveryHead_append [OF head, of ext] by simp
      then have uniq: "discoveryHead req t rb' sts' \<Longrightarrow> rb' = rb \<and> sts' = sts" for rb' sts'
        using discoveryHead_unique by blast
      have "discoveryPost L poll req t (Ok (discoveryDelay poll, None))" if "r = Ok ()"
        using r that entries uniq unfolding discoveryPost_def providesAll_def boundCluster_def by blast
      moreover have "discoveryPost L poll req t (Ok (discoveryDelay poll, Some e))" for e
        by (simp add: discoveryPost_def)
      ultimately show "after (discoveryGuard L req) (\<lambda>e. ret (discoveryDelay poll, Some e))
          (\<lambda>_. ret (discoveryDelay poll, None)) (discoveryPost L poll req) t r"
        using r by (cases r) (auto simp: wp_rules providesAll_def)
    qed (simp add: entries)
    with Ok show ?thesis by (simp add: wp_rules)
  qed (simp_all add: bindingClusters_no_panic wp_rules discoveryPost_def)
  have no_head: "\<not> discoveryHead req [(GetCall (UnstructuredKind BindingGVK) req, reply)] rb sts" for reply rb sts
    by (simp add: discoveryHead_def)
  have off: "\<not> discoveryHead req (?head rb sts) rb' sts'"
    if "sget (om_Labels (sts_meta sts)) OptInLabel \<noteq> ''enabled''" for rb sts rb' sts'
    using that by (auto simp: discoveryHead_def)
  have missing: "\<not> discoveryHead req [(GetCall (UnstructuredKind BindingGVK) req, reply), (c, Failed e)] rb sts" for reply c e rb sts
    by (simp add: discoveryHead_def)
  show ?thesis
    unfolding DiscoveryReconcile_def Let_def
    using loop by (simp add: wp_rules guard_simps discoveryPost_def no_head off missing)
qed

interpretation discovery: controller "DiscoveryReconcile L poll" "discoveryGuard L" "discoveryPost L poll" for L poll
  by unfold_locales (rule DiscoveryReconcile_wp)

end
