(* ===== verification/MemberSync.thy ===== *)
theory MemberSync
  imports Client VolumeClaims
begin

text \<open>
  The member controller, \<open>internal/member/pvsync_controller.go\<close>: it reads the claims of a
  StatefulSet and the volumes they are bound to in its own cluster, and publishes them in the
  status of the \<open>PVMetadata\<close> object.  Ordinals are \<open>int32\<close> in this file, so the end of the
  ordinal loop is a sum that wraps around.
\<close>

definition minute :: duration where
  "minute = 60 * second"

definition pollInterval :: "duration \<Rightarrow> duration" where
  "pollInterval d = (if d > 0 then d else minute)"

record observation =
  obs_WorkloadUID :: string
  obs_Volumes :: "VolumeMetadata list"
  obs_CollectedAt :: "time option"

section \<open>One volume\<close>

definition slashed :: "string \<Rightarrow> string \<Rightarrow> string" where
  "slashed ns name = ns @ ''/'' @ name"

definition boundTogether :: "PersistentVolumeClaim \<Rightarrow> PersistentVolume \<Rightarrow> goerr option" where
  "boundTogether pvc pv =
     (if pv_Phase pv \<noteq> ''Bound'' then Some (GoError (''pv '' @ om_Name (pv_meta pv) @ '' is not bound''))
      else if \<not> IsZero (om_DeletionTimestamp (pv_meta pv))
      then Some (GoError (''pv '' @ om_Name (pv_meta pv) @ '' is deleting''))
      else case pvsp_ClaimRef (pv_Spec pv) of
        None \<Rightarrow> Some (GoError (''pv '' @ om_Name (pv_meta pv) @ '' has no claimRef''))
      | Some ref \<Rightarrow>
          (if or_Name ref \<noteq> om_Name (pvc_meta pvc) \<or> or_Namespace ref \<noteq> om_Namespace (pvc_meta pvc) \<or>
              or_UID ref \<noteq> om_UID (pvc_meta pvc)
           then Some (GoError (''pv '' @ om_Name (pv_meta pv) @ '' claimRef does not match pvc '' @
                  slashed (om_Namespace (pvc_meta pvc)) (om_Name (pvc_meta pvc))))
           else None))"

definition volumeOf :: "string \<Rightarrow> int32 \<Rightarrow> PersistentVolumeClaim \<Rightarrow> PersistentVolume \<Rightarrow> VolumeMetadata" where
  "volumeOf templateName ordinal pvc pv =
     \<lparr> vm_Standalone = (templateName = []),
       vm_PVCSpec = (if templateName = [] then Some (pvc_Spec pvc) else None),
       vm_PVCName = om_Name (pvc_meta pvc), vm_PVCUID = om_UID (pvc_meta pvc),
       vm_TemplateName = templateName, vm_Ordinal = ordinal,
       vm_PVName = om_Name (pv_meta pv), vm_PVSpec = pv_Spec pv \<rparr>"

definition collectVolume :: "string \<Rightarrow> string \<Rightarrow> int32 \<Rightarrow> string \<Rightarrow> VolumeMetadata act" where
  "collectVolume ns templateName ordinal pvcName =
     tryM (getClaim (ns, pvcName))
       (\<lambda>e. if isNotFound e then raise (GoError (''pvc '' @ slashed ns pvcName @ '' not found''))
            else raise (wrapError (''get pvc '' @ slashed ns pvcName @ '': '') e))
       (\<lambda>pvc.
          require (\<not> om_UID (pvc_meta pvc) = []) (''pvc '' @ slashed ns pvcName @ '' has empty uid'')
          (require (\<not> \<not> IsZero (om_DeletionTimestamp (pvc_meta pvc))) (''pvc '' @ slashed ns pvcName @ '' is deleting'')
          (require (\<not> pvc_Phase pvc \<noteq> ''Bound'') (''pvc '' @ slashed ns pvcName @ '' is not bound'')
          (require (\<not> pcs_VolumeName (pvc_Spec pvc) = []) (''pvc '' @ slashed ns pvcName @ '' is not bound to a pv'')
          (tryM (getVolume ([], pcs_VolumeName (pvc_Spec pvc)))
             (\<lambda>e. if isNotFound e
                  then raise (GoError (''pv '' @ pcs_VolumeName (pvc_Spec pvc) @ '' bound by pvc '' @
                         slashed ns pvcName @ '' not found''))
                  else raise (wrapError (''get pv '' @ pcs_VolumeName (pvc_Spec pvc) @ '': '') e))
             (\<lambda>pv. check (boundTogether pvc pv) (ret (volumeOf templateName ordinal pvc pv))))))))"

section \<open>The ordinals of a StatefulSet\<close>

text \<open>\<open>for ordinal := start; ordinal < start+replicas; ordinal++\<close> in \<open>int32\<close>\<close>

function ordinalsUpTo :: "int32 \<Rightarrow> int32 \<Rightarrow> int32 list" where
  "ordinalsUpTo ordinal bound =
     (if sint ordinal < sint bound then ordinal # ordinalsUpTo (ordinal + 1) bound else [])"
  by auto

lemma sint_succ:
  assumes "sint (a :: int32) < sint (b :: int32)"
  shows "sint (a + 1) = sint a + 1"
proof -
  have "sint b < 2 ^ 31" "- (2 ^ 31) \<le> sint a" using sint_lt [of b] sint_ge [of a] by simp_all
  with assms have "sint a + 1 < 2 ^ 31" "- (2 ^ 31) \<le> sint a + 1" by linarith+
  then have "signed_take_bit 31 (sint a + 1) = sint a + 1"
    by (intro signed_take_bit_int_eq_self) simp_all
  then show ?thesis by (simp add: sint_word_ariths)
qed

termination ordinalsUpTo
  by (relation "measure (\<lambda>(a, b). nat (sint b - sint a))") (auto simp: sint_succ)

declare ordinalsUpTo.simps [simp del]

section \<open>The collection\<close>

fun collectOrdinals :: "string \<Rightarrow> string \<Rightarrow> string \<Rightarrow> int32 list \<Rightarrow> VolumeMetadata list \<Rightarrow> string list \<Rightarrow>
    (VolumeMetadata list \<times> string list) act" where
  "collectOrdinals ns sts template [] volumes seen = ret (volumes, seen)"
| "collectOrdinals ns sts template (ordinal # rest) volumes seen =
     (let pvcName = claimName template sts (sint ordinal)
      in andThen (collectVolume ns template ordinal pvcName)
           (\<lambda>volume. collectOrdinals ns sts template rest (volumes @ [volume]) (pvcName # seen)))"

fun collectTemplates :: "StatefulSet \<Rightarrow> int32 list \<Rightarrow> string list \<Rightarrow> VolumeMetadata list \<Rightarrow> string list \<Rightarrow>
    (VolumeMetadata list \<times> string list) act" where
  "collectTemplates sts ordinals [] volumes seen = ret (volumes, seen)"
| "collectTemplates sts ordinals (template # rest) volumes seen =
     require (\<not> template = [])
       (''statefulset '' @ slashed (om_Namespace (sts_meta sts)) (om_Name (sts_meta sts)) @
        '' has a volumeClaimTemplate without a name'')
     (andThen (collectOrdinals (om_Namespace (sts_meta sts)) (om_Name (sts_meta sts)) template ordinals volumes seen)
       (\<lambda>(volumes, seen). collectTemplates sts ordinals rest volumes seen))"

fun collectStandalone :: "string \<Rightarrow> string list \<Rightarrow> VolumeMetadata list \<Rightarrow> string list \<Rightarrow> VolumeMetadata list act" where
  "collectStandalone ns [] volumes seen = ret volumes"
| "collectStandalone ns (name # rest) volumes seen =
     (if name \<in> set seen then collectStandalone ns rest volumes seen
      else andThen (collectVolume ns [] 0 name)
             (\<lambda>volume. collectStandalone ns rest (volumes @ [volume]) (name # seen)))"

text \<open>
  The capacity \<open>len(templates) * int(replicas)\<close> of the slice that is made for the volumes, in the
  64-bit \<open>int\<close> of Go.  \<open>make\<close> panics when it is negative or larger than the runtime can allocate.
\<close>

definition volumesCapacity :: "StatefulSet \<Rightarrow> int" where
  "volumesCapacity sts =
     sint (word_of_nat (length (sts_VolumeClaimTemplates sts)) * scast (stsReplicas sts) :: 64 word)"

definition volumesFit :: "libraries \<Rightarrow> StatefulSet \<Rightarrow> bool" where
  "volumesFit L sts \<longleftrightarrow> 0 \<le> volumesCapacity sts \<and> volumesCapacity sts \<le> lib_MaxVolumes L"

text \<open>\<open>collect\<close> from \<open>startOrdinal\<close> on, and from its beginning.\<close>

definition observeWorkload :: "libraries \<Rightarrow> StatefulSet \<Rightarrow> observation act" where
  "observeWorkload L sts =
     (let startOrdinal = stsStart sts; replicas = stsReplicas sts
      in if \<not> volumesFit L sts then Return Panic
         else
           andThen (collectTemplates sts (ordinalsUpTo startOrdinal (startOrdinal + replicas))
                      (sts_VolumeClaimTemplates sts) [] [])
             (\<lambda>(volumes, seen).
                andThen (collectStandalone (om_Namespace (sts_meta sts)) (Standalone L sts) volumes seen)
                  (\<lambda>volumes.
                     andThen now
                       (\<lambda>t. ret \<lparr> obs_WorkloadUID = om_UID (sts_meta sts), obs_Volumes = volumes,
                                  obs_CollectedAt = Some t \<rparr>))))"

definition collect :: "libraries \<Rightarrow> PVMetadata \<Rightarrow> observation act" where
  "collect L metadata =
     (let ns = om_Namespace (md_meta metadata); workload = wr_Name (mds_WorkloadRef (md_Spec metadata))
      in require (\<not> workload = []) ''workloadRef.name is required''
       (tryM (getStatefulSet (ns, workload))
         (\<lambda>e. if isNotFound e then raise (GoError (''statefulset '' @ slashed ns workload @ '' not found''))
              else raise (wrapError (''get statefulset '' @ slashed ns workload @ '': '') e))
         (\<lambda>sts.
            let stsName = slashed (om_Namespace (sts_meta sts)) (om_Name (sts_meta sts));
                templates = sts_VolumeClaimTemplates sts
            in require (\<not> sint (stsReplicas sts) \<le> 0) (''statefulset '' @ stsName @ '' has zero replicas'')
             (require (\<not> (length templates = 0 \<and> length (Standalone L sts) = 0))
               (''statefulset '' @ stsName @ '' has no PVC references'')
             (observeWorkload L sts)))))"

section \<open>The reconciler\<close>

definition successfulStatus :: "PVMetadataStatus \<Rightarrow> PVMetadata \<Rightarrow> observation \<Rightarrow> PVMetadataStatus" where
  "successfulStatus current metadata observed =
     current\<lparr> mdst_ObservedGeneration := om_Generation (md_meta metadata), mdst_Ready := True,
       mdst_Message := ''collected'', mdst_CollectedAt := obs_CollectedAt observed,
       mdst_WorkloadUID := obs_WorkloadUID observed, mdst_Volumes := obs_Volumes observed \<rparr>"

definition failedStatus :: "PVMetadataStatus \<Rightarrow> string \<Rightarrow> PVMetadataStatus" where
  "failedStatus current message = current\<lparr> mdst_Ready := False, mdst_Message := message \<rparr>"

definition publish :: "duration \<Rightarrow> PVMetadata \<Rightarrow> PVMetadataStatus \<Rightarrow> outcome act" where
  "publish poll metadata nextStatus =
     (if md_Status metadata \<noteq> nextStatus
      then tryM (patchMetadataStatus metadata (metadata\<lparr> md_Status := nextStatus \<rparr>))
             (\<lambda>e. ret (0, Some e)) (\<lambda>_. ret (pollInterval poll, None))
      else ret (pollInterval poll, None))"

definition MemberReconcile :: "libraries \<Rightarrow> string \<Rightarrow> duration \<Rightarrow> namespaced_name \<Rightarrow> outcome act" where
  "MemberReconcile L clusterName poll req =
     tryM (getMetadata req)
       (\<lambda>e. if isNotFound e then ret (0, None) else ret (0, Some e))
       (\<lambda>metadata.
          if mds_SourceCluster (md_Spec metadata) \<noteq> clusterName then ret (0, None)
          else
            tryM (collect L metadata)
              (\<lambda>e. publish poll metadata (failedStatus (md_Status metadata) (error_text e)))
              (\<lambda>observed. publish poll metadata (successfulStatus (md_Status metadata) metadata observed)))"

end
