(* ===== verification/MemberFacts.thy ===== *)
theory MemberFacts
  imports MemberSync
begin

text \<open>
  The contract of the member controller over any API server, the closed form of a successful
  collection, and the \<open>int32\<close> loop over the ordinals with its wrap-around.
\<close>

section \<open>Ordinals\<close>

lemma ordinalsUpTo_eq:
  "ordinalsUpTo a b = map word_of_int [sint a..sint b - 1]"
proof (induction a b rule: ordinalsUpTo.induct)
  case (1 a b)
  show ?case
  proof (cases "sint a < sint b")
    case True
    then have "[sint a..sint b - 1] = sint a # [sint (a + 1)..sint b - 1]"
      by (subst upto_rec1) (simp_all add: sint_succ)
    with 1 [OF True] True show ?thesis by (subst ordinalsUpTo.simps) simp
  next
    case False
    then show ?thesis by (subst ordinalsUpTo.simps) simp
  qed
qed

lemma sint_sum:
  assumes "sint (a :: int32) + sint (b :: int32) < 2 ^ 31" and "- (2 ^ 31) \<le> sint a + sint b"
  shows "sint (a + b) = sint a + sint b"
proof -
  have "signed_take_bit 31 (sint a + sint b) = sint a + sint b"
    using assms by (intro signed_take_bit_int_eq_self) simp_all
  then show ?thesis by (simp add: sint_word_ariths)
qed

lemma sint_sum_wraps:
  assumes "2 ^ 31 \<le> sint (a :: int32) + sint (b :: int32)"
  shows "sint (a + b) = sint a + sint b - 2 ^ 32"
proof -
  have bounds: "sint a < 2 ^ 31" "sint b < 2 ^ 31" using sint_lt [of a] sint_lt [of b] by simp_all
  have "signed_take_bit 31 (sint a + sint b - 2 ^ 32) = sint a + sint b - 2 ^ 32"
    using assms bounds by (intro signed_take_bit_int_eq_self) simp_all
  moreover have "signed_take_bit 31 (sint a + sint b) = signed_take_bit 31 (sint a + sint b - 2 ^ 32)"
    by (subst signed_take_bit_eq_iff_take_bit_eq) (simp add: take_bit_eq_mod)
  ultimately show ?thesis by (simp add: sint_word_ariths)
qed

text \<open>Within the range of \<open>int32\<close> the loop visits exactly the ordinals of the StatefulSet.\<close>

lemma ordinals_in_range:
  assumes "0 < sint replicas" and "sint start + sint replicas < 2 ^ 31"
  shows "map sint (ordinalsUpTo start (start + replicas)) = [sint start..sint start + sint replicas - 1]"
proof -
  have sum: "sint (start + replicas) = sint start + sint replicas"
    using assms sint_ge [of start] by (intro sint_sum) simp_all
  have "sint (word_of_int i :: int32) = i" if "i \<in> set [sint start..sint start + sint replicas - 1]" for i
  proof -
    have "- (2 ^ 31) \<le> i" "i < 2 ^ 31" using that assms sint_ge [of start] by auto
    then show ?thesis by (simp add: sint_sbintrunc' signed_take_bit_int_eq_self)
  qed
  then show ?thesis unfolding ordinalsUpTo_eq sum map_map by (intro map_idI) simp
qed

text \<open>Past it the bound is below the start and the loop does not run.\<close>

lemma ordinals_wrap:
  assumes "2 ^ 31 \<le> sint start + sint replicas"
  shows "ordinalsUpTo start (start + replicas) = []"
proof -
  have "sint replicas < 2 ^ 31" using sint_lt [of replicas] by simp
  then have "sint (start + replicas) \<le> sint start"
    by (simp add: sint_sum_wraps [OF assms])
  then show ?thesis by (subst ordinalsUpTo.simps) simp
qed

section \<open>A successful collection\<close>

lemma asClaim_Ok: "asClaim r = Ok c \<longleftrightarrow> r = Object (ClaimObj c)"
  by (cases r rule: asClaim.cases) auto

lemma asVolume_Ok: "asVolume r = Ok v \<longleftrightarrow> r = Object (VolumeObj v)"
  by (cases r rule: asVolume.cases) auto

lemma asTime_Ok: "asTime r = Ok t \<longleftrightarrow> r = Clock t"
  by (cases r rule: asTime.cases) auto

lemma exec_member_calls_Ok [exec_rules]:
  "exec (getClaim nn) tr (Ok c) \<longleftrightarrow> tr = [(GetCall ClaimKind nn, Object (ClaimObj c))]"
  "exec (getVolume nn) tr (Ok v) \<longleftrightarrow> tr = [(GetCall VolumeKind nn, Object (VolumeObj v))]"
  "exec now tr (Ok t) \<longleftrightarrow> tr = [(NowCall, Clock t)]"
  by (auto simp: getClaim_def getVolume_def now_def exec_call asClaim_Ok asVolume_Ok asTime_Ok
      eq_commute [of "Ok _"])

lemma exec_tryM_raise_Ok:
  assumes "\<And>e t. \<not> exec (h e) t (Ok y)"
  shows "exec (tryM m h k) tr (Ok y) \<longleftrightarrow>
     (\<exists>t1 x t2. tr = t1 @ t2 \<and> exec m t1 (Ok x) \<and> exec (k x) t2 (Ok y))"
proof -
  have "(case r of Ok x \<Rightarrow> exec (k x) t2 (Ok y) | Err e \<Rightarrow> exec (h e) t2 (Ok y)
        | Panic \<Rightarrow> t2 = [] \<and> Ok y = Panic) \<longleftrightarrow> (\<exists>x. r = Ok x \<and> exec (k x) t2 (Ok y))" for r t2
    using assms by (cases r) simp_all
  note eq = this
  show ?thesis unfolding exec_tryM eq by (intro iffI; elim exE conjE; simp; blast)
qed

text \<open>What one collected volume stands for, and the two reads it comes from.\<close>

definition soundPair :: "PersistentVolumeClaim \<Rightarrow> PersistentVolume \<Rightarrow> bool" where
  "soundPair pvc pv \<longleftrightarrow>
     om_UID (pvc_meta pvc) \<noteq> [] \<and> IsZero (om_DeletionTimestamp (pvc_meta pvc)) \<and> pvc_Phase pvc = ''Bound'' \<and>
     pcs_VolumeName (pvc_Spec pvc) \<noteq> [] \<and> pv_Phase pv = ''Bound'' \<and> IsZero (om_DeletionTimestamp (pv_meta pv)) \<and>
     (\<exists>ref. pvsp_ClaimRef (pv_Spec pv) = Some ref \<and> or_Name ref = om_Name (pvc_meta pvc) \<and>
        or_Namespace ref = om_Namespace (pvc_meta pvc) \<and> or_UID ref = om_UID (pvc_meta pvc))"

definition pairReads :: "string \<Rightarrow> string \<Rightarrow> PersistentVolumeClaim \<Rightarrow> PersistentVolume \<Rightarrow> trace" where
  "pairReads ns name pvc pv =
     [(GetCall ClaimKind (ns, name), Object (ClaimObj pvc)),
      (GetCall VolumeKind ([], pcs_VolumeName (pvc_Spec pvc)), Object (VolumeObj pv))]"

lemma boundTogether_None: "boundTogether pvc pv = None \<longleftrightarrow>
    pv_Phase pv = ''Bound'' \<and> IsZero (om_DeletionTimestamp (pv_meta pv)) \<and>
    (\<exists>ref. pvsp_ClaimRef (pv_Spec pv) = Some ref \<and> or_Name ref = om_Name (pvc_meta pvc) \<and>
       or_Namespace ref = om_Namespace (pvc_meta pvc) \<and> or_UID ref = om_UID (pvc_meta pvc))"
  by (auto simp: boundTogether_def split: option.splits)

lemma collectVolume_Ok:
  "exec (collectVolume ns t ordinal name) tr (Ok v) \<longleftrightarrow>
     (\<exists>pvc pv. tr = pairReads ns name pvc pv \<and> soundPair pvc pv \<and> v = volumeOf t ordinal pvc pv)"
  unfolding collectVolume_def
  by (subst exec_tryM_raise_Ok, simp split: if_split,
      auto simp: exec_rules exec_tryM_raise_Ok boundTogether_None soundPair_def pairReads_def)

text \<open>A request for one volume: template, ordinal and claim name.\<close>

type_synonym volume_request = "string \<times> int32 \<times> string"

definition collectedAs :: "string \<Rightarrow> trace \<Rightarrow> volume_request \<Rightarrow> VolumeMetadata \<Rightarrow> bool" where
  "collectedAs ns tr q v \<longleftrightarrow>
     (case q of (t, ordinal, name) \<Rightarrow>
        \<exists>pvc pv. set (pairReads ns name pvc pv) \<subseteq> set tr \<and> soundPair pvc pv \<and> v = volumeOf t ordinal pvc pv)"

lemma collectedAs_mono: "collectedAs ns tr q v \<Longrightarrow> set tr \<subseteq> set tr' \<Longrightarrow> collectedAs ns tr' q v"
  unfolding collectedAs_def by (cases q) fastforce

definition ordinalRequests :: "string \<Rightarrow> int32 list \<Rightarrow> string \<Rightarrow> volume_request list" where
  "ordinalRequests sts ordinals t = map (\<lambda>ordinal. (t, ordinal, claimName t sts (sint ordinal))) ordinals"

lemma collectOrdinals_Ok:
  "exec (collectOrdinals ns sts t ordinals vs seen) tr (Ok (vs', seen')) \<Longrightarrow>
     \<exists>new. vs' = vs @ new \<and> list_all2 (collectedAs ns tr) (ordinalRequests sts ordinals t) new \<and>
       set seen' = set seen \<union> {n. \<exists>k\<in>set ordinals. n = claimName t sts (sint k)}"
proof (induction ordinals arbitrary: vs seen tr)
  case Nil
  then show ?case by (simp add: ordinalRequests_def)
next
  case (Cons k ordinals)
  from Cons.prems obtain t1 t2 v where tr: "tr = t1 @ t2"
    and v: "exec (collectVolume ns t k (claimName t sts (sint k))) t1 (Ok v)"
    and rest: "exec (collectOrdinals ns sts t ordinals (vs @ [v]) (claimName t sts (sint k) # seen)) t2 (Ok (vs', seen'))"
    by (auto simp: exec_rules Let_def)
  from Cons.IH [OF rest] obtain new where new: "vs' = (vs @ [v]) @ new"
    "list_all2 (collectedAs ns t2) (ordinalRequests sts ordinals t) new"
    "set seen' = set (claimName t sts (sint k) # seen) \<union> {n. \<exists>k\<in>set ordinals. n = claimName t sts (sint k)}" by blast
  have "collectedAs ns tr (t, k, claimName t sts (sint k)) v"
    using v tr by (auto simp: collectVolume_Ok collectedAs_def)
  moreover have "list_all2 (collectedAs ns tr) (ordinalRequests sts ordinals t) new"
    using new(2) by (rule list_all2_mono) (auto simp: tr elim: collectedAs_mono)
  ultimately show ?case using new(1,3) by (auto simp: ordinalRequests_def)
qed

lemma collectTemplates_Ok:
  "exec (collectTemplates sts ordinals ts vs seen) tr (Ok (vs', seen')) \<Longrightarrow>
     \<exists>new. vs' = vs @ new \<and> [] \<notin> set ts \<and>
       list_all2 (collectedAs (om_Namespace (sts_meta sts)) tr)
         (concat (map (ordinalRequests (om_Name (sts_meta sts)) ordinals) ts)) new \<and>
       set seen' = set seen \<union> {n. \<exists>t\<in>set ts. \<exists>k\<in>set ordinals. n = claimName t (om_Name (sts_meta sts)) (sint k)}"
proof (induction ts arbitrary: vs seen tr)
  case Nil
  then show ?case by simp
next
  case (Cons t ts)
  from Cons.prems obtain t1 t2 vs1 seen1 where tr: "tr = t1 @ t2" and ne: "t \<noteq> []"
    and one: "exec (collectOrdinals (om_Namespace (sts_meta sts)) (om_Name (sts_meta sts)) t ordinals vs seen) t1 (Ok (vs1, seen1))"
    and rest: "exec (collectTemplates sts ordinals ts vs1 seen1) t2 (Ok (vs', seen'))"
    by (auto simp: exec_rules)
  from collectOrdinals_Ok [OF one] obtain new1 where new1: "vs1 = vs @ new1"
    "list_all2 (collectedAs (om_Namespace (sts_meta sts)) t1) (ordinalRequests (om_Name (sts_meta sts)) ordinals t) new1"
    "set seen1 = set seen \<union> {n. \<exists>k\<in>set ordinals. n = claimName t (om_Name (sts_meta sts)) (sint k)}" by blast
  from Cons.IH [OF rest] obtain new2 where new2: "vs' = vs1 @ new2" "[] \<notin> set ts"
    "list_all2 (collectedAs (om_Namespace (sts_meta sts)) t2)
       (concat (map (ordinalRequests (om_Name (sts_meta sts)) ordinals) ts)) new2"
    "set seen' = set seen1 \<union> {n. \<exists>t\<in>set ts. \<exists>k\<in>set ordinals. n = claimName t (om_Name (sts_meta sts)) (sint k)}" by blast
  have "list_all2 (collectedAs (om_Namespace (sts_meta sts)) tr) (ordinalRequests (om_Name (sts_meta sts)) ordinals t) new1"
    using new1(2) by (rule list_all2_mono) (auto simp: tr elim: collectedAs_mono)
  moreover have "list_all2 (collectedAs (om_Namespace (sts_meta sts)) tr)
       (concat (map (ordinalRequests (om_Name (sts_meta sts)) ordinals) ts)) new2"
    using new2(3) by (rule list_all2_mono) (auto simp: tr elim: collectedAs_mono)
  ultimately have "list_all2 (collectedAs (om_Namespace (sts_meta sts)) tr)
      (concat (map (ordinalRequests (om_Name (sts_meta sts)) ordinals) (t # ts))) (new1 @ new2)"
    by (simp add: list_all2_appendI)
  with new1 new2 ne show ?case by (intro exI [of _ "new1 @ new2"]) auto
qed

text \<open>The standalone names are distinct and no template claim, so the \<open>seen\<close> test never skips one.\<close>

lemma collectStandalone_Ok:
  "exec (collectStandalone ns names vs seen) tr (Ok vs') \<Longrightarrow> distinct names \<Longrightarrow> set names \<inter> set seen = {} \<Longrightarrow>
     \<exists>new. vs' = vs @ new \<and> list_all2 (collectedAs ns tr) (map (\<lambda>n. ([], 0, n)) names) new"
proof (induction names arbitrary: vs seen tr)
  case Nil
  then show ?case by simp
next
  case (Cons n names)
  from Cons.prems obtain t1 t2 v where tr: "tr = t1 @ t2" and v: "exec (collectVolume ns [] 0 n) t1 (Ok v)"
    and rest: "exec (collectStandalone ns names (vs @ [v]) (n # seen)) t2 (Ok vs')"
    by (auto simp: exec_rules)
  from Cons.IH [OF rest] Cons.prems obtain new where new: "vs' = (vs @ [v]) @ new"
    "list_all2 (collectedAs ns t2) (map (\<lambda>n. ([], 0, n)) names) new" by auto
  have "collectedAs ns tr ([], 0, n) v"
    using v tr by (auto simp: collectVolume_Ok collectedAs_def)
  moreover have "list_all2 (collectedAs ns tr) (map (\<lambda>n. ([], 0, n)) names) new"
    using new(2) by (rule list_all2_mono) (auto simp: tr elim: collectedAs_mono)
  ultimately show ?case using new(1) by auto
qed

definition expectedRequests :: "libraries \<Rightarrow> StatefulSet \<Rightarrow> volume_request list" where
  "expectedRequests L sts =
     concat (map (ordinalRequests (om_Name (sts_meta sts)) (ordinalsUpTo (stsStart sts) (stsStart sts + stsReplicas sts)))
       (sts_VolumeClaimTemplates sts)) @ map (\<lambda>n. ([], 0, n)) (Standalone L sts)"

lemma ordinals_are_template_claims:
  assumes "0 < sint (stsReplicas sts)" and "k \<in> set (ordinalsUpTo (stsStart sts) (stsStart sts + stsReplicas sts))"
    and "t \<in> set (sts_VolumeClaimTemplates sts)"
  shows "claimName t (om_Name (sts_meta sts)) (sint k) \<in> templateClaims sts"
proof (cases "sint (stsStart sts) + sint (stsReplicas sts) < 2 ^ 31")
  case True
  from assms(2) have "sint k \<in> set (map sint (ordinalsUpTo (stsStart sts) (stsStart sts + stsReplicas sts)))" by simp
  with ordinals_in_range [OF assms(1) True]
  have "sint (stsStart sts) \<le> sint k" "sint k < sint (stsStart sts) + sint (stsReplicas sts)" by auto
  with assms(3) show ?thesis
    by (auto simp: templateClaims_def intro!: bexI [of _ t] exI [of _ "sint k - sint (stsStart sts)"])
next
  case False
  with assms(2) show ?thesis by (simp add: ordinals_wrap)
qed

lemma collect_Ok:
  assumes run: "exec (collect L md) tr (Ok obs)" and perm: "\<And>ks. mset (lib_RangeOrder L ks) = mset ks"
  obtains sts t where
    "(GetCall StatefulSetKind (om_Namespace (md_meta md), wr_Name (mds_WorkloadRef (md_Spec md))),
        Object (StatefulSetObj sts)) \<in> set tr"
    "0 < sint (stsReplicas sts)" "[] \<notin> set (sts_VolumeClaimTemplates sts)"
    "sts_VolumeClaimTemplates sts \<noteq> [] \<or> Standalone L sts \<noteq> []"
    "obs_WorkloadUID obs = om_UID (sts_meta sts)" "obs_CollectedAt obs = Some t"
    "list_all2 (collectedAs (om_Namespace (sts_meta sts)) tr) (expectedRequests L sts) (obs_Volumes obs)"
proof -
  from run obtain sts t2 where
      first: "tr = (GetCall StatefulSetKind (om_Namespace (md_meta md), wr_Name (mds_WorkloadRef (md_Spec md))),
        Object (StatefulSetObj sts)) # t2"
    and pos: "0 < sint (stsReplicas sts)" and some: "sts_VolumeClaimTemplates sts \<noteq> [] \<or> Standalone L sts \<noteq> []"
    and rest: "exec (observeWorkload L sts) t2 (Ok obs)"
    unfolding collect_def Let_def
    by (auto simp: exec_rules exec_tryM_raise_Ok split: if_splits)
  from rest obtain a b vs seen vs' t where t2: "t2 = a @ b @ [(NowCall, Clock t)]"
    and tmpl: "exec (collectTemplates sts (ordinalsUpTo (stsStart sts) (stsStart sts + stsReplicas sts))
        (sts_VolumeClaimTemplates sts) [] []) a (Ok (vs, seen))"
    and sta: "exec (collectStandalone (om_Namespace (sts_meta sts)) (Standalone L sts) vs seen) b (Ok vs')"
    and obs: "obs = \<lparr> obs_WorkloadUID = om_UID (sts_meta sts), obs_Volumes = vs', obs_CollectedAt = Some t \<rparr>"
    by (auto simp: observeWorkload_def Let_def exec_rules split: if_splits)
  from collectTemplates_Ok [OF tmpl] have named: "[] \<notin> set (sts_VolumeClaimTemplates sts)"
    and vs: "list_all2 (collectedAs (om_Namespace (sts_meta sts)) a)
      (concat (map (ordinalRequests (om_Name (sts_meta sts)) (ordinalsUpTo (stsStart sts) (stsStart sts + stsReplicas sts)))
        (sts_VolumeClaimTemplates sts))) vs"
    and seen: "set seen = {n. \<exists>t\<in>set (sts_VolumeClaimTemplates sts).
       \<exists>k\<in>set (ordinalsUpTo (stsStart sts) (stsStart sts + stsReplicas sts)). n = claimName t (om_Name (sts_meta sts)) (sint k)}"
    by auto
  obtain cs where cs: "distinct cs" "set cs = referencedClaims sts - templateClaims sts" "Standalone L sts = sort cs"
    using Standalone_unsorted [of L sts] perm by blast
  have "distinct (Standalone L sts)" using cs(1,3) by simp
  moreover have "set (Standalone L sts) \<inter> set seen = {}"
    using cs(2,3) seen ordinals_are_template_claims [OF pos] by auto
  ultimately obtain new where new: "vs' = vs @ new"
    "list_all2 (collectedAs (om_Namespace (sts_meta sts)) b) (map (\<lambda>n. ([], 0, n)) (Standalone L sts)) new"
    using collectStandalone_Ok [OF sta] by blast
  have "list_all2 (collectedAs (om_Namespace (sts_meta sts)) tr) (expectedRequests L sts) (vs @ new)"
    unfolding expectedRequests_def
    by (rule list_all2_appendI; (rule list_all2_mono [OF vs] | rule list_all2_mono [OF new(2)]))
      (auto simp: first t2 elim: collectedAs_mono)
  then show thesis
    using some by (intro that [of sts t]) (auto simp: first pos named obs new(1))
qed

text \<open>The collection makes no other calls than reads of one object and of the clock.\<close>

fun collecting :: "api_call \<Rightarrow> bool" where
  "collecting (GetCall _ _) = True"
| "collecting NowCall = True"
| "collecting _ = False"

lemma collectVolume_calls: "callsOnly collecting (collectVolume ns t ordinal name)"
  unfolding collectVolume_def by (auto intro!: callsOnly_intros)

lemma collectOrdinals_calls: "callsOnly collecting (collectOrdinals ns sts t ordinals vs seen)"
  by (induction ordinals arbitrary: vs seen)
    (auto simp: Let_def intro!: callsOnly_intros collectVolume_calls)

lemma collectTemplates_calls: "callsOnly collecting (collectTemplates sts ordinals ts vs seen)"
  by (induction ts arbitrary: vs seen)
    (auto intro!: callsOnly_intros collectOrdinals_calls split: prod.split)

lemma collectStandalone_calls: "callsOnly collecting (collectStandalone ns names vs seen)"
  by (induction names arbitrary: vs seen) (auto intro!: callsOnly_intros collectVolume_calls)

lemma collect_calls: "callsOnly collecting (collect L md)"
  unfolding collect_def observeWorkload_def Let_def
  by (auto intro!: callsOnly_intros collectTemplates_calls collectStandalone_calls split: prod.split)

section \<open>The contract\<close>

text \<open>
  The only write is a patch of the status of the object that was read, when its source cluster
  is the cluster of the controller: after a successful collection the observation, after a
  failed one the old status with the message and without \<open>Ready\<close>.
\<close>

definition memberWrite :: "libraries \<Rightarrow> trace \<Rightarrow> PVMetadata \<Rightarrow> PVMetadataStatus \<Rightarrow> bool" where
  "memberWrite L rest md status \<longleftrightarrow>
     status \<noteq> md_Status md \<and>
     ((\<exists>obs. exec (collect L md) rest (Ok obs) \<and> status = successfulStatus (md_Status md) md obs) \<or>
      (\<exists>e. exec (collect L md) rest (Err e) \<and> status = failedStatus (md_Status md) (error_text e)))"

definition memberGuard :: "libraries \<Rightarrow> string \<Rightarrow> namespaced_name \<Rightarrow> trace \<Rightarrow> api_call \<Rightarrow> bool" where
  "memberGuard L clusterName req tr c =
     (case c of
        GetCall _ _ \<Rightarrow> True
      | NowCall \<Rightarrow> True
      | StatusPatchCall base new \<Rightarrow>
          (\<exists>md rest status. tr = (GetCall MetadataKind req, Object (MetadataObj md)) # rest \<and>
             mds_SourceCluster (md_Spec md) = clusterName \<and> base = MetadataObj md \<and>
             new = MetadataObj (md\<lparr> md_Status := status \<rparr>) \<and> memberWrite L rest md status)
      | _ \<Rightarrow> False)"

definition memberPost :: "string \<Rightarrow> duration \<Rightarrow> namespaced_name \<Rightarrow> trace \<Rightarrow> outcome go \<Rightarrow> bool" where
  "memberPost clusterName poll req tr r \<longleftrightarrow>
     r = Panic \<or>
     (\<exists>d e. r = Ok (d, e) \<and>
        (d = pollInterval poll \<and> e = None \<or>
         d = 0 \<and> (\<exists>reply rest. tr = (GetCall MetadataKind req, reply) # rest \<and>
           (case reply of Failed err \<Rightarrow> rest = [] \<and> e = IgnoreNotFound err
              | Object (MetadataObj md) \<Rightarrow>
                  (if mds_SourceCluster (md_Spec md) \<noteq> clusterName then rest = [] \<and> e = None else e \<noteq> None)
              | _ \<Rightarrow> False))))"

lemma memberGuard_reads [guard_simps]: "memberGuard L cl req tr (GetCall k nn)" "memberGuard L cl req tr NowCall"
  by (simp_all add: memberGuard_def)

lemma publish_wp:
  assumes head: "tr = (GetCall MetadataKind req, Object (MetadataObj md)) # rest"
    and src: "mds_SourceCluster (md_Spec md) = clusterName"
    and patch: "status \<noteq> md_Status md \<Longrightarrow> memberWrite L rest md status"
  shows "wp (memberGuard L clusterName req) (publish poll md status) (memberPost clusterName poll req) tr"
proof -
  have "memberGuard L clusterName req tr (StatusPatchCall (MetadataObj md) (MetadataObj (md\<lparr> md_Status := status \<rparr>)))"
    if "status \<noteq> md_Status md"
    using head src patch [OF that] by (auto simp: memberGuard_def)
  then show ?thesis
    using head src by (auto simp: publish_def wp_rules Let_def memberPost_def)
qed

lemma MemberReconcile_wp:
  "wp (memberGuard L clusterName req) (MemberReconcile L clusterName poll req) (memberPost clusterName poll req) []"
proof -
  have collected: "wp (memberGuard L clusterName req) (collect L md)
      (after (memberGuard L clusterName req)
        (\<lambda>e. publish poll md (failedStatus (md_Status md) (error_text e)))
        (\<lambda>observed. publish poll md (successfulStatus (md_Status md) md observed))
        (memberPost clusterName poll req)) [(GetCall MetadataKind req, Object (MetadataObj md))]"
    if src: "mds_SourceCluster (md_Spec md) = clusterName" for md
  proof (rule wp_mono [OF wp_callsOnly [OF collect_calls]])
    show "collecting c \<Longrightarrow> memberGuard L clusterName req t c" for t c
      by (cases c) (simp_all add: guard_simps)
  next
    fix t r
    assume "\<exists>ext. t = [(GetCall MetadataKind req, Object (MetadataObj md))] @ ext \<and> exec (collect L md) ext r"
    then obtain ext where t: "t = (GetCall MetadataKind req, Object (MetadataObj md)) # ext"
      and ext: "exec (collect L md) ext r" by auto
    have "memberWrite L ext md (successfulStatus (md_Status md) md obs)"
      if "r = Ok obs" "successfulStatus (md_Status md) md obs \<noteq> md_Status md" for obs
      using ext that by (auto simp: memberWrite_def)
    moreover have "memberWrite L ext md (failedStatus (md_Status md) (error_text e))"
      if "r = Err e" "failedStatus (md_Status md) (error_text e) \<noteq> md_Status md" for e
      using ext that by (auto simp: memberWrite_def)
    ultimately show "after (memberGuard L clusterName req)
        (\<lambda>e. publish poll md (failedStatus (md_Status md) (error_text e)))
        (\<lambda>observed. publish poll md (successfulStatus (md_Status md) md observed))
        (memberPost clusterName poll req) t r"
      by (cases r) (auto simp: after_def memberPost_def intro!: publish_wp [OF t src])
  qed
  show ?thesis
    unfolding MemberReconcile_def
    using collected by (simp add: wp_rules guard_simps) (auto simp: memberPost_def IgnoreNotFound_def)
qed

interpretation member: controller "MemberReconcile L clusterName poll" "memberGuard L clusterName" "memberPost clusterName poll"
  for L clusterName poll
  by unfold_locales (rule MemberReconcile_wp)

end
