(* ===== verification/Scenario.thy ===== *)
theory Scenario
  imports ReferenceLibraries CleanupFacts DiscoveryFacts MemberFacts
begin

text \<open>
  One concrete migration, used to apply the results of the development to: a StatefulSet
  \<open>db\<close> with the claim template \<open>data\<close> and one standalone claim \<open>ckpt\<close>, moved from
  cluster \<open>a\<close> to cluster \<open>b\<close>.  The libraries are the reference ones, but for a digest and
  an encoder that evaluate quickly.
\<close>

definition padDigest :: "string \<Rightarrow> string" where
  "padDigest s = take 32 (rev s @ replicate 32 CHR ''0'')"

definition demoLibraries :: libraries where
  "demoLibraries = referenceLibraries
     \<lparr> lib_Sum256 := padDigest, lib_Marshal := (\<lambda>parts. Ok (showNat (length parts))) \<rparr>"

definition demoNFS :: NFSVolumeSource where
  "demoNFS = \<lparr> nfs_Server = ''s'', nfs_Path = ''/p'', nfs_ReadOnly = False \<rparr>"

definition demoVolumeSpec :: "string \<Rightarrow> string \<Rightarrow> PersistentVolumeSpec" where
  "demoVolumeSpec claim uid =
     \<lparr> pvsp_Capacity = fmupd ''storage'' 10 fmempty,
       pvsp_Source = \<lparr> pvs_NFS = Some demoNFS, pvs_others = fmempty \<rparr>,
       pvsp_AccessModes = [''RWX''],
       pvsp_ClaimRef = Some \<lparr> or_APIVersion = ''v1'', or_Kind = ''PersistentVolumeClaim'', or_Namespace = ''n'',
         or_Name = claim, or_UID = uid, or_others = fmempty \<rparr>,
       pvsp_ReclaimPolicy = ''Delete'', pvsp_StorageClassName = ''c'', pvsp_VolumeMode = None,
       pvsp_NodeAffinity = None, pvsp_others = fmempty \<rparr>"

definition demoClaimSpec :: "string \<Rightarrow> PersistentVolumeClaimSpec" where
  "demoClaimSpec pv =
     \<lparr> pcs_AccessModes = [''RWX''], pcs_Selector = None, pcs_Requests = fmupd ''storage'' 10 fmempty,
       pcs_VolumeName = pv, pcs_StorageClassName = Some ''c'', pcs_VolumeMode = None, pcs_DataSource = None,
       pcs_DataSourceRef = None, pcs_VolumeAttributesClassName = None, pcs_others = fmempty \<rparr>"

definition demoData :: VolumeMetadata where
  "demoData = \<lparr> vm_Standalone = False, vm_PVCSpec = None, vm_PVCName = ''data-db-0'', vm_PVCUID = ''u1'',
     vm_TemplateName = ''data'', vm_Ordinal = 0, vm_PVName = ''pv1'', vm_PVSpec = demoVolumeSpec ''data-db-0'' ''u1'' \<rparr>"

definition demoCkpt :: VolumeMetadata where
  "demoCkpt = \<lparr> vm_Standalone = True, vm_PVCSpec = Some (demoClaimSpec ''pv2''), vm_PVCName = ''ckpt'', vm_PVCUID = ''u2'',
     vm_TemplateName = [], vm_Ordinal = 0, vm_PVName = ''pv2'', vm_PVSpec = demoVolumeSpec ''ckpt'' ''u2'' \<rparr>"

definition demoSnapshot :: ClusterSnapshot where
  "demoSnapshot = \<lparr> cs_ClusterName = ''a'', cs_ObservedGeneration = 1, cs_Ready = True, cs_Message = ''collected'',
     cs_CollectedAt = Some 5, cs_WorkloadUID = ''w'', cs_Volumes = [demoData, demoCkpt] \<rparr>"

definition demoMetadata :: PVMetadata where
  "demoMetadata =
     \<lparr> md_meta = emptyMeta\<lparr> om_Name := ''md'', om_Namespace := ''n'', om_Generation := 1 \<rparr>,
       md_Spec = \<lparr> mds_WorkloadRef = \<lparr> wr_Name = ''db'', wr_UID = ''w'' \<rparr>, mds_SourceCluster = ''a'' \<rparr>,
       md_Status = emptyMetadataStatus\<lparr> mdst_Clusters := [demoSnapshot] \<rparr> \<rparr>"

definition demoDataMapping :: VolumeMapping where
  "demoDataMapping = \<lparr> vmap_SourcePVC = ''data-db-0'', vmap_TargetPVC = ''data-db-0'' \<rparr>"

definition demoCkptMapping :: VolumeMapping where
  "demoCkptMapping = \<lparr> vmap_SourcePVC = ''ckpt'', vmap_TargetPVC = ''ckpt'' \<rparr>"

definition demoSpec :: PVMigrationSpec where
  "demoSpec = \<lparr> ms_MetadataRef = ''md'', ms_SourceCluster = ''a'', ms_TargetCluster = ''b'', ms_ResourceBinding = ''rb'',
     ms_SourceFenced = True,
     ms_Volumes = [demoDataMapping, demoCkptMapping] \<rparr>"

definition demoMigration :: PVMigration where
  "demoMigration =
     \<lparr> mig_meta = emptyMeta\<lparr> om_Name := ''m'', om_Namespace := ''n'', om_UID := ''u'', om_ResourceVersion := ''7'',
         om_Generation := 1 \<rparr>,
       mig_Spec = demoSpec,
       mig_Status = \<lparr> mst_ObservedGeneration = 0, mst_Phase = [], mst_Message = [], mst_PlanHash = [], mst_Works = [] \<rparr> \<rparr>"

section \<open>Its plan\<close>

lemma demo_lib_simps [simp]:
  "lib_IsDNS1123Subdomain demoLibraries = dnsErrors" "lib_PVToUnstructured demoLibraries = Ok \<circ> volumeJson"
  "lib_PVCToUnstructured demoLibraries = Ok \<circ> claimJson" "lib_RangeOrder demoLibraries = (\<lambda>ks. ks)"
  "lib_NFSFromUnstructured demoLibraries = nfsOfJson" "lib_Sum256 demoLibraries = padDigest"
  "lib_Marshal demoLibraries = (\<lambda>parts. Ok (showNat (length parts)))"
  "lib_ParseTime demoLibraries = parseTime" "lib_ControllerUID demoLibraries = ownerController"
  "lib_MaxVolumes demoLibraries = 2 ^ 38"
  by (simp_all add: demoLibraries_def referenceLibraries_def)

definition demoName :: "VolumeMapping \<Rightarrow> string" where
  "demoName mp = volumeName demoLibraries demoMigration demoMetadata mp"

definition demoSpecOf :: "VolumeMapping \<Rightarrow> PersistentVolumeSpec" where
  "demoSpecOf mp = (demoVolumeSpec [] [])\<lparr> pvsp_ReclaimPolicy := ''Retain'',
     pvsp_ClaimRef := Some \<lparr> or_APIVersion = ''v1'', or_Kind = ''PersistentVolumeClaim'', or_Namespace = ''n'',
        or_Name = vmap_TargetPVC mp, or_UID = [], or_others = fmempty \<rparr> \<rparr>"

definition demoWorks :: "jobj list" where
  "demoWorks =
     [plannedWork demoMigration demoData (demoName demoDataMapping) 0
        (fmdrop ''status'' (volumeJson (targetVolume demoMigration (demoSpecOf demoDataMapping) (demoName demoDataMapping)))),
      plannedWork demoMigration demoCkpt (demoName demoCkptMapping) 0
        (fmdrop ''status'' (volumeJson (targetVolume demoMigration (demoSpecOf demoCkptMapping) (demoName demoCkptMapping)))),
      plannedWork demoMigration demoCkpt (demoName demoCkptMapping) 1
        (fmdrop ''status'' (claimJson (targetClaim demoMigration demoCkpt (demoClaimSpec ''pv2'') ''c'' (demoName demoCkptMapping))))]"

lemmas demo_defs = demoMigration_def demoSpec_def demoMetadata_def demoSnapshot_def demoData_def demoCkpt_def
  demoVolumeSpec_def demoClaimSpec_def demoNFS_def

lemma demo_dns: "dnsErrors ''b'' = []" "dnsErrors ''data-db-0'' = []" "dnsErrors ''ckpt'' = []"
  by code_simp+

lemma demo_prefix: "validOrdinalPVC demoLibraries ''data-db-0'' ''data-db-''"
  by (simp add: validOrdinalPVC_def demo_dns isDigit_def)

lemma demo_build: "BuildWorks demoLibraries demoMigration demoMetadata = Ok demoWorks"
proof -
  have exec': "executionNamespace demoMigration = ''karmada-es-b''" by (simp add: executionNamespace_def demo_defs)
  have spec0: "retainedSpec demoMigration demoData demoDataMapping = Ok (demoSpecOf demoDataMapping)"
    and spec1: "retainedSpec demoMigration demoCkpt demoCkptMapping = Ok (demoSpecOf demoCkptMapping)"
    by (simp_all add: retainedSpec_def demoDataMapping_def demoCkptMapping_def demoSpecOf_def demo_defs)
  have claim: "standaloneClaim demoLibraries demoMigration demoCkpt p =
      Ok (fmdrop ''status'' (claimJson (targetClaim demoMigration demoCkpt (demoClaimSpec ''pv2'') ''c'' p)))" for p
    by (simp add: standaloneClaim_def demo_defs quantityOf_def volumeMode_def encoded_def Let_def)
  have name: "volumeName demoLibraries demoMigration demoMetadata mp = demoName mp" for mp
    by (simp add: demoName_def)
  have ne: "demoName mp \<noteq> []" for mp by (simp add: demoName_def)
  have standalone: "\<not> vm_Standalone demoData" "vm_Standalone demoCkpt" by (simp_all add: demo_defs)
  have works0: "mappingWorks demoLibraries demoMigration demoMetadata demoData demoDataMapping = Ok (take 1 demoWorks)"
    and works1: "mappingWorks demoLibraries demoMigration demoMetadata demoCkpt demoCkptMapping = Ok (drop 1 demoWorks)"
    by (simp_all add: mappingWorks_def mappingManifests_def spec0 spec1 name claim encoded_def
        setWorkRouting_planned [OF ne] demoWorks_def standalone)
  have vols: "indexVolumes (cs_Volumes demoSnapshot) fmempty = Ok (fmupd ''ckpt'' demoCkpt (fmupd ''data-db-0'' demoData fmempty))"
    by (simp add: demo_defs)
  have check0: "checkMapping demoLibraries demoMetadata (fmupd ''ckpt'' demoCkpt (fmupd ''data-db-0'' demoData fmempty))
      demoDataMapping emptyAcc = Ok (demoData, \<lparr> acc_seenSource = [''data-db-0''], acc_seenTarget = [''data-db-0''],
         acc_ordinals = fmupd ''0'' 0 fmempty \<rparr>)"
    using demo_prefix
    by (simp add: checkMapping_def demoDataMapping_def demoCkptMapping_def emptyAcc_def claimPrefix_def TrimPrefix_def demo_dns demo_defs)
  have check1: "checkMapping demoLibraries demoMetadata (fmupd ''ckpt'' demoCkpt (fmupd ''data-db-0'' demoData fmempty))
      demoCkptMapping \<lparr> acc_seenSource = [''data-db-0''], acc_seenTarget = [''data-db-0''],
         acc_ordinals = fmupd ''0'' 0 fmempty \<rparr> = Ok (demoCkpt, \<lparr> acc_seenSource = [''ckpt'', ''data-db-0''],
         acc_seenTarget = [''ckpt'', ''data-db-0''], acc_ordinals = fmupd ''0'' 0 fmempty \<rparr>)"
    by (simp add: checkMapping_def demoDataMapping_def demoCkptMapping_def demo_dns demo_defs)
  have mappings: "ms_Volumes (mig_Spec demoMigration) = [demoDataMapping, demoCkptMapping]"
    by (simp add: demoDataMapping_def demoCkptMapping_def demo_defs)
  have "findSnapshot ''a'' (mdst_Clusters (md_Status demoMetadata)) None = Ok (Some demoSnapshot)"
    "ms_SourceCluster (mig_Spec demoMigration) = ''a''" "ms_TargetCluster (mig_Spec demoMigration) = ''b''"
    "snapshotUsable demoMetadata demoSnapshot"
    by (simp_all add: demo_defs snapshotUsable_def)
  with vols check0 check1 works0 works1 show ?thesis
    by (simp add: BuildWorks_def mappings exec' demo_dns)
qed

end
