(* ===== verification/ScenarioGate.thy ===== *)
theory ScenarioGate
  imports Scenario
begin

text \<open>
  The migration of the scenario at the gate: the workload, its binding, and the trace of a
  gate that lets the request through.
\<close>

definition demoWorkload :: StatefulSet where
  "demoWorkload =
     \<lparr> sts_meta = emptyMeta\<lparr> om_Name := ''db'', om_Namespace := ''n'', om_UID := ''w'' \<rparr>,
       sts_Replicas = None, sts_OrdinalsStart = None, sts_VolumeClaimTemplates = [''data''],
       sts_Volumes = [\<lparr> vol_Name = ''ckpt'', vol_ClaimName = Some ''ckpt'' \<rparr>],
       sts_TemplateAnnotations = fmempty \<rparr>"

definition demoBinding :: jobj where
  "demoBinding =
     fmupd ''spec'' (JObj
       (fmupd ''suspension'' (JObj (fmupd ''dispatching'' (JBool True) fmempty))
       (fmupd ''resource'' (JObj
         (fmupd ''apiVersion'' (JStr ''apps/v1'') (fmupd ''kind'' (JStr ''StatefulSet'')
         (fmupd ''name'' (JStr ''db'') fmempty))))
       fmempty)))
     fmempty"

definition demoGate :: "PVMigration list \<Rightarrow> trace" where
  "demoGate peers = gateReads demoMigration demoBinding demoWorkload peers"

lemma demo_standalone: "Standalone demoLibraries demoWorkload = [''ckpt'']"
proof -
  have "generatedClaims demoWorkload ''data'' = [''data-db-0'']"
    by (simp add: generatedClaims_def demoWorkload_def stsReplicas_def stsStart_def claimName_def showInt_def showNat_zero)
  then show ?thesis
    by (simp add: Standalone_def addKey_def) (simp add: demoWorkload_def addKey_def)
qed

lemma demo_marked:
  assumes "ms_SourceCluster (mig_Spec m) = ''a''"
  shows "markedStandalone m demoMetadata = fmupd ''ckpt'' True (fmupd ''data-db-0'' False fmempty)"
  unfolding markedStandalone_def assms by (simp add: demo_defs)

lemma demo_template: "templatePrefix demoWorkload ''data'' = ''data-db-''" "sts_VolumeClaimTemplates demoWorkload = [''data'']"
  by (simp_all add: templatePrefix_def demoWorkload_def)

lemma demo_targets:
  assumes "ms_SourceCluster (mig_Spec m) = ''a''" and "ms_Volumes (mig_Spec m) = [demoDataMapping, demoCkptMapping]"
  shows "targetsCheck demoLibraries m demoMetadata demoWorkload = None"
  unfolding targetsCheck_def demo_marked [OF assms(1)] demo_standalone assms(2)
  using demo_prefix
  by (simp add: demoDataMapping_def demoCkptMapping_def demo_template TrimPrefix_def addTemplate_def addKey_def ordinalComplete_def)

text \<open>Everything but the check on the target names.\<close>

lemma demo_accepted:
  assumes "ms_SourceCluster (mig_Spec m) = ''a''" "ms_TargetCluster (mig_Spec m) = ''b''" "ms_SourceFenced (mig_Spec m)"
    and "peersAllow m peers" and "targetsCheck demoLibraries m demoMetadata demoWorkload = None"
  shows "bindingAccepted demoLibraries m demoMetadata demoBinding demoWorkload peers"
proof -
  have "requestCheck m demoMetadata = None"
    unfolding requestCheck_def assms(1,2) using assms(3) by (simp add: demo_defs)
  moreover have "resourceMatches demoMetadata demoBinding"
    by (simp add: resourceMatches_def demo_defs demoBinding_def strAt_def NestedString_def NestedField_Cons)
  moreover have "workloadMatches demoMetadata demoWorkload"
    by (simp add: workloadMatches_def demo_defs demoWorkload_def)
  moreover have "boolAt demoBinding [''spec'', ''suspension'', ''dispatching'']"
    by (simp add: boolAt_iff demoBinding_def NestedField_Cons)
  ultimately show ?thesis
    using assms(4,5) by (simp add: bindingAccepted_def)
qed

lemma demo_not_selected: "\<not> targetSelected m demoBinding"
  by (simp add: targetSelected_def demoBinding_def sliceAt_def NestedSlice_def NestedField_Cons)

lemma demo_passes:
  assumes "bindingAccepted demoLibraries m demoMetadata demoBinding demoWorkload peers"
  shows "exec (validateBinding demoLibraries m demoMetadata) (gateReads m demoBinding demoWorkload peers) (Ok ())"
  unfolding validateBinding_Ok
  using assms demo_not_selected
  by (intro exI [of _ demoBinding] exI [of _ demoWorkload] exI [of _ peers] exI [of _ "[]"]) (simp add: holdTrace_def)

lemma demo_gate:
  assumes "mig_Spec m = demoSpec" and "peersAllow m peers"
  shows "exec (validateBinding demoLibraries m demoMetadata) (gateReads m demoBinding demoWorkload peers) (Ok ())"
  by (intro demo_passes demo_accepted demo_targets assms(2))
    (simp_all add: assms(1) demoSpec_def demoDataMapping_def demoCkptMapping_def)

lemma demo_peers: "mig_UID m = ''u'' \<Longrightarrow> peersAllow m [demoMigration]"
  by (simp add: peersAllow_iff requestsConflict_def demoMigration_def)

text \<open>A second request, which restores the volume under the next ordinal.\<close>

definition demoPeer :: PVMigration where
  "demoPeer = demoMigration\<lparr> mig_meta := (mig_meta demoMigration)\<lparr> om_Name := ''m2'', om_UID := ''u2'' \<rparr>,
     mig_Spec := demoSpec\<lparr> ms_Volumes := [\<lparr> vmap_SourcePVC = ''data-db-0'', vmap_TargetPVC = ''data-db-1'' \<rparr>] \<rparr> \<rparr>"

lemma demo_peer_targets: "targetsCheck demoLibraries demoPeer demoMetadata demoWorkload = None"
proof -
  have src: "ms_SourceCluster (mig_Spec demoPeer) = ''a''"
    and vols: "ms_Volumes (mig_Spec demoPeer) = [\<lparr> vmap_SourcePVC = ''data-db-0'', vmap_TargetPVC = ''data-db-1'' \<rparr>]"
    by (simp_all add: demoPeer_def demoSpec_def)
  have "dnsErrors ''data-db-1'' = []" by code_simp
  then have "validOrdinalPVC demoLibraries ''data-db-1'' ''data-db-''"
    by (simp add: validOrdinalPVC_def isDigit_def)
  then show ?thesis
    unfolding targetsCheck_def demo_marked [OF src] demo_standalone vols
    by (simp add: demo_template TrimPrefix_def addTemplate_def addKey_def ordinalComplete_def)
qed

lemma demo_peers_pass:
  "exec (validateBinding demoLibraries demoMigration demoMetadata)
     (gateReads demoMigration demoBinding demoWorkload [demoMigration, demoPeer]) (Ok ())"
  "exec (validateBinding demoLibraries demoPeer demoMetadata)
     (gateReads demoPeer demoBinding demoWorkload [demoMigration, demoPeer]) (Ok ())"
  by (intro demo_passes demo_accepted demo_targets demo_peer_targets;
      simp add: demoPeer_def demo_defs demoDataMapping_def demoCkptMapping_def peersAllow_iff requestsConflict_def targetClaims_def)+

lemma demo_holder_passes:
  "exec (validateBinding demoLibraries demoMigration demoMetadata)
     (gateReads demoMigration demoBinding demoWorkload
        [demoPeer\<lparr> mig_Status := (mig_Status demoPeer)\<lparr> mst_Phase := ''Ready'' \<rparr> \<rparr>]) (Ok ())"
  by (intro demo_passes demo_accepted demo_targets;
      simp add: demoPeer_def demo_defs demoDataMapping_def demoCkptMapping_def peersAllow_iff requestsConflict_def targetClaims_def)

text \<open>The same request under a restore operation that has already selected the target.\<close>

definition demoHeld :: PVMigration where
  "demoHeld = demoMigration\<lparr> mig_meta := (mig_meta demoMigration)\<lparr> om_Annotations :=
     fmupd ''training.dcnlab.com/placement-restore-request-uid'' ''op'' fmempty \<rparr> \<rparr>"

definition demoHold :: "(string, string) fmap" where
  "demoHold =
     fmupd ''training.dcnlab.com/placement-restore-request-uid'' ''op''
     (fmupd ''migration.dcnlab.com/group-volume-hold'' ''op''
     (fmupd ''migration.dcnlab.com/pv-migration'' ''m''
     (fmupd ''migration.dcnlab.com/pv-migration-uid'' ''u''
     (fmupd ''training.dcnlab.com/placement-restore-request'' ''restore'' fmempty))))"

definition demoHeldBinding :: jobj where
  "demoHeldBinding =
     fmupd ''metadata'' (JObj
       (fmupd ''uid'' (JStr ''r'')
       (fmupd ''annotations'' (string_json demoHold) fmempty)))
     (fmupd ''spec'' (JObj
       (fmupd ''suspension'' (JObj (fmupd ''dispatching'' (JBool True) fmempty))
       (fmupd ''clusters'' (JArr [JObj (fmupd ''name'' (JStr ''b'') fmempty)])
       (fmupd ''resource'' (JObj
         (fmupd ''apiVersion'' (JStr ''apps/v1'') (fmupd ''kind'' (JStr ''StatefulSet'')
         (fmupd ''name'' (JStr ''db'') (fmupd ''namespace'' (JStr ''n'') (fmupd ''uid'' (JStr ''w'') fmempty))))))
       fmempty))))
     fmempty)"

definition demoRestore :: jobj where
  "demoRestore =
     fmupd ''metadata'' (JObj (fmupd ''uid'' (JStr ''op'') fmempty))
     (fmupd ''spec'' (JObj
       (fmupd ''sourceCluster'' (JStr ''a'') (fmupd ''targetCluster'' (JStr ''b'')
       (fmupd ''workloadRef'' (JObj
         (fmupd ''apiVersion'' (JStr ''apps/v1'') (fmupd ''kind'' (JStr ''StatefulSet'')
         (fmupd ''name'' (JStr ''db'') (fmupd ''uid'' (JStr ''w'') fmempty)))))
       (fmupd ''groupRestore'' (JObj
         (fmupd ''operationUID'' (JStr ''r'') (fmupd ''sourceWorldUID'' (JStr ''w'') fmempty)))
       fmempty)))))
     fmempty)"

definition demoHeldTrace :: trace where
  "demoHeldTrace = gateReads demoHeld demoHeldBinding demoWorkload [] @
     [(holdCall demoHeld demoHeldBinding, Object (UnstructuredObj demoRestore))]"

lemma demoHeld_selected:
  "elems (sliceAt demoHeldBinding [''spec'', ''clusters'']) = [JObj (fmupd ''name'' (JStr ''b'') fmempty)]"
  by (simp add: demoHeldBinding_def sliceAt_def NestedSlice_def NestedField_Cons)

lemma demoHeld_reads:
  "GetUID demoHeldBinding = ''r''" "GetUID demoRestore = ''op''"
  "GetDeletionTimestamp L demoHeldBinding = None" "GetDeletionTimestamp L demoRestore = None"
  "strAt demoHeldBinding [''spec'', ''resource'', ''uid''] = ''w''"
  "strAt demoHeldBinding [''spec'', ''resource'', ''namespace''] = ''n''"
  by (simp_all add: demoHeldBinding_def demoRestore_def GetUID_def GetDeletionTimestamp_def strAt_def NestedString_def NestedField_Cons)

lemma demoHeld_fields:
  "mig_UID demoHeld = ''u''" "mig_Name demoHeld = ''m''" "mig_Namespace demoHeld = ''n''" "mig_Spec demoHeld = demoSpec"
  "om_Annotations (mig_meta demoHeld) = fmupd ''training.dcnlab.com/placement-restore-request-uid'' ''op'' fmempty"
  "om_DeletionTimestamp (md_meta demoMetadata) = None" "mds_WorkloadRef (md_Spec demoMetadata) = \<lparr> wr_Name = ''db'', wr_UID = ''w'' \<rparr>"
  "ms_SourceCluster demoSpec = ''a''" "ms_TargetCluster demoSpec = ''b''"
  by (simp_all add: demoHeld_def demo_defs emptyMeta_def)

lemma demoHeld_hold: "holdAccepted demoLibraries demoHeld demoMetadata demoHeldBinding demoRestore"
proof -
  have "stringNoError demoRestore (''spec'' # fst c) = Some (snd c)"
    if "c \<in> set (holdChecks demoHeld demoMetadata demoHeldBinding)" for c
    using that unfolding holdChecks_def demoHeld_reads demoHeld_fields Let_def
    by (auto simp: demoRestore_def stringNoError_def NestedString_def NestedField_Cons)
  then have "\<forall>(path, want)\<in>set (holdChecks demoHeld demoMetadata demoHeldBinding).
      stringNoError demoRestore (''spec'' # path) = Some want" by auto
  moreover have "GetAnnotations demoHeldBinding = demoHold"
    by (simp add: GetAnnotations_def demoHeldBinding_def NestedField_Cons)
  ultimately show ?thesis
    unfolding holdAccepted_def Let_def demoHeld_reads demoHeld_fields by (simp add: demoHold_def requestUIDKey_def IsZero_def)
qed

lemma demo_held_passes: "exec (validateBinding demoLibraries demoHeld demoMetadata) demoHeldTrace (Ok ())"
proof -
  have "bindingAccepted demoLibraries demoHeld demoMetadata demoHeldBinding demoWorkload []"
  proof -
    have "requestCheck demoHeld demoMetadata = None"
      by (simp add: requestCheck_def demoHeld_def demo_defs)
    moreover have "resourceMatches demoMetadata demoHeldBinding"
      by (simp add: resourceMatches_def demo_defs demoHeldBinding_def strAt_def NestedString_def NestedField_Cons)
    moreover have "workloadMatches demoMetadata demoWorkload"
      by (simp add: workloadMatches_def demo_defs demoWorkload_def)
    moreover have "boolAt demoHeldBinding [''spec'', ''suspension'', ''dispatching'']"
      by (simp add: boolAt_iff demoHeldBinding_def NestedField_Cons)
    moreover have "targetsCheck demoLibraries demoHeld demoMetadata demoWorkload = None"
      by (rule demo_targets) (simp_all add: demoHeld_def demo_defs)
    ultimately show ?thesis by (simp add: bindingAccepted_def peersAllow_def)
  qed
  moreover have "holdTrace demoLibraries demoHeld demoMetadata demoHeldBinding
      [(holdCall demoHeld demoHeldBinding, Object (UnstructuredObj demoRestore))]"
    using demoHeld_selected demoHeld_hold by (auto simp: holdTrace_def targetSelected_def demoHeld_def demo_defs)
  ultimately show ?thesis unfolding validateBinding_Ok demoHeldTrace_def by blast
qed

end
