(* ===== verification/GateResults.thy ===== *)
theory GateResults
  imports ScenarioGate
begin

text \<open>
  The properties of the gate of a request, \<open>validateBinding\<close>: what a passed gate means, who may
  hold a target claim, and which target names a request may use.
\<close>

lemma passed_gate_peers:
  "exec (validateBinding L m md) tr (Ok u) \<Longrightarrow> (ListMigrations ns, Items peers) \<in> set tr \<Longrightarrow> peersAllow m peers"
  unfolding validateBinding_Ok
  by (auto simp: gateReads_def bindingAccepted_def holdTrace_def holdCall_def split: if_splits)

lemma listing_read: "(ListMigrations (mig_Namespace m), Items peers) \<in> set (gateReads m rb sts peers)"
  by (simp add: gateReads_def)

text \<open>The name a StatefulSet gives the claim of a template at an ordinal.\<close>

definition ordinalClaim :: "libraries \<Rightarrow> StatefulSet \<Rightarrow> string \<Rightarrow> string \<Rightarrow> string \<Rightarrow> bool" where
  "ordinalClaim L sts t ordinal n \<longleftrightarrow>
     n = t @ ''-'' @ om_Name (sts_meta sts) @ ''-'' @ ordinal \<and>
     ordinal \<noteq> [] \<and> list_all isDigit ordinal \<and> (length ordinal > 1 \<longrightarrow> hd ordinal \<noteq> CHR ''0'') \<and>
     lib_IsDNS1123Subdomain L n = []"

lemma ordinalClaim_iff:
  "ordinalClaim L sts t ordinal n \<longleftrightarrow>
     n = templatePrefix sts t @ ordinal \<and> validOrdinalPVC L n (templatePrefix sts t)"
proof -
  have "t @ ''-'' @ om_Name (sts_meta sts) @ ''-'' @ ordinal = templatePrefix sts t @ ordinal"
    by (simp add: templatePrefix_def)
  then show ?thesis
    unfolding ordinalClaim_def using validOrdinalPVC_append [of L "templatePrefix sts t" ordinal] by metis
qed

lemma targetsCheck_closed:
  assumes "\<forall>ks. mset (lib_RangeOrder L ks) = mset ks"
  shows "targetsCheck L m md sts = None \<longleftrightarrow>
     (\<forall>mapping\<in>set (ms_Volumes (mig_Spec m)).
        if countsStandalone m md (vmap_SourcePVC mapping)
        then vmap_TargetPVC mapping = vmap_SourcePVC mapping \<and> vmap_SourcePVC mapping \<in> set (Standalone L sts)
        else \<exists>t\<in>set (sts_VolumeClaimTemplates sts). \<exists>ordinal. ordinalClaim L sts t ordinal (vmap_TargetPVC mapping) \<and>
          distinct (sts_VolumeClaimTemplates sts) \<and>
          (\<forall>t'\<in>set (sts_VolumeClaimTemplates sts). \<exists>mapping'\<in>set (ms_Volumes (mig_Spec m)).
             \<not> countsStandalone m md (vmap_SourcePVC mapping') \<and> ordinalClaim L sts t' ordinal (vmap_TargetPVC mapping')))"
proof -
  have "ordinalCovered L m md sts ordinal \<longleftrightarrow> distinct (sts_VolumeClaimTemplates sts) \<and>
      (\<forall>t'\<in>set (sts_VolumeClaimTemplates sts). \<exists>mapping'\<in>set (ms_Volumes (mig_Spec m)).
         \<not> countsStandalone m md (vmap_SourcePVC mapping') \<and> ordinalClaim L sts t' ordinal (vmap_TargetPVC mapping'))"
    for ordinal
    unfolding ordinalCovered_def coveredTemplates_def markedStandalone_iff ordinalClaim_iff by blast
  then show ?thesis
    unfolding targetsCheck_None_iff [OF assms] targetPlaced_def markedStandalone_iff ordinalClaim_iff
    by (intro ball_cong refl if_cong) blast+
qed

lemma peers_closed:
  "peersAllow m peers \<longleftrightarrow>
     (\<forall>p\<in>set peers.
        mig_UID p \<noteq> mig_UID m \<and> ms_TargetCluster (mig_Spec p) = ms_TargetCluster (mig_Spec m) \<and>
        (mig_Phase p = ''Ready'' \<or> mig_Phase p = ''Completed'' \<or>
         (\<exists>ref\<in>set (mig_Works p). ref_Applied ref \<or> ref_Detached ref) \<or>
         om_CreationTimestamp (mig_meta p) < om_CreationTimestamp (mig_meta m) \<or>
         om_CreationTimestamp (mig_meta p) = om_CreationTimestamp (mig_meta m) \<and> mig_UID p < mig_UID m) \<longrightarrow>
        (\<forall>v\<in>set (ms_Volumes (mig_Spec p)). \<forall>w\<in>set (ms_Volumes (mig_Spec m)). vmap_TargetPVC v \<noteq> vmap_TargetPVC w))"
  unfolding peersAllow_iff olderPeer_age [symmetric]
  by (auto simp: requestsConflict_def targetClaims_def reservedPeer_def olderPeer_def list_ex_iff)

text \<open>
  C9: A request whose target cluster the binding does not select yet passes the gate
  exactly under the documented conditions, and only after reading the binding, the workload
  and the listing of requests, in this order.  The source is fenced, the clusters differ and
  the metadata is the source's; the binding is suspended, names the workload of the metadata
  and does not select the target; the workload has the UID of the metadata; no other request
  to that cluster which holds a reservation or is older asks for one of its claims; and every
  target name is either the unchanged name of a standalone claim of the workload or the claim
  of a template at an ordinal at which every template has a mapping.
\<close>

theorem gate_closed_form:
  assumes "\<forall>ks. mset (lib_RangeOrder L ks) = mset ks"
  shows "exec (validateBinding L m md) tr (Ok u) \<and> length tr = 3 \<longleftrightarrow>
     (\<exists>rb sts peers.
        tr = [(GetCall (UnstructuredKind BindingGVK) (mig_Namespace m, ms_ResourceBinding (mig_Spec m)),
                 Object (UnstructuredObj rb)),
              (GetCall StatefulSetKind (mig_Namespace m, strAt rb [''spec'', ''resource'', ''name'']),
                 Object (StatefulSetObj sts)),
              (ListMigrations (mig_Namespace m), Items peers)] \<and>
        ms_SourceFenced (mig_Spec m) \<and>
        ms_SourceCluster (mig_Spec m) \<noteq> ms_TargetCluster (mig_Spec m) \<and>
        ms_SourceCluster (mig_Spec m) \<noteq> [] \<and> ms_TargetCluster (mig_Spec m) \<noteq> [] \<and>
        mds_SourceCluster (md_Spec md) = ms_SourceCluster (mig_Spec m) \<and>
        strAt rb [''spec'', ''resource'', ''kind''] = ''StatefulSet'' \<and>
        strAt rb [''spec'', ''resource'', ''apiVersion''] = ''apps/v1'' \<and>
        strAt rb [''spec'', ''resource'', ''name''] = wr_Name (mds_WorkloadRef (md_Spec md)) \<and>
        wr_UID (mds_WorkloadRef (md_Spec md)) \<noteq> [] \<and>
        wr_UID (mds_WorkloadRef (md_Spec md)) = om_UID (sts_meta sts) \<and>
        boolAt rb [''spec'', ''suspension'', ''dispatching''] \<and>
        \<not> (\<exists>c. JObj c \<in> set (elems (sliceAt rb [''spec'', ''clusters''])) \<and>
               jget c ''name'' = JStr (ms_TargetCluster (mig_Spec m))) \<and>
        (\<forall>p\<in>set peers.
           mig_UID p \<noteq> mig_UID m \<and> ms_TargetCluster (mig_Spec p) = ms_TargetCluster (mig_Spec m) \<and>
           (mig_Phase p = ''Ready'' \<or> mig_Phase p = ''Completed'' \<or>
            (\<exists>ref\<in>set (mig_Works p). ref_Applied ref \<or> ref_Detached ref) \<or>
            om_CreationTimestamp (mig_meta p) < om_CreationTimestamp (mig_meta m) \<or>
            om_CreationTimestamp (mig_meta p) = om_CreationTimestamp (mig_meta m) \<and> mig_UID p < mig_UID m) \<longrightarrow>
           (\<forall>v\<in>set (ms_Volumes (mig_Spec p)). \<forall>w\<in>set (ms_Volumes (mig_Spec m)). vmap_TargetPVC v \<noteq> vmap_TargetPVC w)) \<and>
        (\<forall>mapping\<in>set (ms_Volumes (mig_Spec m)).
           if countsStandalone m md (vmap_SourcePVC mapping)
           then vmap_TargetPVC mapping = vmap_SourcePVC mapping \<and> vmap_SourcePVC mapping \<in> set (Standalone L sts)
           else \<exists>t\<in>set (sts_VolumeClaimTemplates sts). \<exists>ordinal. ordinalClaim L sts t ordinal (vmap_TargetPVC mapping) \<and>
             distinct (sts_VolumeClaimTemplates sts) \<and>
             (\<forall>t'\<in>set (sts_VolumeClaimTemplates sts). \<exists>mapping'\<in>set (ms_Volumes (mig_Spec m)).
                \<not> countsStandalone m md (vmap_SourcePVC mapping') \<and>
                ordinalClaim L sts t' ordinal (vmap_TargetPVC mapping'))))"
    (is "_ \<longleftrightarrow> ?closed")
proof -
  have request: "requestCheck m md = None \<longleftrightarrow> ms_SourceFenced (mig_Spec m) \<and>
      ms_SourceCluster (mig_Spec m) \<noteq> ms_TargetCluster (mig_Spec m) \<and>
      ms_SourceCluster (mig_Spec m) \<noteq> [] \<and> ms_TargetCluster (mig_Spec m) \<noteq> [] \<and>
      mds_SourceCluster (md_Spec md) = ms_SourceCluster (mig_Spec m)"
    by (auto simp: requestCheck_def Let_def)
  have "exec (validateBinding L m md) tr (Ok u) \<and> length tr = 3 \<longleftrightarrow>
      (\<exists>rb sts peers. tr = gateReads m rb sts peers \<and> bindingAccepted L m md rb sts peers \<and> \<not> targetSelected m rb)"
    unfolding validateBinding_Ok by (auto simp: gateReads_def holdTrace_def split: if_splits)
  also have "\<dots> \<longleftrightarrow> ?closed"
    unfolding gateReads_def bindingAccepted_def request resourceMatches_def workloadMatches_def peers_closed
      targetsCheck_closed [OF assms] targetSelected_def de_Morgan_disj not_not conj_assoc by blast
  finally show ?thesis .
qed

theorem gate_closed_form_witness:
  "''ckpt'' \<in> set (Standalone demoLibraries demoWorkload) \<and>
   (\<exists>ordinal. ordinalClaim demoLibraries demoWorkload ''data'' ordinal ''data-db-0'')"
proof -
  have order: "\<forall>ks. mset (lib_RangeOrder demoLibraries ks) = mset ks" by simp
  have vols: "set (ms_Volumes (mig_Spec demoMigration)) = {demoDataMapping, demoCkptMapping}" by (simp add: demo_defs)
  have "exec (validateBinding demoLibraries demoMigration demoMetadata)
      (gateReads demoMigration demoBinding demoWorkload [demoMigration, demoPeer]) (Ok ()) \<and>
      length (gateReads demoMigration demoBinding demoWorkload [demoMigration, demoPeer]) = 3"
    using demo_peers_pass(1) by (simp add: gateReads_def)
  note passed = this [unfolded gate_closed_form [OF order]]
  from passed obtain sts where "sts = demoWorkload"
    and placed: "\<forall>mapping\<in>set (ms_Volumes (mig_Spec demoMigration)).
        if countsStandalone demoMigration demoMetadata (vmap_SourcePVC mapping)
        then vmap_TargetPVC mapping = vmap_SourcePVC mapping \<and> vmap_SourcePVC mapping \<in> set (Standalone demoLibraries sts)
        else \<exists>t\<in>set (sts_VolumeClaimTemplates sts). \<exists>ordinal. ordinalClaim demoLibraries sts t ordinal (vmap_TargetPVC mapping) \<and>
             distinct (sts_VolumeClaimTemplates sts) \<and>
             (\<forall>t'\<in>set (sts_VolumeClaimTemplates sts). \<exists>mapping'\<in>set (ms_Volumes (mig_Spec demoMigration)).
                \<not> countsStandalone demoMigration demoMetadata (vmap_SourcePVC mapping') \<and>
                ordinalClaim demoLibraries sts t' ordinal (vmap_TargetPVC mapping'))"
    by (elim exE conjE) (simp add: gateReads_def)
  note placed = this(2) [unfolded vols \<open>sts = demoWorkload\<close> demo_template(2) list.set]
  have "ms_SourceCluster (mig_Spec demoMigration) = ''a''" by (simp add: demoMigration_def demoSpec_def)
  from demo_marked [OF this]
  have "countsStandalone demoMigration demoMetadata ''ckpt''" "\<not> countsStandalone demoMigration demoMetadata ''data-db-0''"
    unfolding markedStandalone_iff [symmetric] by simp_all
  with placed show ?thesis by (auto simp: demoDataMapping_def demoCkptMapping_def)
qed

text \<open>
  C26: A target that the binding already selects is let through only under the exact hold of a
  restore operation: it is the only cluster selected, request and binding carry the UID of one
  operation, the binding names this request by name and UID and the workload of the metadata, and
  the last call of the gate read the restore request that the binding names, with that UID, not
  deleting, and for the same clusters, workload and binding.
\<close>

theorem selected_target_held:
  assumes "exec (validateBinding L m md) tr (Ok u)"
    and "(GetCall (UnstructuredKind BindingGVK) nn, Object (UnstructuredObj rb)) \<in> set tr"
    and "JObj c \<in> set (elems (sliceAt rb [''spec'', ''clusters'']))" "jget c ''name'' = JStr (ms_TargetCluster (mig_Spec m))"
  shows "elems (sliceAt rb [''spec'', ''clusters'']) = [JObj c] \<and> ms_SourceFenced (mig_Spec m) \<and>
     boolAt rb [''spec'', ''suspension'', ''dispatching''] \<and>
     (\<exists>operation request.
        operation \<noteq> [] \<and> sget (om_Annotations (mig_meta m)) ''training.dcnlab.com/placement-restore-request-uid'' = operation \<and>
        sget (GetAnnotations rb) ''training.dcnlab.com/placement-restore-request-uid'' = operation \<and>
        sget (GetAnnotations rb) ''migration.dcnlab.com/group-volume-hold'' = operation \<and>
        sget (GetAnnotations rb) ''migration.dcnlab.com/pv-migration'' = mig_Name m \<and>
        mig_UID m \<noteq> [] \<and> sget (GetAnnotations rb) ''migration.dcnlab.com/pv-migration-uid'' = mig_UID m \<and>
        GetUID rb \<noteq> [] \<and> GetDeletionTimestamp L rb = None \<and>
        strAt rb [''spec'', ''resource'', ''uid''] = wr_UID (mds_WorkloadRef (md_Spec md)) \<and>
        strAt rb [''spec'', ''resource'', ''namespace''] = mig_Namespace m \<and>
        last tr = (GetCall (UnstructuredKind RestoreRequestGVK)
            (mig_Namespace m, sget (GetAnnotations rb) ''training.dcnlab.com/placement-restore-request''),
          Object (UnstructuredObj request)) \<and>
        GetUID request = operation \<and> GetDeletionTimestamp L request = None \<and>
        (\<forall>(path, want)\<in>{([''sourceCluster''], ms_SourceCluster (mig_Spec m)),
             ([''targetCluster''], ms_TargetCluster (mig_Spec m)),
             ([''workloadRef'', ''apiVersion''], ''apps/v1''), ([''workloadRef'', ''kind''], ''StatefulSet''),
             ([''workloadRef'', ''name''], wr_Name (mds_WorkloadRef (md_Spec md))),
             ([''workloadRef'', ''uid''], wr_UID (mds_WorkloadRef (md_Spec md))),
             ([''groupRestore'', ''operationUID''], GetUID rb),
             ([''groupRestore'', ''sourceWorldUID''], wr_UID (mds_WorkloadRef (md_Spec md)))}.
           stringNoError request (''spec'' # path) = Some want))"
proof -
  from assms(1) obtain rb' sts peers hold where tr: "tr = gateReads m rb' sts peers @ hold"
    and ok: "bindingAccepted L m md rb' sts peers" and hold: "holdTrace L m md rb' hold"
    unfolding validateBinding_Ok by blast
  have "(GetCall (UnstructuredKind BindingGVK) nn, Object (UnstructuredObj rb)) \<notin> set hold"
    using hold by (auto simp: holdTrace_def holdCall_def BindingGVK_def RestoreRequestGVK_def split: if_splits)
  with assms(2) have rb: "rb' = rb" unfolding tr gateReads_def by auto
  have "targetSelected m rb" using assms(3,4) unfolding targetSelected_def by blast
  with hold obtain request where one: "length (elems (sliceAt rb [''spec'', ''clusters''])) = 1"
    and read: "hold = [(holdCall m rb, Object (UnstructuredObj request))]" and held: "holdAccepted L m md rb request"
    unfolding rb holdTrace_def by (auto split: if_splits)
  from one assms(3) have "elems (sliceAt rb [''spec'', ''clusters'']) = [JObj c]" by (auto simp: length_Suc_conv)
  moreover have "ms_SourceFenced (mig_Spec m)" "boolAt rb [''spec'', ''suspension'', ''dispatching'']"
    using ok unfolding rb bindingAccepted_def requestCheck_def Let_def by (auto split: if_splits)
  moreover have "last tr = (holdCall m rb, Object (UnstructuredObj request))" unfolding tr read by simp
  ultimately show ?thesis
    using held unfolding holdAccepted_def holdChecks_def Let_def holdCall_def requestUIDKey_def
    by (intro conjI exI [of _ "sget (om_Annotations (mig_meta m)) ''training.dcnlab.com/placement-restore-request-uid''"]
        exI [of _ request]) simp_all
qed

theorem selected_target_held_witness:
  "elems (sliceAt demoHeldBinding [''spec'', ''clusters'']) = [JObj (fmupd ''name'' (JStr ''b'') fmempty)] \<and>
   GetUID demoRestore = ''op''"
proof -
  have selected: "JObj (fmupd ''name'' (JStr ''b'') fmempty) \<in> set (elems (sliceAt demoHeldBinding [''spec'', ''clusters'']))"
    "jget (fmupd ''name'' (JStr ''b'') fmempty) ''name'' = JStr (ms_TargetCluster (mig_Spec demoHeld))"
    using demoHeld_selected by (simp_all add: demoHeld_def demo_defs)
  have read: "(GetCall (UnstructuredKind BindingGVK) (mig_Namespace demoHeld, ms_ResourceBinding (mig_Spec demoHeld)),
      Object (UnstructuredObj demoHeldBinding)) \<in> set demoHeldTrace"
    by (simp add: demoHeldTrace_def gateReads_def)
  have "last demoHeldTrace = (holdCall demoHeld demoHeldBinding, Object (UnstructuredObj demoRestore))"
    by (simp add: demoHeldTrace_def)
  then show ?thesis
    using selected_target_held [OF demo_held_passes read selected] by (auto simp: demoHeld_def holdCall_def)
qed

text \<open>
  C1: Mutual exclusion of target claims: two different requests that both pass the gate, each
  with the other in its listing, never ask for one claim name on one target cluster.
\<close>

theorem admitted_requests_disjoint:
  assumes "exec (validateBinding L m md) tr (Ok u)" and "exec (validateBinding L' m' md') tr' (Ok u')"
    and "(ListMigrations ns, Items peers) \<in> set tr" "m' \<in> set peers"
    and "(ListMigrations ns', Items peers') \<in> set tr'" "m \<in> set peers'"
    and "mig_UID m \<noteq> mig_UID m'" "ms_TargetCluster (mig_Spec m) = ms_TargetCluster (mig_Spec m')"
  shows "targetClaims m \<inter> targetClaims m' = {}"
proof -
  have "peersAllow m peers" "peersAllow m' peers'"
    using passed_gate_peers assms by blast+
  then have "\<not> requestsConflict m' m"
    using claims.exclusive [of m' m peers peers'] assms by blast
  with assms(7,8) show ?thesis unfolding requestsConflict_def by auto
qed

theorem admitted_requests_disjoint_witness:
  "targetClaims demoMigration \<inter> targetClaims demoPeer = {}"
  by (rule admitted_requests_disjoint [OF demo_peers_pass listing_read _ listing_read])
    (simp_all, simp_all add: demoPeer_def demo_defs)

text \<open>
  A request that has produced anything (\<open>Ready\<close>, \<open>Completed\<close>, or one Work applied or
  detached) keeps its target claims: no other request for one of them on that cluster passes
  the gate while the holder is listed, whatever their ages.
\<close>

lemma reserved_claims_kept:
  assumes "exec (validateBinding L m md) tr (Ok u)" and "(ListMigrations ns, Items peers) \<in> set tr"
    and "p \<in> set peers" "mig_UID p \<noteq> mig_UID m" "ms_TargetCluster (mig_Spec p) = ms_TargetCluster (mig_Spec m)"
    and "mig_Phase p = ''Ready'' \<or> mig_Phase p = ''Completed'' \<or> (\<exists>ref\<in>set (mig_Works p). ref_Applied ref \<or> ref_Detached ref)"
  shows "targetClaims p \<inter> targetClaims m = {}"
proof -
  have "reservedPeer p" using assms(6) by (auto simp: reservedPeer_def list_ex_iff)
  moreover have "peersAllow m peers" using passed_gate_peers assms(1,2) by blast
  ultimately have "\<not> requestsConflict p m" using claims.holder_excludes assms(3) by blast
  with assms(4,5) show ?thesis unfolding requestsConflict_def by auto
qed

text \<open>
  C25: No deadlock: among any finite set of requests of which none holds a reservation there is
  one that no peer check turns away, whatever part of the set it finds in its listing.
\<close>

theorem some_request_admitted:
  assumes "finite S" and "S \<noteq> {}" and "\<And>p. p \<in> S \<Longrightarrow> \<not> reservedPeer p"
  shows "\<exists>m\<in>S. \<forall>peers. set peers \<subseteq> S \<longrightarrow> first_error (peerConflict m) peers = None"
proof -
  obtain m where m: "m \<in> S" "\<forall>p\<in>S. \<not> ageOf p < ageOf m"
    using assms(1,2) Min_in [of "ageOf ` S"] by (metis (no_types, lifting) Min_le finite_imageI imageE image_eqI image_is_empty not_le)
  have "peersAllow m peers" if "set peers \<subseteq> S" for peers
    using that m assms(3) by (intro claims.oldest_admitted) (auto simp: not_less)
  with m(1) show ?thesis unfolding peersAllow_def by blast
qed

theorem some_request_admitted_witness:
  "\<exists>m\<in>{demoMigration, demoPeer}. \<forall>peers. set peers \<subseteq> {demoMigration, demoPeer} \<longrightarrow>
     first_error (peerConflict m) peers = None"
  by (rule some_request_admitted) (auto simp: reservedPeer_def demoPeer_def demo_defs)

text \<open>
  A passed gate leaves no partial ordinal: every mapping of a volume that is not a
  standalone one goes to the claim of a template at an ordinal at which every template of the
  workload has a mapping, and a standalone volume keeps its claim name.
\<close>

lemma target_ordinals_complete:
  assumes "exec (validateBinding L m md) tr (Ok u)" and "\<And>ks. mset (lib_RangeOrder L ks) = mset ks"
    and "(GetCall StatefulSetKind nn, Object (StatefulSetObj sts)) \<in> set tr"
    and "mapping \<in> set (ms_Volumes (mig_Spec m))"
  shows "if fmlookup (markedStandalone m md) (vmap_SourcePVC mapping) = Some True
         then vmap_TargetPVC mapping = vmap_SourcePVC mapping \<and> vmap_SourcePVC mapping \<in> set (Standalone L sts)
         else \<exists>t\<in>set (sts_VolumeClaimTemplates sts). \<exists>ordinal.
           vmap_TargetPVC mapping = t @ ''-'' @ om_Name (sts_meta sts) @ ''-'' @ ordinal \<and>
           (\<forall>t'\<in>set (sts_VolumeClaimTemplates sts). \<exists>mapping'\<in>set (ms_Volumes (mig_Spec m)).
              vmap_TargetPVC mapping' = t' @ ''-'' @ om_Name (sts_meta sts) @ ''-'' @ ordinal)"
proof -
  from assms(1,3) have "targetsCheck L m md sts = None"
    unfolding validateBinding_Ok
    by (auto simp: gateReads_def bindingAccepted_def holdTrace_def holdCall_def split: if_splits)
  then have "targetsAccepted L m md sts" using assms(2) by (rule targetsCheck_None)
  with assms(4) have "targetPlaced L sts (Standalone L sts) (markedStandalone m md)
      (\<lambda>ordinal. coveredTemplates L sts (markedStandalone m md) (ms_Volumes (mig_Spec m)) ordinal =
         set (sts_VolumeClaimTemplates sts)) mapping" by (auto simp: targetsAccepted_def)
  note placed = this
  show ?thesis
  proof (cases "fmlookup (markedStandalone m md) (vmap_SourcePVC mapping) = Some True")
    case True
    with placed show ?thesis by (simp add: targetPlaced_def)
  next
    case False
    with placed obtain t ordinal where t: "t \<in> set (sts_VolumeClaimTemplates sts)"
        "vmap_TargetPVC mapping = templatePrefix sts t @ ordinal"
      and full: "coveredTemplates L sts (markedStandalone m md) (ms_Volumes (mig_Spec m)) ordinal =
         set (sts_VolumeClaimTemplates sts)"
      unfolding targetPlaced_def by (simp only: if_False) blast
    from full have "\<forall>t'\<in>set (sts_VolumeClaimTemplates sts). \<exists>mapping'\<in>set (ms_Volumes (mig_Spec m)).
        vmap_TargetPVC mapping' = templatePrefix sts t' @ ordinal"
      unfolding coveredTemplates_def by blast
    with t False show ?thesis
      by (simp only: if_False templatePrefix_def append.assoc) blast
  qed
qed

end
