(* ===== verification/Manager.thy ===== *)
theory Manager
  imports Migration Cleanup Discovery MemberSync
begin

text \<open>
  The process around the controllers: \<open>main\<close> of \<open>cmd/manager/main.go\<close> after the flags are
  parsed, and the \<open>SetupWithManager\<close> methods.  The calls into controller-runtime and client-go
  are the steps of a run; the environment decides which of them fail.  A run is the sequence of
  steps taken and the way the process ends.
\<close>

section \<open>The controllers of the process\<close>

datatype reconciler =
    PVSyncReconciler string duration
  | MetadataDiscovery duration
  | PVMigrationReconciler duration
  | PVCleanupReconciler duration

definition reconcilerProgram :: "libraries \<Rightarrow> reconciler \<Rightarrow> namespaced_name \<Rightarrow> outcome act" where
  "reconcilerProgram L r req =
     (case r of
        PVSyncReconciler clusterName poll \<Rightarrow> MemberReconcile L clusterName poll req
      | MetadataDiscovery poll \<Rightarrow> DiscoveryReconcile L poll req
      | PVMigrationReconciler poll \<Rightarrow> MigrationReconcile L poll req
      | PVCleanupReconciler poll \<Rightarrow> CleanupReconcile L poll req)"

text \<open>
  What a controller registers: its name, the kind that triggers it, and whether only changes of
  the generation do.
\<close>

record registration =
  reg_Name :: string
  reg_For :: kind
  reg_GenerationChanged :: bool

definition setupMember :: registration where
  "setupMember = \<lparr> reg_Name = ''pvmetadata-pvsync'', reg_For = MetadataKind, reg_GenerationChanged = True \<rparr>"

definition setupDiscovery :: registration where
  "setupDiscovery = \<lparr> reg_Name = ''pv-metadata-discovery'', reg_For = UnstructuredKind BindingGVK, reg_GenerationChanged = False \<rparr>"

definition setupMigration :: registration where
  "setupMigration = \<lparr> reg_Name = ''pv-migration'', reg_For = MigrationKind, reg_GenerationChanged = False \<rparr>"

definition setupCleanup :: registration where
  "setupCleanup = \<lparr> reg_Name = ''pv-cleanup'', reg_For = MigrationKind, reg_GenerationChanged = False \<rparr>"

section \<open>Flags\<close>

record flags =
  fl_Mode :: string
  fl_ClusterName :: string
  fl_MetricsAddr :: string
  fl_ProbeAddr :: string
  fl_LeaderNamespace :: string
  fl_Leader :: bool
  fl_Interval :: duration
  fl_Kubeconfig :: string

text \<open>The defaults; \<open>--kubeconfig\<close> is registered by controller-runtime, empty unless given.\<close>

definition defaultFlags :: flags where
  "defaultFlags = \<lparr> fl_Mode = [], fl_ClusterName = [], fl_MetricsAddr = ''0'', fl_ProbeAddr = '':8081'',
     fl_LeaderNamespace = ''pv-migration-system'', fl_Leader = True, fl_Interval = 15 * second, fl_Kubeconfig = [] \<rparr>"

definition flagsError :: "flags \<Rightarrow> string option" where
  "flagsError f =
     (if fl_Mode f \<noteq> ''management'' \<and> fl_Mode f \<noteq> ''member'' then Some ''--mode must be management or member''
      else if fl_Mode f = ''member'' \<and> fl_ClusterName f = [] then Some ''--cluster-name is required in member mode''
      else if fl_Interval f < second then Some ''--poll-interval must be at least one second''
      else if fl_Mode f = ''management'' \<and> fl_Kubeconfig f = []
      then Some ''management requires explicit --kubeconfig pointing to Karmada''
      else None)"

section \<open>Start-up\<close>

record manager_options =
  mo_Metrics :: string
  mo_HealthProbe :: string
  mo_LeaderElection :: bool
  mo_LeaderElectionID :: string
  mo_LeaderElectionNamespace :: string

definition managerOptions :: "flags \<Rightarrow> manager_options" where
  "managerOptions f = \<lparr> mo_Metrics = fl_MetricsAddr f, mo_HealthProbe = fl_ProbeAddr f, mo_LeaderElection = fl_Leader f,
     mo_LeaderElectionID = ''pv-migration-'' @ fl_Mode f @ ''.migration.dcnlab.com'',
     mo_LeaderElectionNamespace = fl_LeaderNamespace f \<rparr>"

datatype startup_step =
    GetConfig
  | BuildConfigFromFlags string
  | AddClientGoScheme
  | AddApiScheme
  | NewManager manager_options
  | SetupWithManager reconciler registration
  | AddHealthzCheck string
  | AddReadyzCheck string
  | Start

datatype ending =
    Exited string
  | Panicked goerr
  | Returned

type_synonym startup = "startup_step list \<times> ending"

definition step :: "(startup_step \<Rightarrow> goerr option) \<Rightarrow> startup_step \<Rightarrow> (goerr \<Rightarrow> ending) \<Rightarrow> startup \<Rightarrow> startup" where
  "step env c h k = (case env c of Some e \<Rightarrow> ([c], h e) | None \<Rightarrow> (c # fst k, snd k))"

definition modeReconcilers :: "flags \<Rightarrow> (reconciler \<times> registration) list" where
  "modeReconcilers f =
     (if fl_Mode f = ''member'' then [(PVSyncReconciler (fl_ClusterName f) (fl_Interval f), setupMember)]
      else [(MetadataDiscovery (fl_Interval f), setupDiscovery), (PVMigrationReconciler (fl_Interval f), setupMigration),
            (PVCleanupReconciler (fl_Interval f), setupCleanup)])"

fun registerAll :: "(startup_step \<Rightarrow> goerr option) \<Rightarrow> (reconciler \<times> registration) list \<Rightarrow> startup \<Rightarrow> startup" where
  "registerAll env [] k = k"
| "registerAll env ((r, g) # rest) k =
     step env (SetupWithManager r g) (\<lambda>_. Exited ''register controllers'') (registerAll env rest k)"

text \<open>\<open>ctrl.GetConfig\<close> runs in both modes; in management mode its result is replaced.\<close>

definition loadConfig :: "(startup_step \<Rightarrow> goerr option) \<Rightarrow> flags \<Rightarrow> startup \<Rightarrow> startup" where
  "loadConfig env f k =
     (let failed = (\<lambda>_. Exited ''load Kubernetes config'')
      in if fl_Mode f = ''management''
         then (let rest = step env (BuildConfigFromFlags (fl_Kubeconfig f)) failed k in (GetConfig # fst rest, snd rest))
         else step env GetConfig failed k)"

definition managerMain :: "(startup_step \<Rightarrow> goerr option) \<Rightarrow> flags \<Rightarrow> startup" where
  "managerMain env f =
     (case flagsError f of
        Some message \<Rightarrow> ([], Exited message)
      | None \<Rightarrow>
          loadConfig env f
          (step env AddClientGoScheme Panicked
          (step env AddApiScheme Panicked
          (step env (NewManager (managerOptions f)) (\<lambda>_. Exited ''create manager'')
          (registerAll env (modeReconcilers f)
          (step env (AddHealthzCheck ''healthz'') Panicked
          (step env (AddReadyzCheck ''readyz'') Panicked
          (step env Start (\<lambda>_. Exited ''run manager'') ([], Returned)))))))))"

section \<open>Properties\<close>

lemma step_mem: "c' \<in> set (fst (step env c h k)) \<longleftrightarrow> c' = c \<or> env c = None \<and> c' \<in> set (fst k)"
  by (auto simp: step_def split: option.splits)

lemma registerAll_mem:
  "c \<in> set (fst (registerAll env rs k)) \<Longrightarrow> \<forall>r g. c \<noteq> SetupWithManager r g \<Longrightarrow>
     c \<in> set (fst k) \<and> (\<forall>(r, g)\<in>set rs. env (SetupWithManager r g) = None)"
  by (induction rs) (auto simp: step_mem)

text \<open>The delay after which a registered controller repeats an unfinished pass.\<close>

definition repeatDelay :: "reconciler \<Rightarrow> duration" where
  "repeatDelay r =
     (case r of PVSyncReconciler _ poll \<Rightarrow> pollInterval poll | MetadataDiscovery poll \<Rightarrow> discoveryDelay poll
      | PVMigrationReconciler poll \<Rightarrow> delay poll | PVCleanupReconciler poll \<Rightarrow> delay poll)"

lemma started_registered:
  assumes "Start \<in> set (fst (managerMain env f))"
  shows "flagsError f = None \<and> env (NewManager (managerOptions f)) = None \<and>
     (\<forall>(r, g)\<in>set (modeReconcilers f). env (SetupWithManager r g) = None)"
proof -
  from assms have "flagsError f = None" by (auto simp: managerMain_def split: option.splits)
  with assms have later: "Start \<in> set (fst (registerAll env (modeReconcilers f)
      (step env (AddHealthzCheck ''healthz'') Panicked (step env (AddReadyzCheck ''readyz'') Panicked
        (step env Start (\<lambda>_. Exited ''run manager'') ([], Returned))))))" "env (NewManager (managerOptions f)) = None"
    by (simp_all add: managerMain_def loadConfig_def Let_def step_mem split: if_splits)
  with \<open>flagsError f = None\<close> registerAll_mem [OF later(1)] show ?thesis by simp
qed

text \<open>
  C37: A started manager serves its mode: it has registered every controller of the mode, the
  member controller under a non-empty cluster name, or the three management controllers with an
  explicit kubeconfig, and each of them repeats its passes at the interval that was given,
  never at a default of its own.
\<close>

theorem started_manager_serves_mode:
  assumes "Start \<in> set (fst (managerMain env f))"
  shows "(fl_Mode f = ''member'' \<and> fl_ClusterName f \<noteq> [] \<and>
            map fst (modeReconcilers f) = [PVSyncReconciler (fl_ClusterName f) (fl_Interval f)] \<or>
          fl_Mode f = ''management'' \<and> fl_Kubeconfig f \<noteq> [] \<and>
            map fst (modeReconcilers f) =
              [MetadataDiscovery (fl_Interval f), PVMigrationReconciler (fl_Interval f), PVCleanupReconciler (fl_Interval f)]) \<and>
     (\<forall>(r, g)\<in>set (modeReconcilers f). env (SetupWithManager r g) = None \<and> repeatDelay r = fl_Interval f) \<and>
     second \<le> fl_Interval f"
proof -
  note facts = started_registered [OF assms]
  then have valid: "fl_Mode f = ''management'' \<and> fl_Kubeconfig f \<noteq> [] \<or> fl_Mode f = ''member'' \<and> fl_ClusterName f \<noteq> []"
      "second \<le> fl_Interval f"
    by (auto simp: flagsError_def split: if_splits)
  then have "0 < fl_Interval f" by (simp add: second_def)
  then have "repeatDelay r = fl_Interval f" if "(r, g) \<in> set (modeReconcilers f)" for r g
    using that by (auto simp: modeReconcilers_def repeatDelay_def delay_def discoveryDelay_def pollInterval_def split: if_splits)
  with facts have "\<forall>(r, g)\<in>set (modeReconcilers f). env (SetupWithManager r g) = None \<and> repeatDelay r = fl_Interval f" by auto
  with valid show ?thesis by (auto simp: modeReconcilers_def)
qed

definition memberFlags :: flags where
  "memberFlags = defaultFlags\<lparr> fl_Mode := ''member'', fl_ClusterName := ''a'' \<rparr>"

theorem started_manager_serves_mode_witness:
  "map fst (modeReconcilers memberFlags) = [PVSyncReconciler ''a'' (15 * second)] \<and>
   repeatDelay (PVSyncReconciler ''a'' (15 * second)) = 15 * second"
proof -
  have "Start \<in> set (fst (managerMain (\<lambda>_. None) memberFlags))"
    by (simp add: managerMain_def flagsError_def memberFlags_def defaultFlags_def loadConfig_def step_mem modeReconcilers_def second_def)
  from started_manager_serves_mode [OF this] show ?thesis
    by (simp add: memberFlags_def defaultFlags_def modeReconcilers_def)
qed

text \<open>The steps of a start-up without failures.\<close>

definition startupSteps :: "flags \<Rightarrow> startup_step list" where
  "startupSteps f =
     (if fl_Mode f = ''management'' then [GetConfig, BuildConfigFromFlags (fl_Kubeconfig f)] else [GetConfig]) @
     [AddClientGoScheme, AddApiScheme, NewManager (managerOptions f)] @
     map (\<lambda>(r, g). SetupWithManager r g) (modeReconcilers f) @ [AddHealthzCheck ''healthz'', AddReadyzCheck ''readyz'', Start]"

lemma step_Returned: "\<forall>e. h e \<noteq> Returned \<Longrightarrow> snd (step env c h k) = Returned \<longleftrightarrow> env c = None \<and> snd k = Returned"
  by (simp add: step_def split: option.split)

lemma registerAll_Returned:
  "snd (registerAll env rs k) = Returned \<longleftrightarrow> (\<forall>(r, g)\<in>set rs. env (SetupWithManager r g) = None) \<and> snd k = Returned"
  by (induction rs) (auto simp: step_Returned)


text \<open>
  The process returns normally exactly when the flags are valid and every step of the
  start-up succeeds, where the configuration that \<open>ctrl.GetConfig\<close> finds matters in member mode
  only; invalid flags end it before any step is taken.
\<close>

lemma returns_iff_all_succeed:
  "(snd (managerMain env f) = Returned \<longleftrightarrow>
      flagsError f = None \<and> (\<forall>c\<in>set (startupSteps f). env c = None \<or> c = GetConfig \<and> fl_Mode f = ''management'')) \<and>
   (fst (managerMain env f) = [] \<longleftrightarrow> flagsError f \<noteq> None)"
proof
  show "snd (managerMain env f) = Returned \<longleftrightarrow>
      flagsError f = None \<and> (\<forall>c\<in>set (startupSteps f). env c = None \<or> c = GetConfig \<and> fl_Mode f = ''management'')"
    by (cases "flagsError f"; cases "fl_Mode f = ''management''")
      (auto simp: managerMain_def loadConfig_def Let_def startupSteps_def step_Returned registerAll_Returned split: option.splits)
  show "fst (managerMain env f) = [] \<longleftrightarrow> flagsError f \<noteq> None"
    by (auto simp: managerMain_def loadConfig_def Let_def step_def split: option.split)
qed

end
