(* ===== verification/ScenarioWorks.thy ===== *)
theory ScenarioWorks
  imports ScenarioGate
begin

text \<open>
  The Works of the scenario as the API server holds them: with a UID, a resource version, the
  first generation, and a status in which Karmada reports that they are applied and reflects
  the resources on the target cluster.
\<close>

definition serverMeta :: "string \<Rightarrow> string \<Rightarrow> jobj \<Rightarrow> jobj" where
  "serverMeta uid rv md =
     fmupd ''uid'' (JStr uid) (fmupd ''resourceVersion'' (JStr rv) (fmupd ''generation'' (JInt 1) md))"

definition served :: "string \<Rightarrow> string \<Rightarrow> jobj \<Rightarrow> jobj \<Rightarrow> jobj" where
  "served uid rv status w =
     fmupd ''status'' (JObj status)
       (case fmlookup w ''metadata'' of Some (JObj md) \<Rightarrow> fmupd ''metadata'' (JObj (serverMeta uid rv md)) w | _ \<Rightarrow> w)"

lemma metadata_planned:
  "p \<noteq> [] \<Longrightarrow> \<exists>md. fmlookup (plannedWork m v p i r) ''metadata'' = Some (JObj md)"
  by (simp add: plannedWork_def unroutedWork_eq)

lemma served_reads:
  assumes "fmlookup w ''metadata'' = Some (JObj md)"
  shows "GetName (served uid rv status w) = GetName w" "GetNamespace (served uid rv status w) = GetNamespace w"
    "GetLabels (served uid rv status w) = GetLabels w" "GetUID (served uid rv status w) = uid"
    "GetResourceVersion (served uid rv status w) = rv" "GetGeneration (served uid rv status w) = 1"
    "fmlookup md ''deletionTimestamp'' = None \<Longrightarrow> GetDeletionTimestamp L (served uid rv status w) = None"
    "NestedField (served uid rv status w) (''spec'' # p) = NestedField w (''spec'' # p)"
    "NestedField (served uid rv status w) (''status'' # p) = walk (JObj status) p"
  using assms
  by (simp_all add: served_def serverMeta_def GetName_def GetNamespace_def GetLabels_def GetUID_def GetResourceVersion_def
      GetGeneration_def GetDeletionTimestamp_def strAt_def NestedString_def NestedInt64_def NestedField_Cons)

lemma served_spec: "comparableWorkSpec (served uid rv status w) = comparableWorkSpec w"
  by (rule comparableWorkSpec_frame) (simp add: served_def NestedField_Cons split: option.split json.split)

section \<open>Reads of a routed manifest\<close>

lemma routed_field:
  assumes "hd p \<noteq> ''status''" and "p \<noteq> []" and "forks (annotationPath workNameAnnotation) p" "forks (annotationPath workNamespaceAnnotation) p"
  shows "NestedField (setRoute name ns (fmdrop ''status'' k)) p = NestedField k p"
  using setRoute_other [OF assms(3,4)] assms(1,2) by (cases p) (auto simp: NestedField_Cons)

lemma routed_reads:
  "GetKind (setRoute name ns (fmdrop ''status'' k)) = GetKind k"
  "GetAPIVersion (setRoute name ns (fmdrop ''status'' k)) = GetAPIVersion k"
  "GetName (setRoute name ns (fmdrop ''status'' k)) = GetName k"
  "GetNamespace (setRoute name ns (fmdrop ''status'' k)) = GetNamespace k"
  "strAt (setRoute name ns (fmdrop ''status'' k)) (''spec'' # q) = strAt k (''spec'' # q)"
  "mapAt (setRoute name ns (fmdrop ''status'' k)) (''spec'' # q) = mapAt k (''spec'' # q)"
  by (simp_all add: GetKind_def GetAPIVersion_def GetName_def GetNamespace_def strAt_def NestedString_def
      mapAt_def NestedMap_def routed_field)

lemma volumeJson_reads:
  "GetKind (volumeJson p) = pv_Kind p" "GetAPIVersion (volumeJson p) = pv_APIVersion p"
  "GetName (volumeJson p) = om_Name (pv_meta p)" "GetNamespace (volumeJson p) = om_Namespace (pv_meta p)"
  "strAt (volumeJson p) (''spec'' # q # r) = strAt (volumeSpecJson (pv_Spec p)) (q # r)"
  "mapAt (volumeJson p) (''spec'' # q # r) = mapAt (volumeSpecJson (pv_Spec p)) (q # r)"
  by (simp_all add: volumeJson_def typedJson_reads metaJson_reads GetName_def GetNamespace_def strAt_Cons2
      mapAt_def NestedMap_def NestedField_Cons)

lemma claimJson_reads:
  "GetKind (claimJson p) = pvc_Kind p" "GetAPIVersion (claimJson p) = pvc_APIVersion p"
  "GetName (claimJson p) = om_Name (pvc_meta p)" "GetNamespace (claimJson p) = om_Namespace (pvc_meta p)"
  "strAt (claimJson p) (''spec'' # q # r) = strAt (claimSpecJson (pvc_Spec p)) (q # r)"
  by (simp_all add: claimJson_def typedJson_reads metaJson_reads GetName_def GetNamespace_def strAt_Cons2)

lemma demo_names_nonempty [simp]: "demoName mapping \<noteq> []" by (simp add: demoName_def)

section \<open>Reflection\<close>

definition reflection :: "string \<Rightarrow> string \<Rightarrow> string \<Rightarrow> jobj \<Rightarrow> json" where
  "reflection kind name ns status =
     JObj (fmupd ''identifier'' (JObj (fmupd ''group'' (JStr []) (fmupd ''version'' (JStr ''v1'')
             (fmupd ''kind'' (JStr kind) (fmupd ''name'' (JStr name) (fmupd ''namespace'' (JStr ns) fmempty))))))
       (fmupd ''status'' (JObj status) fmempty))"

definition appliedStatus :: "json \<Rightarrow> jobj" where
  "appliedStatus reflected =
     fmupd ''conditions'' (JArr [JObj (fmupd ''type'' (JStr ''Applied'') (fmupd ''status'' (JStr ''True'') fmempty))])
       (fmupd ''manifestStatuses'' (JArr [reflected]) fmempty)"

definition boundFields :: "string \<Rightarrow> jobj \<Rightarrow> jobj" where
  "boundFields uid rest =
     fmupd ''uid'' (JStr uid) (fmupd ''phase'' (JStr ''Bound'') (fmupd ''migrationUID'' (JStr ''u'') rest))"

definition demoDataReflection :: json where
  "demoDataReflection = reflection ''PersistentVolume'' (demoName demoDataMapping) []
     (fmupd ''phase'' (JStr ''Available'') fmempty)"

definition demoVolumeReflection :: json where
  "demoVolumeReflection = reflection ''PersistentVolume'' (demoName demoCkptMapping) []
     (boundFields ''pvuid'' (fmupd ''claimRef'' (JObj (fmupd ''name'' (JStr ''ckpt'') (fmupd ''namespace'' (JStr ''n'')
        (fmupd ''uid'' (JStr ''pvcuid'') fmempty)))) (fmupd ''nfs'' (JObj (nfsJson demoNFS)) fmempty)))"

definition demoClaimReflection :: json where
  "demoClaimReflection = reflection ''PersistentVolumeClaim'' ''ckpt'' ''n''
     (boundFields ''pvcuid'' (fmupd ''volumeName'' (JStr (demoName demoCkptMapping)) fmempty))"

definition demoServed :: "jobj list" where
  "demoServed =
     [served ''w0'' ''10'' (appliedStatus demoDataReflection) (demoWorks ! 0),
      served ''w1'' ''11'' (appliedStatus demoVolumeReflection) (demoWorks ! 1),
      served ''w2'' ''12'' (appliedStatus demoClaimReflection) (demoWorks ! 2)]"

lemma demo_planned_meta:
  "p \<noteq> [] \<Longrightarrow> \<exists>md. fmlookup (plannedWork m v p i r) ''metadata'' = Some (JObj md) \<and> fmlookup md ''deletionTimestamp'' = None"
  by (simp add: plannedWork_def unroutedWork_eq)

lemma served_planned:
  assumes "p \<noteq> []"
  shows "GetName (served uid rv status (plannedWork m v p i r)) = workName i p"
    "GetNamespace (served uid rv status (plannedWork m v p i r)) = executionNamespace m"
    "GetLabels (served uid rv status (plannedWork m v p i r)) = workLabels m v p"
    "GetUID (served uid rv status (plannedWork m v p i r)) = uid"
    "GetResourceVersion (served uid rv status (plannedWork m v p i r)) = rv"
    "GetGeneration (served uid rv status (plannedWork m v p i r)) = 1"
    "GetDeletionTimestamp L (served uid rv status (plannedWork m v p i r)) = None"
    "sliceAt (served uid rv status (plannedWork m v p i r)) manifestsPath =
       Some [JObj (setRoute (workName i p) (executionNamespace m) r)]"
    "boolAt (served uid rv status (plannedWork m v p i r)) [''spec'', ''preserveResourcesOnDeletion'']"
    "sliceAt (served uid rv status (plannedWork m v p i r)) (''status'' # q) = value_or None (as_slice (walk (JObj status) q))"
proof -
  from demo_planned_meta [OF assms] obtain md where
    md: "fmlookup (plannedWork m v p i r) ''metadata'' = Some (JObj md)" "fmlookup md ''deletionTimestamp'' = None" by blast
  note reads = served_reads [OF md(1)] plannedWork_reads [OF assms]
  show "GetName (served uid rv status (plannedWork m v p i r)) = workName i p"
    "GetNamespace (served uid rv status (plannedWork m v p i r)) = executionNamespace m"
    "GetLabels (served uid rv status (plannedWork m v p i r)) = workLabels m v p"
    "GetUID (served uid rv status (plannedWork m v p i r)) = uid"
    "GetResourceVersion (served uid rv status (plannedWork m v p i r)) = rv"
    "GetGeneration (served uid rv status (plannedWork m v p i r)) = 1"
    "GetDeletionTimestamp L (served uid rv status (plannedWork m v p i r)) = None"
    by (simp_all add: reads md(2))
  show "sliceAt (served uid rv status (plannedWork m v p i r)) manifestsPath =
       Some [JObj (setRoute (workName i p) (executionNamespace m) r)]"
    "boolAt (served uid rv status (plannedWork m v p i r)) [''spec'', ''preserveResourcesOnDeletion'']"
    using plannedWork_reads(5,6) [OF assms]
    by (simp_all add: sliceAt_def NestedSlice_def boolAt_def reads(8))
  show "sliceAt (served uid rv status (plannedWork m v p i r)) (''status'' # q) = value_or None (as_slice (walk (JObj status) q))"
    by (simp add: sliceAt_def NestedSlice_def reads(9))
qed

lemma served_valid:
  assumes "p \<noteq> []" and "mig_UID m' = mig_UID m"
    and "workGenerationAllowed (served uid rv status (plannedWork m v p i r)) m'"
  shows "validateWork (served uid rv status (plannedWork m v p i r)) (plannedWork m v p i r) m' = None"
  using assms by (simp add: validateWork_None_iff served_planned plannedWork_reads workLabels_reads served_spec)

lemma applied_planned:
  assumes "p \<noteq> []"
  shows "appliedCondition (served uid rv (appliedStatus x) (plannedWork m v p i r))
      (elems (sliceAt (served uid rv (appliedStatus x) (plannedWork m v p i r)) [''status'', ''conditions''])) False"
    and "elems (sliceAt (served uid rv (appliedStatus x) (plannedWork m v p i r)) statusesPath) = [x]"
  using assms by (simp_all add: served_planned appliedStatus_def NestedInt64_def NestedField_Cons)

end
