(* ===== verification/ScenarioApplied.thy ===== *)
theory ScenarioApplied
  imports ScenarioWorks
begin

text \<open>
  The served Works of the scenario count as applied, and the two Works of the standalone claim
  count as a reciprocal pair.
\<close>

abbreviation demoDataName :: string where
  "demoDataName \<equiv> demoName demoDataMapping"

abbreviation demoCkptName :: string where
  "demoCkptName \<equiv> demoName demoCkptMapping"

definition demoDataManifest :: jobj where
  "demoDataManifest = fmdrop ''status'' (volumeJson (targetVolume demoMigration (demoSpecOf demoDataMapping) demoDataName))"

definition demoVolumeManifest :: jobj where
  "demoVolumeManifest = fmdrop ''status'' (volumeJson (targetVolume demoMigration (demoSpecOf demoCkptMapping) demoCkptName))"

definition demoClaimManifest :: jobj where
  "demoClaimManifest = fmdrop ''status'' (claimJson (targetClaim demoMigration demoCkpt (demoClaimSpec ''pv2'') ''c'' demoCkptName))"

lemma demoWorks_eq:
  "demoWorks = [plannedWork demoMigration demoData demoDataName 0 demoDataManifest,
     plannedWork demoMigration demoCkpt demoCkptName 0 demoVolumeManifest,
     plannedWork demoMigration demoCkpt demoCkptName 1 demoClaimManifest]"
  by (simp add: demoWorks_def demoDataManifest_def demoVolumeManifest_def demoClaimManifest_def)

lemma demo_execution: "executionNamespace demoMigration = ''karmada-es-b''"
  by (simp add: executionNamespace_def demo_defs)

lemma demo_names: "workName 0 p = p" "workName 1 p = p @ ''-pvc''"
  by (simp_all add: workName_def)

definition demoRouted :: "nat \<Rightarrow> jobj" where
  "demoRouted i = setRoute (workName (i - 1) (if i = 0 then demoDataName else demoCkptName)) ''karmada-es-b''
     (if i = 0 then demoDataManifest else if i = 1 then demoVolumeManifest else demoClaimManifest)"

lemma demo_manifest_reads:
  "GetKind (demoRouted 0) = ''PersistentVolume''" "GetAPIVersion (demoRouted 0) = ''v1''"
  "GetName (demoRouted 0) = demoDataName" "GetNamespace (demoRouted 0) = []"
  "GetKind (demoRouted 1) = ''PersistentVolume''" "GetAPIVersion (demoRouted 1) = ''v1''"
  "GetName (demoRouted 1) = demoCkptName" "GetNamespace (demoRouted 1) = []"
  "GetKind (demoRouted 2) = ''PersistentVolumeClaim''" "GetAPIVersion (demoRouted 2) = ''v1''"
  "GetName (demoRouted 2) = ''ckpt''" "GetNamespace (demoRouted 2) = ''n''"
  by (simp_all add: demoRouted_def demoDataManifest_def demoVolumeManifest_def demoClaimManifest_def
      routed_reads volumeJson_reads claimJson_reads targetVolume_def targetClaim_def emptyMeta_def demo_defs)

lemma demo_manifest_specs:
  "strAt (demoRouted 1) [''spec'', ''claimRef'', ''name''] = ''ckpt''"
  "strAt (demoRouted 1) [''spec'', ''claimRef'', ''namespace''] = ''n''"
  "mapAt (demoRouted 1) [''spec'', ''nfs''] = nfsJson demoNFS"
  "strAt (demoRouted 2) [''spec'', ''volumeName''] = demoCkptName"
  unfolding demoRouted_def demoVolumeManifest_def demoClaimManifest_def
  by (simp_all add: routed_reads volumeJson_reads claimJson_reads targetVolume_def targetClaim_def)
    (simp_all add: demoSpecOf_def demoVolumeSpec_def volumeSpecJson_def claimSpecJson_def strAt_Cons2 strAt_one
      put_lookups mapAt_def NestedMap_def NestedField_Cons referenceJson_def demoCkptMapping_def)

section \<open>Reads of the served Works\<close>

lemma demoServed_nth:
  "demoServed ! 0 = served ''w0'' ''10'' (appliedStatus demoDataReflection) (plannedWork demoMigration demoData demoDataName 0 demoDataManifest)"
  "demoServed ! 1 = served ''w1'' ''11'' (appliedStatus demoVolumeReflection) (plannedWork demoMigration demoCkpt demoCkptName 0 demoVolumeManifest)"
  "demoServed ! 2 = served ''w2'' ''12'' (appliedStatus demoClaimReflection) (plannedWork demoMigration demoCkpt demoCkptName 1 demoClaimManifest)"
  by (simp_all add: demoServed_def demoWorks_eq)

lemma demoServed_names:
  "GetName (demoServed ! 0) = demoDataName" "GetName (demoServed ! 1) = demoCkptName"
  "GetName (demoServed ! 2) = demoCkptName @ ''-pvc''"
  by (simp_all add: demoServed_nth [simplified] served_planned workName_def)

lemma demoServed_planned:
  assumes "i < 3"
  obtains uid rv st where "demoServed ! i = served uid rv st (plannedWork demoMigration (if i = 0 then demoData else demoCkpt)
      (if i = 0 then demoDataName else demoCkptName) (i - 1)
      (if i = 0 then demoDataManifest else if i = 1 then demoVolumeManifest else demoClaimManifest))"
proof -
  from assms consider "i = 0" | "i = 1" | "i = 2" by linarith
  then show thesis
  proof cases
    case 1
    show ?thesis by (rule that) (unfold 1 demoServed_nth(1), simp)
  next
    case 2
    show ?thesis by (rule that) (unfold 2 demoServed_nth(2), simp)
  next
    case 3
    show ?thesis by (rule that) (unfold 3 demoServed_nth(3), simp)
  qed
qed

lemma demoServed_reads:
  assumes "i < 3"
  shows "GetNamespace (demoServed ! i) = ''karmada-es-b''"
    "GetGeneration (demoServed ! i) = 1" "GetDeletionTimestamp L (demoServed ! i) = None"
    "sget (GetLabels (demoServed ! i)) OwnerLabel = ''u''"
    "sget (GetLabels (demoServed ! i)) ManagedLabel = ManagerName"
    "sget (GetLabels (demoServed ! i)) standalonePairLabel = (if i = 0 then [] else demoCkptName)"
    "boolAt (demoServed ! i) [''spec'', ''preserveResourcesOnDeletion'']"
    "elems (sliceAt (demoServed ! i) manifestsPath) = [JObj (demoRouted i)]"
proof -
  from assms obtain uid rv st where eq: "demoServed ! i = served uid rv st (plannedWork demoMigration (if i = 0 then demoData else demoCkpt)
      (if i = 0 then demoDataName else demoCkptName) (i - 1)
      (if i = 0 then demoDataManifest else if i = 1 then demoVolumeManifest else demoClaimManifest))"
    by (rule demoServed_planned)
  have standalone: "\<not> vm_Standalone demoData" "vm_Standalone demoCkpt" "mig_UID demoMigration = ''u''"
    by (simp_all add: demo_defs)
  have ne: "(if i = 0 then demoDataName else demoCkptName) \<noteq> []" by simp
  note reads = served_planned [OF ne] workLabels_reads
  show "GetNamespace (demoServed ! i) = ''karmada-es-b''"
    "GetGeneration (demoServed ! i) = 1" "GetDeletionTimestamp L (demoServed ! i) = None"
    "sget (GetLabels (demoServed ! i)) OwnerLabel = ''u''"
    "sget (GetLabels (demoServed ! i)) ManagedLabel = ManagerName"
    "sget (GetLabels (demoServed ! i)) standalonePairLabel = (if i = 0 then [] else demoCkptName)"
    "boolAt (demoServed ! i) [''spec'', ''preserveResourcesOnDeletion'']"
    "elems (sliceAt (demoServed ! i) manifestsPath) = [JObj (demoRouted i)]"
    unfolding eq by (simp_all only: reads demo_execution standalone demoRouted_def elems_simps if_True if_False if_not_P split: if_split) simp_all
qed

lemma demoServed_UID:
  "GetUID (demoServed ! 0) = ''w0''" "GetUID (demoServed ! 1) = ''w1''" "GetUID (demoServed ! 2) = ''w2''"
  "GetResourceVersion (demoServed ! 0) = ''10''" "GetResourceVersion (demoServed ! 1) = ''11''"
  "GetResourceVersion (demoServed ! 2) = ''12''"
  by (simp_all add: demoServed_nth [simplified] served_planned)


lemma demoServed_statuses:
  "elems (sliceAt (demoServed ! 0) statusesPath) = [demoDataReflection]"
  "elems (sliceAt (demoServed ! 1) statusesPath) = [demoVolumeReflection]"
  "elems (sliceAt (demoServed ! 2) statusesPath) = [demoClaimReflection]"
  unfolding demoServed_nth by (simp_all only: applied_planned(2) demo_names_nonempty not_False_eq_True simp_thms)

lemma demoServed_conditions:
  assumes "i < 3"
  shows "appliedCondition (demoServed ! i) (elems (sliceAt (demoServed ! i) [''status'', ''conditions''])) False"
proof -
  from assms consider "i = 0" | "i = 1" | "i = 2" by linarith
  then show ?thesis by cases (simp_all only: demoServed_nth applied_planned(1) demo_names_nonempty not_False_eq_True simp_thms)
qed

section \<open>Reflections\<close>

definition demoVolumeStatus :: jobj where
  "demoVolumeStatus = boundFields ''pvuid'' (fmupd ''claimRef'' (JObj (fmupd ''name'' (JStr ''ckpt'') (fmupd ''namespace'' (JStr ''n'')
        (fmupd ''uid'' (JStr ''pvcuid'') fmempty)))) (fmupd ''nfs'' (JObj (nfsJson demoNFS)) fmempty))"

definition demoClaimStatus :: jobj where
  "demoClaimStatus = boundFields ''pvcuid'' (fmupd ''volumeName'' (JStr demoCkptName) fmempty)"

lemma reflection_matches:
  assumes "GetKind obj = kind" "GetName obj = name" "GetNamespace obj = ns"
  shows "\<exists>r. reflection kind name ns st = JObj r \<and> identifierMatches r obj \<and> mapAt r [''status''] = st \<and>
     (strAt r [''identifier'', ''kind''] = kind \<and> strAt r [''identifier'', ''name''] = name) \<and>
     strAt r [''status'', ''phase''] = strAt st [''phase'']"
  using assms
  by (simp add: reflection_def identifierMatches_def stringNoError_def NestedString_def NestedField_Cons mapAt_def
      NestedMap_def strAt_Cons2 strAt_one)

lemma boundFields_bound:
  assumes "sget (GetLabels w) OwnerLabel = ''u''" and "uid \<noteq> []" and "fmlookup rest ''deletionTimestamp'' = None"
  shows "boundStatus w (boundFields uid rest)"
  using assms by (simp add: boundStatus_def boundFields_def stringNoError_def NestedString_def NestedField_Cons jget_def)

lemma demo_bound:
  "boundStatus (demoServed ! 1) demoVolumeStatus" "boundStatus (demoServed ! 2) demoClaimStatus"
  "boundStatus (demoServed ! 1) demoClaimStatus"
  unfolding demoVolumeStatus_def demoClaimStatus_def
  by (intro boundFields_bound; simp add: demoServed_reads(4) [of 1, simplified] demoServed_reads(4) [of 2, simplified])+

lemma demo_sameBacking: "sameBacking demoLibraries (nfsJson demoNFS) (nfsJson demoNFS)"
  by (simp add: sameBacking_def nfs_roundtrip) (simp add: demoNFS_def)

lemma standaloneStatus_Some:
  assumes "elems (sliceAt w manifestsPath) = [JObj obj]" "elems (sliceAt w statusesPath) = [JObj r]"
    and "standaloneWork w" "GetAPIVersion obj = ''v1''" "GetName obj \<noteq> []" "identifierMatches r obj"
    and "mapAt r [''status''] = status" "boundStatus w status"
    and "GetKind obj = ''PersistentVolume'' \<and> boundVolume L w obj status \<or>
         GetKind obj = ''PersistentVolumeClaim'' \<and> boundClaim w obj status"
  shows "standaloneStatus L w = Some status"
  using assms by (auto simp: standaloneStatus_def standaloneWork_def)

lemma demo_volume_status: "standaloneStatus demoLibraries (demoServed ! 1) = Some demoVolumeStatus"
proof -
  obtain r where r: "demoVolumeReflection = JObj r" "identifierMatches r (demoRouted 1)" "mapAt r [''status''] = demoVolumeStatus"
    using reflection_matches [OF demo_manifest_reads(5,7,8)] unfolding demoVolumeReflection_def demoVolumeStatus_def by blast
  have parts: "mapAt demoVolumeStatus [''nfs''] = nfsJson demoNFS" "strAt demoVolumeStatus [''claimRef'', ''name''] = ''ckpt''"
    "strAt demoVolumeStatus [''claimRef'', ''namespace''] = ''n''" "strAt demoVolumeStatus [''claimRef'', ''uid''] = ''pvcuid''"
    by (simp_all add: demoVolumeStatus_def boundFields_def mapAt_def NestedMap_def NestedField_Cons strAt_Cons2 strAt_one)
  have "boundVolume demoLibraries (demoServed ! 1) (demoRouted 1) demoVolumeStatus"
    using demoServed_reads(6) [of 1]
    by (simp add: boundVolume_def demoServed_names [simplified] demo_manifest_reads [simplified] demo_manifest_specs [simplified]
        parts demo_sameBacking)
  then show ?thesis
    using r demoServed_reads(6,8) [of 1] demoServed_statuses(2) demo_manifest_reads(5-8) demo_bound(1)
    by (intro standaloneStatus_Some [where obj = "demoRouted 1" and r = r]) (simp_all add: standaloneWork_def)
qed

lemma demo_claim_status: "standaloneStatus demoLibraries (demoServed ! 2) = Some demoClaimStatus"
proof -
  obtain r where r: "demoClaimReflection = JObj r" "identifierMatches r (demoRouted 2)" "mapAt r [''status''] = demoClaimStatus"
    using reflection_matches [OF demo_manifest_reads(9,11,12)] unfolding demoClaimReflection_def demoClaimStatus_def by blast
  have "boundClaim (demoServed ! 2) (demoRouted 2) demoClaimStatus"
    using demoServed_reads(6) [of 2]
    by (simp add: boundClaim_def demoServed_names demo_manifest_reads demo_manifest_specs demoClaimStatus_def boundFields_def)
  then show ?thesis
    using r demoServed_reads(6,8) [of 2] demoServed_statuses(3) demo_manifest_reads(9-12) demo_bound(2)
    by (intro standaloneStatus_Some [where obj = "demoRouted 2" and r = r]) (simp_all add: standaloneWork_def)
qed

lemma demo_applied:
  assumes "i < 3"
  shows "workApplied demoLibraries (demoServed ! i)"
proof -
  from assms consider "i = 0" | "i = 1" | "i = 2" by linarith
  then show ?thesis
  proof cases
    case 1
    obtain r where r: "demoDataReflection = JObj r" "strAt r [''identifier'', ''kind''] = ''PersistentVolume''"
        "strAt r [''identifier'', ''name''] = demoDataName" "strAt r [''status'', ''phase''] = ''Available''"
      using reflection_matches [OF demo_manifest_reads(1,3,4)] unfolding demoDataReflection_def by (force simp: strAt_one)
    have "strAt (demoRouted 0) [''metadata'', ''name''] = demoDataName"
      using demo_manifest_reads(3) by (simp add: GetName_def)
    moreover have "elems (sliceAt (demoServed ! 0) statusesPath) = [JObj r]" using demoServed_statuses(1) r(1) by metis
    ultimately show ?thesis
      using r(2-4) 1 demoServed_reads [of 0] demoServed_conditions [of 0]
      by (simp add: workApplied_def standaloneWork_def)
  next
    case 2
    show ?thesis
      using demoServed_reads [of 1] demoServed_conditions [of 1] demo_volume_status 2
      by (simp add: workApplied_def standaloneWork_def)
  next
    case 3
    show ?thesis
      using demoServed_reads [of 2] demoServed_conditions [of 2] demo_claim_status 3
      by (simp add: workApplied_def standaloneWork_def)
  qed
qed

lemma demo_paired:
  "splitPairApplied demoLibraries (Some (demoServed ! 1)) (Some (demoServed ! 2)) = Some (''pvuid'', ''pvcuid'', True)"
proof -
  obtain r where r: "demoVolumeReflection = JObj r" "identifierMatches r (demoRouted 1)" "mapAt r [''status''] = demoVolumeStatus"
    using reflection_matches [OF demo_manifest_reads(5,7,8)] unfolding demoVolumeReflection_def demoVolumeStatus_def by blast
  obtain q where q: "demoClaimReflection = JObj q" "identifierMatches q (demoRouted 2)" "mapAt q [''status''] = demoClaimStatus"
    using reflection_matches [OF demo_manifest_reads(9,11,12)] unfolding demoClaimReflection_def demoClaimStatus_def by blast
  have "reciprocal demoLibraries (demoRouted 1) (demoRouted 2) demoVolumeStatus demoClaimStatus"
    by (simp add: reciprocal_def demo_manifest_reads [simplified] demo_manifest_specs [simplified])
      (simp add: demoVolumeStatus_def demoClaimStatus_def boundFields_def mapAt_def NestedMap_def NestedField_Cons demo_sameBacking)
  moreover have "pairedWorkApplied demoLibraries (demoServed ! 1) [JObj (demoRouted 1), JObj (demoRouted 2)] [JObj r, JObj q] \<longleftrightarrow>
      reciprocal demoLibraries (demoRouted 1) (demoRouted 2) (mapAt r [''status'']) (mapAt q [''status''])"
    using demo_manifest_reads r q demo_bound by (intro pairedWorkApplied_two) simp_all
  ultimately have "pairedWorkApplied demoLibraries (demoServed ! 1) [JObj (demoRouted 1), JObj (demoRouted 2)] [demoVolumeReflection, demoClaimReflection]"
    using r q by simp
  then show ?thesis
    using demoServed_reads [of 1] demoServed_reads [of 2] demo_applied [of 1] demo_applied [of 2] demoServed_statuses(2,3)
      demo_volume_status demo_claim_status
    by (simp add: splitPairApplied_def standaloneWork_def assertString_def)
      (simp add: demoVolumeStatus_def demoClaimStatus_def boundFields_def)
qed

lemma demo_validated:
  assumes "i < 3" and "workGenerationAllowed (demoServed ! i) m" and "mig_UID m = ''u''"
  shows "validateWork (demoServed ! i) (demoWorks ! i) m = None"
proof -
  from assms(1) consider "i = 0" | "i = 1" | "i = 2" by linarith
  then show ?thesis
  proof cases
    case 1
    with assms show ?thesis unfolding 1 demoServed_nth(1) demoWorks_eq by (simp add: served_valid demo_defs)
  next
    case 2
    with assms show ?thesis unfolding 2 demoServed_nth(2) demoWorks_eq by (simp add: served_valid demo_defs)
  next
    case 3
    with assms show ?thesis unfolding 3 demoServed_nth(3) demoWorks_eq by (simp add: served_valid demo_defs)
  qed
qed

end
