(* ===== verification/EvidenceResults.thy ===== *)
theory EvidenceResults
  imports ScenarioApplied
begin

text \<open>
  The properties of the evidence that a Work gives: what counts as applied, what a pair of
  Works with a durable receipt proves about the target cluster, and what a validated Work may
  differ in from the planned one.
\<close>

section \<open>Pairs\<close>

lemma pairedWorkApplied_kinds:
  assumes "pairedWorkApplied L w [JObj a, JObj b] statuses" shows "GetKind a \<noteq> GetKind b"
  using assms by (auto simp: pairedWorkApplied_def split: option.splits if_splits)

lemma reciprocal_parts:
  assumes "reciprocal L pv pvc pvs pvcs" and "jget pvcs ''uid'' = JStr v" and "v \<noteq> []"
    and "GetName pvc \<noteq> []" "GetNamespace pvc \<noteq> []"
  shows "jget pvcs ''volumeName'' = JStr (GetName pv)" "strAt pvs [''claimRef'', ''name''] = GetName pvc"
    "strAt pvs [''claimRef'', ''namespace''] = GetNamespace pvc" "strAt pvs [''claimRef'', ''uid''] = v"
    "sameBacking L (mapAt pv [''spec'', ''nfs'']) (mapAt pvs [''nfs''])"
proof -
  have found: "value_or JNull x = JStr s \<Longrightarrow> x = Found (JStr s)" for x s by (cases x) auto
  from assms show "jget pvcs ''volumeName'' = JStr (GetName pv)" "strAt pvs [''claimRef'', ''name''] = GetName pvc"
    "strAt pvs [''claimRef'', ''namespace''] = GetNamespace pvc" "strAt pvs [''claimRef'', ''uid''] = v"
    "sameBacking L (mapAt pv [''spec'', ''nfs'']) (mapAt pvs [''nfs''])"
    by (simp_all add: reciprocal_def strAt_eq found)
qed

definition volumeWork :: "jobj \<Rightarrow> bool" where
  "volumeWork w \<longleftrightarrow> GetName w = sget (GetLabels w) standalonePairLabel"

lemma demo_volumeWork: "volumeWork (demoServed ! 1)"
  unfolding volumeWork_def demoServed_names(2) using demoServed_reads(6) [of 1] by simp

text \<open>The two sides of a ready pair.\<close>

lemma ready_pair_sides:
  assumes "splitPairApplied L (Some x) (Some y) = Some (u, v, True)" and "volumeWork x"
  obtains pv pvc s t where
    "sliceAt x manifestsPath = Some [JObj pv]" "sliceAt y manifestsPath = Some [JObj pvc]"
    "sliceAt x statusesPath = Some [JObj s]" "sliceAt y statusesPath = Some [JObj t]"
    "GetKind pv = ''PersistentVolume''" "GetKind pvc = ''PersistentVolumeClaim''"
    "boundVolume L x pv (mapAt s [''status''])" "boundClaim y pvc (mapAt t [''status''])"
    "boundStatus x (mapAt s [''status''])" "boundStatus y (mapAt t [''status''])"
    "standaloneStatus L x = Some (mapAt s [''status''])" "standaloneStatus L y = Some (mapAt t [''status''])"
    "jget (mapAt s [''status'']) ''uid'' = JStr u" "jget (mapAt t [''status'']) ''uid'' = JStr v"
    "reciprocal L pv pvc (mapAt s [''status'']) (mapAt t [''status''])"
    "sget (GetLabels x) OwnerLabel = sget (GetLabels y) OwnerLabel" "GetName pvc \<noteq> []"
proof (rule splitPairApplied_ready [OF assms(1)])
  fix x' y' sx sy
  assume eq: "Some x = Some x'" "Some y = Some y'"
    and sx: "standaloneStatus L x' = Some sx" and sy: "standaloneStatus L y' = Some sy"
    and pair: "pairedWorkApplied L x' (elems (sliceAt x' manifestsPath) @ elems (sliceAt y' manifestsPath))
       (elems (sliceAt x' statusesPath) @ elems (sliceAt y' statusesPath))"
    and uids: "jget sx ''uid'' = JStr u" "jget sy ''uid'' = JStr v"
    and labels: "sget (GetLabels x') OwnerLabel = sget (GetLabels y') OwnerLabel"
  note eq = eq [symmetric, simplified]
  from assms(2) obtain pv s where x: "sliceAt x manifestsPath = Some [JObj pv]" "sliceAt x statusesPath = Some [JObj s]"
    "GetKind pv = ''PersistentVolume''" "boundVolume L x pv sx" "boundStatus x sx" "identifierMatches s pv"
    "sx = mapAt s [''status'']" "GetAPIVersion pv = ''v1''" "GetName pv \<noteq> []"
    unfolding volumeWork_def by (rule standaloneStatus_volume [OF sx [unfolded eq]])
  obtain pvc t where y: "sliceAt y manifestsPath = Some [JObj pvc]" "sliceAt y statusesPath = Some [JObj t]"
    "identifierMatches t pvc" "sy = mapAt t [''status'']" "boundStatus y sy" "GetAPIVersion pvc = ''v1''" "GetName pvc \<noteq> []"
    "GetKind pvc = ''PersistentVolume'' \<and> boundVolume L y pvc sy \<or>
     GetKind pvc = ''PersistentVolumeClaim'' \<and> boundClaim y pvc sy"
    by (rule standaloneStatus_cases [OF sy [unfolded eq]])
  have pair': "pairedWorkApplied L x [JObj pv, JObj pvc] [JObj s, JObj t]" using pair x y eq by simp
  with pairedWorkApplied_kinds x(3) y(8) have kind: "GetKind pvc = ''PersistentVolumeClaim''" "boundClaim y pvc sy" by fastforce+
  have "boundStatus x (mapAt t [''status''])"
    using y(4,5) labels eq x(5) by (simp add: boundStatus_def)
  with pair' pairedWorkApplied_two [OF x(3) kind(1) x(8) y(6) x(9) y(7) x(6) y(3), of x L] x(5,7)
  have "reciprocal L pv pvc (mapAt s [''status'']) (mapAt t [''status''])" by simp
  with x y kind sx sy uids labels eq show thesis by (intro that [of pv pvc s t]) simp_all
qed

text \<open>
  The specification of a bound pair: both sides are reported Bound for the same migration, the
  claim reference of the volume carries the UID that the claim is reported to have, the claim
  names the volume, and the reflected volume has the NFS source of the manifest.
\<close>

definition boundPair :: "libraries \<Rightarrow> string \<Rightarrow> jobj \<Rightarrow> jobj \<Rightarrow> jobj \<Rightarrow> jobj \<Rightarrow> string \<Rightarrow> string \<Rightarrow> bool" where
  "boundPair L owner pv pvc pvs pvcs u v \<longleftrightarrow>
     GetKind pv = ''PersistentVolume'' \<and> GetKind pvc = ''PersistentVolumeClaim'' \<and>
     jget pvs ''uid'' = JStr u \<and> u \<noteq> [] \<and> jget pvcs ''uid'' = JStr v \<and> v \<noteq> [] \<and>
     jget pvs ''phase'' = JStr ''Bound'' \<and> jget pvcs ''phase'' = JStr ''Bound'' \<and>
     jget pvs ''migrationUID'' = JStr owner \<and> jget pvcs ''migrationUID'' = JStr owner \<and>
     strAt pvs [''claimRef'', ''name''] = GetName pvc \<and> strAt pvs [''claimRef'', ''namespace''] = GetNamespace pvc \<and>
     strAt pvs [''claimRef'', ''uid''] = v \<and> jget pvcs ''volumeName'' = JStr (GetName pv) \<and>
     sameBacking L (mapAt pv [''spec'', ''nfs'']) (mapAt pvs [''nfs''])"

text \<open>
  Two Works that count as a ready pair carry a volume and a claim whose reflections are a
  bound pair on the target cluster, with exactly the two UIDs that the check returns and the
  controller records.
\<close>

lemma ready_pair_reciprocal:
  assumes "splitPairApplied L (Some x) (Some y) = Some (u, v, True)" and "volumeWork x"
  shows "\<exists>pv pvc s t.
    sliceAt x manifestsPath = Some [JObj pv] \<and> sliceAt y manifestsPath = Some [JObj pvc] \<and>
    sliceAt x statusesPath = Some [JObj s] \<and> sliceAt y statusesPath = Some [JObj t] \<and>
    boundPair L (sget (GetLabels x) OwnerLabel) pv pvc (mapAt s [''status'']) (mapAt t [''status'']) u v"
proof (rule ready_pair_sides [OF assms])
  fix pv pvc s t
  assume sides: "sliceAt x manifestsPath = Some [JObj pv]" "sliceAt y manifestsPath = Some [JObj pvc]"
    "sliceAt x statusesPath = Some [JObj s]" "sliceAt y statusesPath = Some [JObj t]"
    and kinds: "GetKind pv = ''PersistentVolume''" "GetKind pvc = ''PersistentVolumeClaim''"
    and bound: "boundStatus x (mapAt s [''status''])" "boundStatus y (mapAt t [''status''])"
      "boundClaim y pvc (mapAt t [''status''])"
    and uids: "jget (mapAt s [''status'']) ''uid'' = JStr u" "jget (mapAt t [''status'']) ''uid'' = JStr v"
    and rec: "reciprocal L pv pvc (mapAt s [''status'']) (mapAt t [''status''])"
    and rest: "sget (GetLabels x) OwnerLabel = sget (GetLabels y) OwnerLabel" "GetName pvc \<noteq> []"
  have ne: "u \<noteq> []" "v \<noteq> []" using bound(1,2) uids by (auto elim!: boundStatus_uid)
  have ns: "GetNamespace pvc \<noteq> []" using bound(3) by (simp add: boundClaim_def Let_def)
  have "boundPair L (sget (GetLabels x) OwnerLabel) pv pvc (mapAt s [''status'']) (mapAt t [''status'']) u v"
    unfolding boundPair_def
    using kinds uids ne bound(1,2) rest(1) reciprocal_parts [OF rec uids(2) ne(2) rest(2) ns]
    by (simp add: boundStatus_def)
  with sides show ?thesis by blast
qed

lemma receipts_match:
  assumes "splitPairApplied L (Some x) (Some y) = Some (u, v, True)" and "volumeWork x"
    and "ref_PVUID ref = u" "ref_PVCUID ref = v"
  shows "standaloneReceiptMatches L x ref \<and> standaloneReceiptMatches L y ref"
proof (rule ready_pair_sides [OF assms(1,2)])
  fix pv pvc s t
  assume uids: "jget (mapAt s [''status'']) ''uid'' = JStr u" "jget (mapAt t [''status'']) ''uid'' = JStr v"
    and st: "standaloneStatus L x = Some (mapAt s [''status''])" "standaloneStatus L y = Some (mapAt t [''status''])"
    and bound: "boundStatus x (mapAt s [''status''])" "boundStatus y (mapAt t [''status''])"
      "boundClaim y pvc (mapAt t [''status''])"
    and rec: "reciprocal L pv pvc (mapAt s [''status'']) (mapAt t [''status''])" and name: "GetName pvc \<noteq> []"
  have ne: "u \<noteq> []" "v \<noteq> []" using bound(1,2) uids by (auto elim!: boundStatus_uid)
  have ns: "GetNamespace pvc \<noteq> []" using bound(3) by (simp add: boundClaim_def Let_def)
  have "GetName y \<noteq> sget (GetLabels y) standalonePairLabel" using bound(3) by (simp add: boundClaim_def Let_def)
  then show ?thesis
    using assms(2-4) st uids ne reciprocal_parts(4) [OF rec uids(2) ne(2) name ns]
    by (simp add: standaloneReceiptMatches_def volumeWork_def)
qed

text \<open>
  C21: The receipt of a ready pair is the receipt that the cleanup checks: recorded in the
  reference of either Work, it matches that Work.
\<close>

theorem receipt_roundtrip:
  assumes "splitPairApplied L (Some x) (Some y) = Some (u, v, True)" and "volumeWork x"
    and "ref_PVUID ref = u" "ref_PVCUID ref = v"
  shows "standaloneReceiptMatches L x ref \<and> standaloneReceiptMatches L y ref"
  using assms by (rule receipts_match)

theorem receipt_roundtrip_witness:
  "standaloneReceiptMatches demoLibraries (demoServed ! 1) ((workReference (demoWorks ! 1))\<lparr> ref_PVUID := ''pvuid'', ref_PVCUID := ''pvcuid'' \<rparr>) \<and>
   standaloneReceiptMatches demoLibraries (demoServed ! 2) ((workReference (demoWorks ! 1))\<lparr> ref_PVUID := ''pvuid'', ref_PVCUID := ''pvcuid'' \<rparr>)"
  by (rule receipt_roundtrip [OF demo_paired demo_volumeWork]) simp_all


section \<open>Single Works\<close>

text \<open>
  A Work with one manifest that is not standalone counts as applied exactly when it is not
  being deleted, some Applied condition is true, no true Applied condition is from an older
  generation, and its only reflection is an Available or Bound PersistentVolume of that name.
\<close>

lemma applied_closed_form:
  assumes "\<not> standaloneWork w" and "elems (sliceAt w manifestsPath) = [JObj manifest]"
  shows "workApplied L w \<longleftrightarrow>
     GetDeletionTimestamp L w = None \<and>
     (\<exists>c. JObj c \<in> set (elems (sliceAt w [''status'', ''conditions''])) \<and>
        jget c ''type'' = JStr ''Applied'' \<and> jget c ''status'' = JStr ''True'') \<and>
     (\<nexists>c g. JObj c \<in> set (elems (sliceAt w [''status'', ''conditions''])) \<and>
        jget c ''type'' = JStr ''Applied'' \<and> jget c ''status'' = JStr ''True'' \<and>
        NestedInt64 c [''observedGeneration''] = Found g \<and> g \<noteq> 0 \<and> g \<noteq> GetGeneration w) \<and>
     (\<exists>s. elems (sliceAt w statusesPath) = [JObj s] \<and>
        strAt s [''identifier'', ''name''] = GetName manifest \<and>
        strAt s [''identifier'', ''kind''] = ''PersistentVolume'' \<and>
        strAt s [''status'', ''phase''] \<in> {''Available'', ''Bound''})"
proof -
  have "workApplied L w \<longleftrightarrow> GetDeletionTimestamp L w = None \<and>
      appliedCondition w (elems (sliceAt w [''status'', ''conditions''])) False \<and>
      (\<exists>s. elems (sliceAt w statusesPath) = [JObj s] \<and> strAt s [''identifier'', ''name''] = GetName manifest \<and>
        strAt s [''identifier'', ''kind''] = ''PersistentVolume'' \<and>
        strAt s [''status'', ''phase''] \<in> {''Available'', ''Bound''})"
  proof (cases "\<exists>x. elems (sliceAt w statusesPath) = [x]")
    case True
    then obtain x where x: "elems (sliceAt w statusesPath) = [x]" by blast
    show ?thesis
      unfolding workApplied_def Let_def GetDeletionTimestamp_IsZero x assms(2) GetName_def
      using assms(1) by (cases x) auto
  next
    case False
    then have "length (elems (sliceAt w statusesPath)) \<noteq> 1" by (auto simp: length_Suc_conv)
    with False assms show ?thesis by (auto simp: workApplied_def GetDeletionTimestamp_IsZero)
  qed
  then show ?thesis
    unfolding appliedCondition_iff appliedTrue_def staleCondition_def by blast
qed

section \<open>Routing\<close>

text \<open>A Work that has been edited once, and a request that has recorded the intent to do so.\<close>

definition demoEdited :: jobj where
  "demoEdited = fmupd ''metadata'' (JObj (fmupd ''name'' (JStr ''x'') (fmupd ''namespace'' (JStr ''karmada-es-b'')
     (fmupd ''uid'' (JStr ''wx'') (fmupd ''generation'' (JInt 2) fmempty))))) fmempty"

definition demoRepairing :: PVMigration where
  "demoRepairing = set_works [(workReference demoEdited)\<lparr> ref_RoutingWorkUID := ''wx'', ref_RoutingGeneration := 2 \<rparr>] demoMigration"

lemma demoEdited_allowed: "workGenerationAllowed demoEdited demoRepairing"
  by (simp add: workGenerationAllowed_def demoRepairing_def workReference_def demoEdited_def GetGeneration_def GetUID_def
      GetName_def GetNamespace_def strAt_Cons2 strAt_one NestedInt64_def NestedField_Cons)

lemma demoEdited_generation: "GetGeneration demoEdited = 2"
  by (simp add: demoEdited_def GetGeneration_def NestedInt64_def NestedField_Cons)

definition demoUnrouted :: jobj where
  "demoUnrouted = unroutedWork demoMigration demoCkpt demoCkptName 0 demoVolumeManifest"

lemma demoUnrouted_manifests: "sliceAt demoUnrouted manifestsPath = Some [JObj demoVolumeManifest]"
  by (simp add: demoUnrouted_def unroutedWork_reads)

text \<open>
  C38: A Work counts as evidence only in its first generation, or in the second one when the
  request has recorded the intent to route exactly this Work, by its UID; a recorded intent
  makes the unrouted first generation worthless.
\<close>

theorem generation_bound:
  assumes "workGenerationAllowed w m"
  shows "GetGeneration w \<le> 2 \<and>
     (GetGeneration w = 2 \<longrightarrow>
        (\<exists>ref\<in>set (mig_Works m). ref_Name ref = GetName w \<and> ref_Namespace ref = GetNamespace w \<and>
           ref_RoutingWorkUID ref = GetUID w \<and> GetUID w \<noteq> [] \<and> ref_RoutingGeneration ref = 2)) \<and>
     (\<forall>ref\<in>set (mig_Works m). distinct (map (\<lambda>r. (ref_Name r, ref_Namespace r)) (mig_Works m)) \<longrightarrow>
        ref_Name ref = GetName w \<longrightarrow> ref_Namespace ref = GetNamespace w \<longrightarrow> ref_RoutingWorkUID ref \<noteq> [] \<longrightarrow>
        GetGeneration w = 2)"
proof -
  have "GetGeneration w = 2 \<longrightarrow> (\<exists>ref\<in>set refs. ref_Name ref = GetName w \<and> ref_Namespace ref = GetNamespace w \<and>
      ref_RoutingWorkUID ref = GetUID w \<and> GetUID w \<noteq> [] \<and> ref_RoutingGeneration ref = 2)"
    if "generationAllowed refs w" for refs
    using that by (induction refs) (auto split: if_splits)
  moreover have "GetGeneration w = 2" if "generationAllowed refs w" "ref \<in> set refs" "ref_Name ref = GetName w"
      "ref_Namespace ref = GetNamespace w" "ref_RoutingWorkUID ref \<noteq> []" for refs ref
    using that by (induction refs) (auto split: if_splits)
  ultimately show ?thesis
    using assms generationAllowed_bound [of "mig_Works m" w] unfolding workGenerationAllowed_def by blast
qed


theorem generation_bound_witness:
  "GetGeneration demoEdited = 2 \<and>
     (\<exists>ref\<in>set (mig_Works demoRepairing). ref_Name ref = GetName demoEdited \<and> ref_Namespace ref = GetNamespace demoEdited \<and>
        ref_RoutingWorkUID ref = GetUID demoEdited \<and> GetUID demoEdited \<noteq> [] \<and> ref_RoutingGeneration ref = 2)"
  using generation_bound [OF demoEdited_allowed] demoEdited_generation by blast

text \<open>A manifest that carries no annotations yet.\<close>

definition unannotated :: "jobj \<Rightarrow> bool" where
  "unannotated obj \<longleftrightarrow> (\<exists>md. fmlookup obj ''metadata'' = Some (JObj md) \<and> fmlookup md ''annotations'' = None)"

lemma demoVolumeManifest_unannotated: "unannotated demoVolumeManifest"
  by (simp add: unannotated_def demoVolumeManifest_def volumeJson_def typedJson_reads targetVolume_def metaJson_def put_lookups emptyMeta_def)

text \<open>
  Removing the routing undoes adding it: a Work whose manifests had no annotations is
  restored exactly, which is what the repair compares the served Work with.
\<close>

lemma routing_roundtrip:
  assumes "sliceAt w manifestsPath = Some (map JObj objs)" and "\<forall>obj\<in>set objs. unannotated obj"
  shows "\<exists>routed. setWorkRouting w = Some routed \<and> removeWorkRouting routed = Some w \<and>
     sliceAt routed manifestsPath = Some (map (JObj \<circ> setRoute (GetName w) (GetNamespace w)) objs) \<and>
     (\<forall>p. forks manifestsPath p \<longrightarrow> NestedField routed p = NestedField w p)"
proof -
  have routable: "\<forall>obj\<in>set objs. routable obj" using assms(2) by (auto simp: unannotated_def routable_def)
  obtain routed where routed: "setWorkRouting w = Some routed"
    "routed = setSlice (Some (map (JObj \<circ> setRoute (GetName w) (GetNamespace w)) objs)) manifestsPath w"
    using overManifests_Some [OF assms(1)] by (simp add: setWorkRouting_def)
  have "removeRoute obj = obj" if "obj \<in> set objs" for obj
    using that assms(2) by (auto simp: removeRoute_eq unannotated_def)
  then have "map (JObj \<circ> removeRoute) objs = map JObj objs" by simp
  then have "removeWorkRouting w = Some (setSlice (Some (map JObj objs)) manifestsPath w)"
    using overManifests_Some [OF assms(1), of removeRoute] by (simp only: removeWorkRouting_def)
  also have "setSlice (Some (map JObj objs)) manifestsPath w = w"
    using assms(1) by (simp add: setSlice_def slice_value_def setField_same sliceAt_Some_iff)
  finally have "removeWorkRouting routed = Some w"
    using removeWorkRouting_setWorkRouting [OF assms(1) routable routed(1)] by simp
  moreover have "sliceAt routed manifestsPath = Some (map (JObj \<circ> setRoute (GetName w) (GetNamespace w)) objs)"
    unfolding routed(2) using assms(1) by (simp add: sliceAt_setSlice)
  moreover have "\<forall>p. forks manifestsPath p \<longrightarrow> NestedField routed p = NestedField w p"
    using overManifests_frame routed(1) unfolding setWorkRouting_def by blast
  ultimately show ?thesis using routed(1) by blast
qed

section \<open>Comparison with the plan\<close>

definition comparableCopy :: "jobj \<Rightarrow> jobj" where
  "comparableCopy w = (case sliceAt w manifestsPath of None \<Rightarrow> w
     | Some manifests \<Rightarrow> setSlice (Some (map comparableManifest manifests)) manifestsPath w)"

lemma comparableWorkSpec_copy: "comparableWorkSpec w = jget (comparableCopy w) ''spec''"
  by (simp add: comparableWorkSpec_def comparableCopy_def Let_def)

lemma comparableCopy_reads:
  "sliceAt (comparableCopy w) manifestsPath = map_option (map comparableManifest) (sliceAt w manifestsPath)"
  "forks manifestsPath p \<Longrightarrow> NestedField (comparableCopy w) p = NestedField w p"
  by (simp_all add: comparableCopy_def sliceAt_setSlice split: option.split) (simp add: setSlice_def setField_other)

lemma NestedField_jget: "NestedField c (f # g # p) = walk (jget c f) (g # p)"
  by (auto simp: NestedField_Cons jget_def split: option.splits)

text \<open>What equal comparable specs have in common.\<close>

lemma comparableWorkSpec_eq:
  assumes "comparableWorkSpec w = comparableWorkSpec e" and "sliceAt e manifestsPath = Some ms"
  shows "\<exists>ms'. sliceAt w manifestsPath = Some ms' \<and> map comparableManifest ms' = map comparableManifest ms"
    and "f \<noteq> ''workload'' \<Longrightarrow> NestedField w (''spec'' # f # p) = NestedField e (''spec'' # f # p)"
    and "forks manifestsPath (''spec'' # q) \<Longrightarrow> NestedField w (''spec'' # q) = NestedField e (''spec'' # q)"
proof -
  have same: "NestedField (comparableCopy w) (''spec'' # f # p) = NestedField (comparableCopy e) (''spec'' # f # p)" for f p
    using assms(1) by (simp add: NestedField_jget comparableWorkSpec_copy)
  then have "sliceAt (comparableCopy w) manifestsPath = sliceAt (comparableCopy e) manifestsPath"
    by (simp add: sliceAt_def NestedSlice_def)
  then show "\<exists>ms'. sliceAt w manifestsPath = Some ms' \<and> map comparableManifest ms' = map comparableManifest ms"
    using assms(2) by (auto simp: comparableCopy_reads)
  show "NestedField w (''spec'' # f # p) = NestedField e (''spec'' # f # p)" if "f \<noteq> ''workload''"
    using same [of f p] that by (simp add: comparableCopy_reads)
  show "NestedField w (''spec'' # q) = NestedField e (''spec'' # q)" if "forks manifestsPath (''spec'' # q)"
  proof -
    from that obtain f p where "q = f # p" by (cases q) auto
    with same [of f p] comparableCopy_reads(2) [OF that, of w] comparableCopy_reads(2) [OF that, of e] show ?thesis by metis
  qed
qed

text \<open>
  The paths of a manifest that the comparison looks at: all but the tracking keys, the two maps
  that hold them as a whole, and the creation time, of which only null and missing are the same.
\<close>

definition comparedMetadata :: "string list \<Rightarrow> bool" where
  "comparedMetadata p \<longleftrightarrow>
     (case p of
        [] \<Rightarrow> False
      | f # q \<Rightarrow>
          (if f = ''labels'' then q \<noteq> [] \<and> hd q \<noteq> permanentIDLabel
           else if f = ''annotations'' then q \<noteq> [] \<and> hd q \<notin> {managedAnnotations, managedLabels}
           else f \<noteq> ''creationTimestamp''))"

definition comparedPath :: "string list \<Rightarrow> bool" where
  "comparedPath p \<longleftrightarrow> p \<noteq> [] \<and> (hd p = ''metadata'' \<longrightarrow> comparedMetadata (tl p))"

definition stampOf :: "jobj \<Rightarrow> json" where
  "stampOf k = value_or JNull (NestedField k [''metadata'', ''creationTimestamp''])"

definition agree :: "jobj \<Rightarrow> jobj \<Rightarrow> bool" where
  "agree k' k \<longleftrightarrow> (\<forall>p. comparedPath p \<longrightarrow> NestedField k' p = NestedField k p) \<and> stampOf k' = stampOf k"

lemma NestedField_fmdrop: "f \<noteq> g \<Longrightarrow> NestedField (fmdrop g m) (f # p) = NestedField m (f # p)"
  by (simp add: NestedField_Cons)

lemma lookup_fold_fmdrop: "fmlookup (fold fmdrop ks m) k = (if k \<in> set ks then None else fmlookup m k)"
  by (induction ks arbitrary: m) auto

lemma dropTracking_other: "f \<noteq> g \<Longrightarrow> NestedField (dropTracking g ks md) (f # p) = NestedField md (f # p)"
  by (simp add: dropTracking_def Let_def NestedField_Cons split: json.split)

lemma dropTracking_entry:
  assumes "k \<notin> set ks"
  shows "NestedField (dropTracking g ks md) (g # k # p) = NestedField md (g # k # p)"
proof (cases "jget md g")
  case (JObj vs)
  then have md: "fmlookup md g = Some (JObj vs)" by (auto simp: jget_def split: option.splits)
  have entry: "fmlookup (fold fmdrop ks vs) k = fmlookup vs k"
    using assms by (simp add: lookup_fold_fmdrop)
  then have "fold fmdrop ks vs = fmempty \<Longrightarrow> fmlookup vs k = None" by (metis fmempty_lookup)
  with JObj md entry show ?thesis by (simp add: dropTracking_def Let_def NestedField_Cons)
qed (simp_all add: dropTracking_def)

lemma comparableMetadata_reads:
  assumes "comparedMetadata p"
  shows "NestedField (comparableMetadata md) p = NestedField md p"
proof (cases p)
  case (Cons f q)
  let ?md1 = "dropTracking ''labels'' [permanentIDLabel] md"
  let ?md2 = "dropTracking ''annotations'' [managedAnnotations, managedLabels] ?md1"
  have "f \<noteq> ''creationTimestamp''" using assms Cons by (auto simp: comparedMetadata_def split: if_splits)
  then have "NestedField (comparableMetadata md) p = NestedField ?md2 p"
    by (simp add: comparableMetadata_def Let_def Cons NestedField_fmdrop)
  also have "NestedField ?md2 p = NestedField md p"
    using assms Cons by (cases q) (auto simp: comparedMetadata_def dropTracking_other dropTracking_entry split: if_splits)
  finally show ?thesis .
next
  case Nil
  with assms show ?thesis by (simp add: comparedMetadata_def)
qed

lemma comparableMetadata_stamp:
  "value_or JNull (NestedField (comparableMetadata md) [''creationTimestamp'']) = value_or JNull (NestedField md [''creationTimestamp''])"
  by (simp add: comparableMetadata_def Let_def dropTracking_other NestedField_fmdrop)
    (auto simp: NestedField_Cons jget_def dropTracking_def Let_def split: option.splits json.splits)

lemma comparableManifest_stamp:
  assumes "comparableManifest (JObj k) = JObj c"
  shows "stampOf c = stampOf k"
proof (cases "jget k ''metadata''")
  case (JObj md)
  then have "fmlookup k ''metadata'' = Some (JObj md)" by (auto simp: jget_def split: option.splits)
  moreover have "c = fmupd ''metadata'' (JObj (comparableMetadata md)) k"
    using assms JObj by (simp add: comparableManifest_def)
  ultimately show ?thesis
    using comparableMetadata_stamp [of md] by (simp add: stampOf_def NestedField_Cons walk_JObj)
qed (use assms in \<open>simp_all add: comparableManifest_def\<close>)

text \<open>Two manifests that compare equal agree on every compared path.\<close>

lemma comparableManifest_eq:
  assumes "comparableManifest x = comparableManifest (JObj k)"
  obtains k' where "x = JObj k'" "\<And>p. comparedPath p \<Longrightarrow> NestedField k' p = NestedField k p" "stampOf k' = stampOf k"
proof -
  have obj: "\<exists>c. comparableManifest (JObj k) = JObj c" by (auto simp: comparableManifest_def split: json.split)
  with assms obtain k' where x: "x = JObj k'" by (cases x) (auto simp: comparableManifest_def)
  have reads: "\<exists>c. comparableManifest (JObj k) = JObj c \<and> NestedField c p = NestedField k p" if "comparedPath p" for k p
  proof (cases p)
    case (Cons f q)
    show ?thesis
    proof (cases "jget k ''metadata''")
      case (JObj md)
      then have k: "fmlookup k ''metadata'' = Some (JObj md)" by (auto simp: jget_def split: option.splits)
      have "NestedField (comparableMetadata md) q = NestedField md q" if "f = ''metadata''"
        using that \<open>comparedPath p\<close> Cons by (simp add: comparedPath_def comparableMetadata_reads)
      with JObj k Cons show ?thesis
        by (auto simp: comparableManifest_def NestedField_Cons walk_JObj)
    qed (simp_all add: comparableManifest_def)
  next
    case Nil
    with that show ?thesis by (simp add: comparedPath_def)
  qed
  have "NestedField k' p = NestedField k p" if "comparedPath p" for p
    using reads [OF that, of k] reads [OF that, of k'] assms x by auto
  moreover from obj obtain c where "comparableManifest (JObj k) = JObj c" "comparableManifest (JObj k') = JObj c"
    using assms x by auto
  then have "stampOf k' = stampOf k"
    using comparableManifest_stamp by metis
  ultimately show thesis using x that by blast
qed

text \<open>
  C19: A validated Work has the planned spec up to the tracking keys of admission: every field of
  the spec outside the list of manifests is the planned one, on every path; the list has as many
  manifests, and each agrees with the planned one on every path but the tracking keys that
  admission sets, where a null creation time counts as none; the owner, manager and pair labels
  are those of this request and of the planned Work.
\<close>

theorem validated_work_unmodified:
  assumes "validateWork w e m = None" and "sliceAt e manifestsPath = Some (map JObj ks)"
  shows "(\<exists>ks'. sliceAt w manifestsPath = Some (map JObj ks') \<and> list_all2 agree ks' ks) \<and>
      (\<forall>p. forks manifestsPath (''spec'' # p) \<longrightarrow> NestedField w (''spec'' # p) = NestedField e (''spec'' # p)) \<and>
      sget (GetLabels w) OwnerLabel = mig_UID m \<and> sget (GetLabels w) ManagedLabel = ManagerName \<and>
      sget (GetLabels w) standalonePairLabel = sget (GetLabels e) standalonePairLabel"
proof -
  from assms(1) have spec: "comparableWorkSpec w = comparableWorkSpec e"
    and labels: "sget (GetLabels w) standalonePairLabel = sget (GetLabels e) standalonePairLabel"
      "sget (GetLabels w) OwnerLabel = mig_UID m" "sget (GetLabels w) ManagedLabel = ManagerName"
    by (simp_all add: validateWork_None_iff)
  from comparableWorkSpec_eq(1) [OF spec assms(2)] obtain ms where
    ms: "sliceAt w manifestsPath = Some ms" "map comparableManifest ms = map comparableManifest (map JObj ks)" by blast
  have "\<exists>ks'. xs = map JObj ks' \<and> list_all2 agree ks' ks"
    if "map comparableManifest xs = map comparableManifest (map JObj ks)" for xs
    using that
  proof (induction xs arbitrary: ks)
    case (Cons x xs)
    then obtain k rest where ks: "ks = k # rest" "comparableManifest x = comparableManifest (JObj k)"
      "map comparableManifest xs = map comparableManifest (map JObj rest)" by (cases ks) auto
    from Cons.IH [OF ks(3)] obtain ks' where "xs = map JObj ks'"
      "list_all2 agree ks' rest" by blast
    moreover obtain k' where "x = JObj k'" "agree k' k"
      using comparableManifest_eq [OF ks(2)] unfolding agree_def by blast
    ultimately show ?case using ks(1) by (intro exI [of _ "k' # ks'"]) simp
  qed simp
  from this [OF ms(2)] ms(1) labels comparableWorkSpec_eq(3) [OF spec assms(2)] show ?thesis by auto
qed

theorem validated_work_unmodified_witness:
  "(\<exists>ks'. sliceAt (demoServed ! 1) manifestsPath = Some (map JObj ks') \<and> list_all2 agree ks' [demoRouted 1]) \<and>
     NestedField (demoServed ! 1) [''spec'', ''suspendDispatching''] = NestedField (demoWorks ! 1) [''spec'', ''suspendDispatching''] \<and>
     sget (GetLabels (demoServed ! 1)) OwnerLabel = mig_UID demoMigration"
proof -
  have valid: "validateWork (demoServed ! 1) (demoWorks ! 1) demoMigration = None"
    by (rule demo_validated) (use demoServed_reads(2) [of 1] in \<open>simp_all add: workGenerationAllowed_def demo_defs\<close>)
  have "sliceAt (demoWorks ! 1) manifestsPath = Some (map JObj [demoRouted 1])"
    by (simp add: demoWorks_eq plannedWork_reads demoRouted_def demo_execution)
  from validated_work_unmodified [OF valid this] show ?thesis by simp
qed

text \<open>What Karmada's admission writes into the manifests of a Work.\<close>

definition admitManifest :: "string \<Rightarrow> string \<Rightarrow> string \<Rightarrow> jobj \<Rightarrow> jobj" where
  "admitManifest permanentID annotationKeys labelKeys obj =
     setField (JStr labelKeys) [''metadata'', ''annotations'', managedLabels]
       (setField (JStr annotationKeys) [''metadata'', ''annotations'', managedAnnotations]
         (setField (JStr permanentID) [''metadata'', ''labels'', permanentIDLabel] obj))"

definition admissible :: "jobj \<Rightarrow> bool" where
  "admissible obj \<longleftrightarrow> (\<exists>md. fmlookup obj ''metadata'' = Some (JObj md) \<and>
     (fmlookup md ''labels'' = None \<or> (\<exists>m. fmlookup md ''labels'' = Some (JObj m))) \<and>
     (fmlookup md ''annotations'' = None \<or> (\<exists>m. fmlookup md ''annotations'' = Some (JObj m))))"

definition mapOr :: "jobj \<Rightarrow> string \<Rightarrow> jobj" where
  "mapOr md g = (case fmlookup md g of Some (JObj m) \<Rightarrow> m | _ \<Rightarrow> fmempty)"

lemma dropTracking_added:
  assumes "fmlookup md g = None \<or> (\<exists>m. fmlookup md g = Some (JObj m))"
    and "fold fmdrop ks m' = fold fmdrop ks (mapOr md g)"
  shows "dropTracking g ks (fmupd g (JObj m') md) = dropTracking g ks md"
proof -
  have "fold fmdrop ks fmempty = (fmempty :: jobj)" by (induction ks) auto
  with assms show ?thesis
    by (auto simp: dropTracking_def mapOr_def jget_def Let_def fmdrop_absent)
qed

lemma dropTracking_swap:
  "g \<noteq> h \<Longrightarrow> dropTracking g ks (fmupd h v md) = fmupd h v (dropTracking g ks md)"
  by (auto simp: dropTracking_def Let_def jget_def fmdrop_upd_other fmupd_swap [of h g] split: option.splits json.splits)

lemma comparableManifest_admitted:
  assumes "admissible obj"
  shows "comparableManifest (JObj (admitManifest i a l obj)) = comparableManifest (JObj obj)"
proof -
  from assms obtain md where md: "fmlookup obj ''metadata'' = Some (JObj md)"
    and lb: "fmlookup md ''labels'' = None \<or> (\<exists>m. fmlookup md ''labels'' = Some (JObj m))"
    and an: "fmlookup md ''annotations'' = None \<or> (\<exists>m. fmlookup md ''annotations'' = Some (JObj m))"
    by (auto simp: admissible_def)
  let ?lb = "fmupd permanentIDLabel (JStr i) (mapOr md ''labels'')"
  let ?an = "fmupd managedLabels (JStr l) (fmupd managedAnnotations (JStr a) (mapOr md ''annotations''))"
  let ?md = "fmupd ''annotations'' (JObj ?an) (fmupd ''labels'' (JObj ?lb) md)"
  have keys: "managedLabels \<noteq> managedAnnotations" by (simp add: managedLabels_def managedAnnotations_def)
  have admitted: "admitManifest i a l obj = fmupd ''metadata'' (JObj ?md) obj"
    using md lb an by (auto simp: admitManifest_def setField_def mapOr_def)
  have "dropTracking ''labels'' [permanentIDLabel] ?md =
      fmupd ''annotations'' (JObj ?an) (dropTracking ''labels'' [permanentIDLabel] md)"
    using lb by (subst dropTracking_swap) (simp_all add: dropTracking_added)
  moreover have "fmlookup (dropTracking ''labels'' [permanentIDLabel] md) ''annotations'' = fmlookup md ''annotations''"
    by (auto simp: dropTracking_def Let_def split: json.split)
  moreover have "fold fmdrop [managedAnnotations, managedLabels] ?an =
      fold fmdrop [managedAnnotations, managedLabels] (mapOr md ''annotations'')"
    using keys by (simp add: fmdrop_upd_other)
  ultimately have "comparableMetadata ?md = comparableMetadata md"
    using an by (simp only: comparableMetadata_def Let_def dropTracking_added mapOr_def)
  with md show ?thesis by (simp add: admitted comparableManifest_def jget_def)
qed

text \<open>
  Admission does not disturb the comparison: whatever tracking values Karmada writes into
  the manifests of a Work, it validates as before.
\<close>

lemma admission_tolerated:
  assumes "sliceAt w manifestsPath = Some (map JObj objs)" and "\<forall>obj\<in>set objs. admissible obj"
  shows "\<exists>admitted. overManifests (admitManifest i a l) w = Some admitted \<and>
     validateWork admitted e m = validateWork w e m"
proof -
  let ?w = "setSlice (Some (map (JObj \<circ> admitManifest i a l) objs)) manifestsPath w"
  have admitted: "overManifests (admitManifest i a l) w = Some ?w" by (rule overManifests_Some [OF assms(1)])
  have frame: "forks manifestsPath p \<Longrightarrow> NestedField ?w p = NestedField w p" for p
    by (rule overManifests_frame [OF admitted])
  have "sliceAt ?w manifestsPath = Some (map (JObj \<circ> admitManifest i a l) objs)"
    using assms(1) by (simp add: sliceAt_setSlice)
  moreover have "map comparableManifest (map (JObj \<circ> admitManifest i a l) objs) = map comparableManifest (map JObj objs)"
    using assms(2) by (simp add: comparableManifest_admitted)
  ultimately have "comparableWorkSpec ?w = comparableWorkSpec w"
    using assms(1) by (simp only: comparableWorkSpec_def option.case Let_def setSlice_def setField_twice)
  moreover have "GetLabels ?w = GetLabels w" "GetName ?w = GetName w" "GetNamespace ?w = GetNamespace w"
    "GetUID ?w = GetUID w" "GetGeneration ?w = GetGeneration w"
    by (simp_all add: GetLabels_def GetName_def GetNamespace_def GetUID_def GetGeneration_def strAt_def
        NestedString_def NestedInt64_def frame)
  moreover then have "generationAllowed refs ?w = generationAllowed refs w" for refs
    by (induction refs) simp_all
  ultimately have "validateWork ?w e m = validateWork w e m"
    by (simp add: validateWork_def workGenerationAllowed_def)
  with admitted show ?thesis by blast
qed

end
