(* ===== verification/MigrationRuns.thy ===== *)
theory MigrationRuns
  imports CleanupFacts
begin

text \<open>
  Executions of the migration and the cleanup controller, built forwards: which traces a pass
  has when the server answers in a given way.  The facts show that the guarded behaviour is
  not vacuous: with the right replies a pass records its plan, creates the Works, and reaches
  \<open>Ready\<close>, and the cleanup deletes the Works and completes the request.
\<close>

section \<open>Introduction rules for executions\<close>

lemma exec_tryI:
  assumes "exec m t1 (Ok x)" and "exec (k x) t2 y" shows "exec (tryM m h k) (t1 @ t2) y"
  unfolding exec_tryM by (rule exI [of _ t1], rule exI [of _ "Ok x"], rule exI [of _ t2]) (simp add: assms)

lemma exec_tryI_Err:
  assumes "exec m t1 (Err e)" and "exec (h e) t2 y" shows "exec (tryM m h k) (t1 @ t2) y"
  unfolding exec_tryM by (rule exI [of _ t1], rule exI [of _ "Err e"], rule exI [of _ t2]) (simp add: assms)

lemma exec_andThenI:
  "exec m t1 (Ok x) \<Longrightarrow> exec (k x) t2 y \<Longrightarrow> exec (andThen m k) (t1 @ t2) y"
  unfolding andThen_def by (rule exec_tryI)

lemma exec_callI: "answers c r \<Longrightarrow> f r = y \<Longrightarrow> exec (call c f) [(c, r)] y"
  by (auto simp: exec_call)

lemma exec_typed_callI:
  "exec (getMigration nn) [(GetCall MigrationKind nn, Object (MigrationObj m))] (Ok m)"
  "exec (getMetadata nn) [(GetCall MetadataKind nn, Object (MetadataObj md))] (Ok md)"
  "exec (getUnstructured g nn) [(GetCall (UnstructuredKind g) nn, Object (UnstructuredObj u))] (Ok u)"
  "exec (getUnstructured g nn) [(GetCall (UnstructuredKind g) nn, Failed e)] (Err e)"
  "exec (createUnstructured w) [(CreateCall (UnstructuredObj w), Object (UnstructuredObj u))] (Ok u)"
  "exec (patchUnstructured v w) [(PatchCall (UnstructuredObj v) (UnstructuredObj w), Object (UnstructuredObj u))] (Ok ())"
  "exec (patchMigrationStatus b n) [(StatusPatchCall (MigrationObj b) (MigrationObj n), Object (MigrationObj m))] (Ok ())"
  "exec (deleteUnstructured w uid rv) [(DeleteCall (UnstructuredObj w) uid rv, Done)] (Ok ())"
  by (auto simp: getMigration_def getMetadata_def getUnstructured_def createUnstructured_def patchUnstructured_def
      patchMigrationStatus_def deleteUnstructured_def intro!: exec_callI)

lemma exec_finishI: "exec p tr (Ok ()) \<Longrightarrow> exec (finish d p) tr (Ok (d, None))"
  unfolding finish_def using exec_tryI [of p tr "()" "\<lambda>_. ret (d, None)" "[]" "Ok (d, None)"] by simp

lemma exec_requireI: "b \<Longrightarrow> exec k tr y \<Longrightarrow> exec (require b msg k) tr y"
  by (simp add: require_def)

lemma exec_checkI: "r = None \<Longrightarrow> exec k tr y \<Longrightarrow> exec (check r k) tr y"
  by (simp add: check_def)

section \<open>One Work\<close>

lemma syncWork_observes:
  assumes "refMatches (mig_Works (sy_m s) ! i) (sy_works s ! i)" and "\<not> ref_Detached (mig_Works (sy_m s) ! i)"
    and "GetDeletionTimestamp L w = None" and "validateWork w (sy_works s ! i) (sy_m s) = None"
  shows "exec (syncWork L i s) [workRead (mig_Works (sy_m s) ! i) w] (Ok (Some (observeWork L i w s)))"
proof -
  have "comparableWorkSpec w = comparableWorkSpec (sy_works s ! i)" using assms(4) by (simp add: validateWork_None_iff)
  then have "exec (ensureWorkRouting L (sy_m s) i w (sy_works s ! i)) [] (Ok False)"
    using assms(3) by (simp add: ensureWorkRouting_def require_def)
  then have "exec (andThen (ensureWorkRouting L (sy_m s) i w (sy_works s ! i))
      (\<lambda>changed. if changed then ret None
         else check (validateWork w (sy_works s ! i) (sy_m s)) (ret (Some (observeWork L i w s)))))
      ([] @ []) (Ok (Some (observeWork L i w s)))"
    by (rule exec_andThenI) (simp add: assms(4) check_def)
  note body = this
  have "exec (syncWork L i s) ([workRead (mig_Works (sy_m s) ! i) w] @ ([] @ [])) (Ok (Some (observeWork L i w s)))"
    unfolding syncWork_def Let_def workRead_def
    by (rule exec_requireI [OF assms(1)], simp only: assms(2) if_False,
        rule exec_tryI, rule exec_typed_callI(3), rule body)
  then show ?thesis by simp
qed

lemma syncWork_creates:
  assumes "refMatches (mig_Works (sy_m s) ! i) (sy_works s ! i)" and "\<not> ref_Detached (mig_Works (sy_m s) ! i)"
    and "ref_RoutingWorkUID (mig_Works (sy_m s) ! i) = []" and "\<not> ref_Applied (mig_Works (sy_m s) ! i)"
  shows "exec (syncWork L i s)
     [(GetCall (UnstructuredKind WorkGVK) (refKey (mig_Works (sy_m s) ! i)), Failed (NotFound t)),
      (CreateCall (UnstructuredObj (sy_works s ! i)), Object (UnstructuredObj c))]
     (Ok (Some (s\<lparr> sy_all := False, sy_works := (sy_works s)[i := c] \<rparr>)))"
proof -
  have "exec (createMissing i s) ([(CreateCall (UnstructuredObj (sy_works s ! i)), Object (UnstructuredObj c))] @ [])
     (Ok (Some (s\<lparr> sy_all := False, sy_works := (sy_works s)[i := c] \<rparr>)))"
    unfolding createMissing_def Let_def
    by (intro exec_requireI exec_tryI [OF exec_typed_callI(5)]) (simp_all add: assms(3,4))
  note create = this
  have "exec (syncWork L i s)
     ([(GetCall (UnstructuredKind WorkGVK) (refKey (mig_Works (sy_m s) ! i)), Failed (NotFound t))] @
      ([(CreateCall (UnstructuredObj (sy_works s ! i)), Object (UnstructuredObj c))] @ []))
     (Ok (Some (s\<lparr> sy_all := False, sy_works := (sy_works s)[i := c] \<rparr>)))"
    unfolding syncWork_def Let_def
    by (rule exec_requireI [OF assms(1)], simp only: assms(2) if_False,
        rule exec_tryI_Err, rule exec_typed_callI(4), simp only: isNotFound.simps if_True, rule create)
  then show ?thesis by simp
qed

lemma syncWorks_step:
  assumes "exec (syncWork L i s) t1 (Ok (Some s'))" and "exec (syncWorks L is s') t2 y"
  shows "exec (syncWorks L (i # is) s) (t1 @ t2) y"
  using exec_andThenI [OF assms(1), of _ t2 y] assms(2) by simp

section \<open>A pass in which every Work is applied\<close>

definition markApplied :: "WorkReference \<Rightarrow> WorkReference" where
  "markApplied ref = ref\<lparr> ref_Applied := True \<rparr>"

text \<open>The state of the loop after the first \<open>k\<close> Works were observed applied.\<close>

definition observedState :: "PVMigration \<Rightarrow> jobj list \<Rightarrow> jobj list \<Rightarrow> nat \<Rightarrow> syncState" where
  "observedState m works ws k =
     \<lparr> sy_m = set_works (map markApplied (take k (mig_Works m)) @ drop k (mig_Works m)) m, sy_works = works,
       sy_all = True, sy_observed = fold (\<lambda>w. fmupd (GetName w) w) (take k ws) fmempty \<rparr>"

lemma observedState_start: "observedState m works ws 0 = startState m works"
  by (simp add: observedState_def startState_def)

lemma observedState_nth:
  "k < length (mig_Works m) \<Longrightarrow> mig_Works (sy_m (observedState m works ws k)) ! k = mig_Works m ! k"
  by (simp add: observedState_def nth_append)

lemma refProgress_marked: "list_all2 refProgress refs (map markApplied (take k refs) @ drop k refs)"
proof -
  have "list_all2 refProgress (take k refs) (map markApplied (take k refs))"
    by (simp add: list_all2_map2 list.rel_refl refProgress_def markApplied_def ref_identity_def)
  moreover have "list_all2 refProgress (drop k refs) (drop k refs)" by (simp add: list.rel_refl)
  ultimately have "list_all2 refProgress (take k refs @ drop k refs) (map markApplied (take k refs) @ drop k refs)"
    by (rule list_all2_appendI)
  then show ?thesis by simp
qed

lemma observedState_valid:
  "validateWork w e (sy_m (observedState m works ws k)) = validateWork w e m"
  by (simp add: observedState_def validateWork_progress refProgress_marked)

lemma observedState_next:
  assumes "k < length ws" "k < length (mig_Works m)" "workApplied L (ws ! k)"
  shows "observeWork L k (ws ! k) (observedState m works ws k) = observedState m works ws (Suc k)"
proof -
  let ?refs = "map markApplied (take k (mig_Works m)) @ drop k (mig_Works m)"
  have "?refs[k := markApplied (?refs ! k)] = map markApplied (take (Suc k) (mig_Works m)) @ drop (Suc k) (mig_Works m)"
    using assms(2) by (simp add: nth_append list_update_append take_Suc_conv_app_nth Cons_nth_drop_Suc [symmetric])
  then show ?thesis
    using assms by (simp add: observeWork_def observedState_def updateRef_def markApplied_def Let_def take_Suc_conv_app_nth)
qed

text \<open>A Work as the controller wants to find it.\<close>

definition inOrder :: "libraries \<Rightarrow> PVMigration \<Rightarrow> jobj list \<Rightarrow> jobj list \<Rightarrow> nat \<Rightarrow> bool" where
  "inOrder L m works ws i \<longleftrightarrow>
     refMatches (mig_Works m ! i) (works ! i) \<and> \<not> ref_Detached (mig_Works m ! i) \<and>
     GetDeletionTimestamp L (ws ! i) = None \<and> validateWork (ws ! i) (works ! i) m = None \<and> workApplied L (ws ! i)"

definition workReads :: "PVMigration \<Rightarrow> jobj list \<Rightarrow> trace" where
  "workReads m ws = map2 workRead (mig_Works m) ws"

lemma syncWorks_observe:
  assumes "\<And>i. i < length works \<Longrightarrow> inOrder L m works ws i"
    and "length ws = length works" "length (mig_Works m) = length works" "k \<le> length works"
  shows "exec (syncWorks L [k..<length works] (observedState m works ws k)) (drop k (workReads m ws))
     (Ok (Some (observedState m works ws (length works))))"
  using assms(4)
proof (induction "length works - k" arbitrary: k)
  case 0
  then show ?case using assms by (simp add: workReads_def)
next
  case (Suc n)
  then have k: "k < length works" by simp
  let ?s = "observedState m works ws k"
  note ok = assms(1) [OF k, unfolded inOrder_def]
  have "exec (syncWork L k ?s) [workRead (mig_Works (sy_m ?s) ! k) (ws ! k)] (Ok (Some (observeWork L k (ws ! k) ?s)))"
    by (rule syncWork_observes)
      (use ok k assms(2,3) in \<open>simp_all add: observedState_nth observedState_valid\<close>, simp_all add: observedState_def)
  then have step: "exec (syncWork L k ?s) [workRead (mig_Works m ! k) (ws ! k)] (Ok (Some (observedState m works ws (Suc k))))"
    using ok k assms(2,3) by (simp add: observedState_nth observedState_next)
  have "drop k (workReads m ws) = workRead (mig_Works m ! k) (ws ! k) # drop (Suc k) (workReads m ws)"
    using k assms(2,3) by (simp add: workReads_def Cons_nth_drop_Suc [symmetric])
  moreover have "exec (syncWorks L [Suc k..<length works] (observedState m works ws (Suc k))) (drop (Suc k) (workReads m ws))
     (Ok (Some (observedState m works ws (length works))))"
    using Suc.hyps(2) k by (intro Suc.hyps(1)) simp_all
  ultimately show ?case
    using syncWorks_step [OF step] k by (simp add: upt_conv_Cons)
qed


section \<open>The receipts and the end of the pass\<close>

definition receipted :: "(nat \<Rightarrow> string \<times> string) \<Rightarrow> nat \<Rightarrow> WorkReference \<Rightarrow> WorkReference" where
  "receipted uids i ref =
     (if ref_Standalone ref then (markApplied ref)\<lparr> ref_PVUID := fst (uids i), ref_PVCUID := snd (uids i) \<rparr>
      else markApplied ref)"

definition receiptedRefs :: "(nat \<Rightarrow> string \<times> string) \<Rightarrow> nat \<Rightarrow> WorkReference list \<Rightarrow> WorkReference list" where
  "receiptedRefs uids k refs = map (\<lambda>i. if i < k then receipted uids i (refs ! i) else markApplied (refs ! i)) [0..<length refs]"

definition observedMap :: "jobj list \<Rightarrow> (string, jobj) fmap" where
  "observedMap ws = fold (\<lambda>w. fmupd (GetName w) w) ws fmempty"

definition pairReady :: "libraries \<Rightarrow> jobj list \<Rightarrow> jobj list \<Rightarrow> (nat \<Rightarrow> string \<times> string) \<Rightarrow> nat \<Rightarrow> bool" where
  "pairReady L works ws uids i \<longleftrightarrow>
     splitPairApplied L (fmlookup (observedMap ws) (pairNameOf (works ! i)))
       (fmlookup (observedMap ws) (pairNameOf (works ! i) @ ''-pvc'')) = Some (fst (uids i), snd (uids i), True)"

definition receiptState :: "PVMigration \<Rightarrow> jobj list \<Rightarrow> jobj list \<Rightarrow> (nat \<Rightarrow> string \<times> string) \<Rightarrow> nat \<Rightarrow> syncState" where
  "receiptState m works ws uids k =
     \<lparr> sy_m = set_works (receiptedRefs uids k (mig_Works m)) m, sy_works = works, sy_all = True,
       sy_observed = observedMap ws \<rparr>"

lemma receiptState_start:
  "length ws = length works \<Longrightarrow> length (mig_Works m) = length works \<Longrightarrow>
     observedState m works ws (length works) = receiptState m works ws uids 0"
proof -
  have "map markApplied refs = receiptedRefs uids 0 refs" for refs
    by (rule nth_equalityI) (simp_all add: receiptedRefs_def)
  then show "length ws = length works \<Longrightarrow> length (mig_Works m) = length works \<Longrightarrow> ?thesis"
    by (simp add: observedState_def receiptState_def observedMap_def)
qed

lemma receiptedRefs_Suc:
  assumes "k < length refs"
  shows "receiptedRefs uids (Suc k) refs = (receiptedRefs uids k refs)[k := receipted uids k (refs ! k)]"
  using assms by (intro nth_equalityI) (auto simp: receiptedRefs_def nth_list_update less_Suc_eq)

lemma bindReceipt_ready:
  assumes "k < length (mig_Works m)" and "\<not> ref_Detached (mig_Works m ! k)"
    and "ref_Standalone (mig_Works m ! k) \<Longrightarrow> pairReady L works ws uids k"
  shows "bindReceipt L k (receiptState m works ws uids k) = Some (receiptState m works ws uids (Suc k))"
proof -
  have nth: "receiptedRefs uids k (mig_Works m) ! k = markApplied (mig_Works m ! k)"
    using assms(1) by (simp add: receiptedRefs_def)
  have same: "receiptedRefs uids (Suc k) (mig_Works m) = receiptedRefs uids k (mig_Works m)"
    if "\<not> ref_Standalone (mig_Works m ! k)"
    unfolding receiptedRefs_Suc [OF assms(1)]
    using that by (intro list_update_same_conv [THEN iffD2]) (simp_all add: assms(1) receiptedRefs_def receipted_def)
  show ?thesis
  proof (cases "ref_Standalone (mig_Works m ! k)")
    case True
    with assms(3) have pair: "splitPairApplied L (fmlookup (observedMap ws) (pairNameOf (works ! k)))
       (fmlookup (observedMap ws) (pairNameOf (works ! k) @ ''-pvc'')) = Some (fst (uids k), snd (uids k), True)"
      by (simp add: pairReady_def)
    have "receipted uids k (mig_Works m ! k) = (markApplied (mig_Works m ! k))
       \<lparr> ref_Applied := True, ref_PVUID := fst (uids k), ref_PVCUID := snd (uids k) \<rparr>"
      using True by (simp add: receipted_def markApplied_def)
    with True assms(1,2) nth pair show ?thesis
      by (simp add: bindReceipt_def receiptState_def Let_def updateRef_def receiptedRefs_Suc markApplied_def)
  next
    case False
    with nth same show ?thesis by (simp add: bindReceipt_def receiptState_def Let_def markApplied_def)
  qed
qed

lemma bindReceipts_ready:
  assumes "\<And>i. i < length (mig_Works m) \<Longrightarrow> \<not> ref_Detached (mig_Works m ! i)"
    and "\<And>i. i < length (mig_Works m) \<Longrightarrow> ref_Standalone (mig_Works m ! i) \<Longrightarrow> pairReady L works ws uids i"
    and "k \<le> length (mig_Works m)"
  shows "bindReceipts L [k..<length (mig_Works m)] (receiptState m works ws uids k) =
     Some (receiptState m works ws uids (length (mig_Works m)))"
  using assms(3)
proof (induction "length (mig_Works m) - k" arbitrary: k)
  case (Suc n)
  then have k: "k < length (mig_Works m)" by simp
  from bindReceipt_ready [OF k assms(1) [OF k]] assms(2) [OF k]
  have "bindReceipt L k (receiptState m works ws uids k) = Some (receiptState m works ws uids (Suc k))" by blast
  with Suc.hyps(1) [of "Suc k"] Suc.hyps(2) k show ?case by (simp add: upt_conv_Cons)
qed simp

text \<open>The request as the pass leaves it.\<close>

definition readyMigration :: "PVMigration \<Rightarrow> (nat \<Rightarrow> string \<times> string) \<Rightarrow> PVMigration" where
  "readyMigration m uids = withPhase (set_works (receiptedRefs uids (length (mig_Works m)) (mig_Works m)) m) ''Ready''
     ''PV application confirmed; cleanup may detach Works''"

lemma applyPlan_ready:
  assumes ok: "\<And>i. i < length works \<Longrightarrow> inOrder L m works ws i"
    and len: "length ws = length works" "length (mig_Works m) = length works"
    and pairs: "\<And>i. i < length works \<Longrightarrow> ref_Standalone (mig_Works m ! i) \<Longrightarrow> pairReady L works ws uids i"
    and phase: "mig_Phase m \<noteq> ''Ready''"
  shows "exec (applyPlan L d m works)
     (workReads m ws @ [(StatusPatchCall (MigrationObj m) (MigrationObj (readyMigration m uids)), Object (MigrationObj x))])
     (Ok (d, None))"
proof -
  let ?s = "receiptState m works ws uids"
  have loop: "exec (syncWorks L [0..<length works] (startState m works)) (workReads m ws) (Ok (Some (?s 0)))"
    using syncWorks_observe [OF ok len, of 0] by (simp add: observedState_start receiptState_start [OF len, of uids])
  have refs: "length (mig_Works (sy_m (?s 0))) = length (mig_Works m)" by (simp add: receiptState_def receiptedRefs_def)
  have bind: "bindReceipts L [0..<length (mig_Works m)] (?s 0) = Some (?s (length (mig_Works m)))"
    using bindReceipts_ready [of m L works ws uids 0] ok pairs len by (simp add: inOrder_def)
  have final: "progressStatus (?s (length (mig_Works m))) = readyMigration m uids"
    by (simp add: progressStatus_def receiptState_def readyMigration_def)
  have "mig_Status m \<noteq> mig_Status (readyMigration m uids)"
    using phase by (auto simp: readyMigration_def withPhase_def dest: arg_cong [where f = mst_Phase])
  then show ?thesis
    unfolding applyPlan_def orReturn_def
    by (intro exec_tryI [OF loop]) (simp add: refs bind final exec_finishI exec_typed_callI)
qed

section \<open>Passes of the migration controller\<close>

lemma MigrationReconcile_follows:
  assumes "\<not> migrationDone m" and "exec (validateBinding L m md) gate (Ok ())"
    and "BuildWorks L m md = Ok works" "planHash L m md works = Ok hash"
    and "exec (followPlan L (delay poll) m hash works) tr y"
  shows "exec (MigrationReconcile L poll req)
     ((GetCall MigrationKind req, Object (MigrationObj m)) #
      (GetCall MetadataKind (mig_Namespace m, ms_MetadataRef (mig_Spec m)), Object (MetadataObj md)) # gate @ tr) y"
proof -
  have "exec (MigrationReconcile L poll req)
     ([(GetCall MigrationKind req, Object (MigrationObj m))] @
      [(GetCall MetadataKind (mig_Namespace m, ms_MetadataRef (mig_Spec m)), Object (MetadataObj md))] @ gate @ tr) y"
    unfolding MigrationReconcile_def orReturn_def Let_def
    by (rule exec_tryI, rule exec_typed_callI, simp only: assms(1) if_False,
        rule exec_tryI, rule exec_typed_callI, rule exec_tryI, rule assms(2)) (simp add: assms(3-5))
  then show ?thesis by simp
qed

text \<open>The first pass records the plan.\<close>

lemma pass_records:
  assumes "\<not> migrationDone m" and "exec (validateBinding L m md) gate (Ok ())"
    and "BuildWorks L m md = Ok works" "planHash L m md works = Ok hash" and "mig_Works m = []"
  shows "exec (MigrationReconcile L poll req)
     ((GetCall MigrationKind req, Object (MigrationObj m)) #
      (GetCall MetadataKind (mig_Namespace m, ms_MetadataRef (mig_Spec m)), Object (MetadataObj md)) # gate @
      [(StatusPatchCall (MigrationObj m) (MigrationObj (recordPlan m hash works)), Object (MigrationObj x))])
     (Ok (delay poll, None))"
  by (rule MigrationReconcile_follows [OF assms(1-4)])
    (simp only: followPlan_def assms(5) list.size refl if_True, rule exec_finishI, rule exec_typed_callI)

text \<open>A pass that finds every Work in order reaches \<open>Ready\<close>.\<close>

lemma pass_readies:
  assumes "\<not> migrationDone m" and "exec (validateBinding L m md) gate (Ok ())"
    and "BuildWorks L m md = Ok works" "planHash L m md works = Ok (mst_PlanHash (mig_Status m))"
    and "works \<noteq> []" "length (mig_Works m) = length works" "length ws = length works"
    and "\<And>i. i < length works \<Longrightarrow> inOrder L m works ws i"
    and "\<And>i. i < length works \<Longrightarrow> ref_Standalone (mig_Works m ! i) \<Longrightarrow> pairReady L works ws uids i"
  shows "exec (MigrationReconcile L poll req)
     ((GetCall MigrationKind req, Object (MigrationObj m)) #
      (GetCall MetadataKind (mig_Namespace m, ms_MetadataRef (mig_Spec m)), Object (MetadataObj md)) # gate @
      workReads m ws @ [(StatusPatchCall (MigrationObj m) (MigrationObj (readyMigration m uids)), Object (MigrationObj x))])
     (Ok (delay poll, None))"
proof -
  have "mig_Phase m \<noteq> ''Ready''" using assms(1) by (simp add: migrationDone_def)
  from applyPlan_ready [OF assms(8,7,6,9) this] assms show ?thesis
    by (intro MigrationReconcile_follows [OF assms(1-4)]) (simp add: followPlan_def)
qed


text \<open>A pass that finds no Work creates all of them.\<close>

definition freshRef :: "WorkReference \<Rightarrow> bool" where
  "freshRef ref \<longleftrightarrow> \<not> ref_Applied ref \<and> \<not> ref_Detached ref \<and> ref_RoutingWorkUID ref = [] \<and>
     ref_PVUID ref = [] \<and> ref_PVCUID ref = []"

definition creation :: "PVMigration \<Rightarrow> jobj list \<Rightarrow> jobj list \<Rightarrow> nat \<Rightarrow> trace" where
  "creation m works cs i =
     [(GetCall (UnstructuredKind WorkGVK) (refKey (mig_Works m ! i)), Failed (NotFound ''not found'')),
      (CreateCall (UnstructuredObj (works ! i)), Object (UnstructuredObj (cs ! i)))]"

definition createdState :: "PVMigration \<Rightarrow> jobj list \<Rightarrow> jobj list \<Rightarrow> nat \<Rightarrow> syncState" where
  "createdState m works cs k =
     \<lparr> sy_m = m, sy_works = take k cs @ drop k works, sy_all = (k = 0), sy_observed = fmempty \<rparr>"

lemma createdState_next:
  assumes "k < length works" "length cs = length works"
  shows "(createdState m works cs k)\<lparr> sy_all := False, sy_works := (sy_works (createdState m works cs k))[k := cs ! k] \<rparr> =
     createdState m works cs (Suc k)" "sy_works (createdState m works cs k) ! k = works ! k"
  using assms
  by (simp_all add: createdState_def list_update_append take_Suc_conv_app_nth nth_append Cons_nth_drop_Suc [symmetric])

lemma syncWorks_create:
  assumes "\<And>i. i < length works \<Longrightarrow> refMatches (mig_Works m ! i) (works ! i) \<and> freshRef (mig_Works m ! i)"
    and "length cs = length works" "k \<le> length works"
  shows "exec (syncWorks L [k..<length works] (createdState m works cs k))
     (concat (map (creation m works cs) [k..<length works])) (Ok (Some (createdState m works cs (length works))))"
  using assms(3)
proof (induction "length works - k" arbitrary: k)
  case (Suc n)
  then have k: "k < length works" by simp
  let ?s = "createdState m works cs k"
  have "exec (syncWork L k ?s)
     [(GetCall (UnstructuredKind WorkGVK) (refKey (mig_Works (sy_m ?s) ! k)), Failed (NotFound ''not found'')),
      (CreateCall (UnstructuredObj (sy_works ?s ! k)), Object (UnstructuredObj (cs ! k)))]
     (Ok (Some (?s\<lparr> sy_all := False, sy_works := (sy_works ?s)[k := cs ! k] \<rparr>)))"
    using assms(1) [OF k] createdState_next [OF k assms(2), of m]
    by (intro syncWork_creates) (simp_all add: freshRef_def, simp_all add: createdState_def)
  then have step: "exec (syncWork L k ?s) (creation m works cs k) (Ok (Some (createdState m works cs (Suc k))))"
    unfolding createdState_next [OF k assms(2)] by (simp add: creation_def createdState_def)
  have "exec (syncWorks L [Suc k..<length works] (createdState m works cs (Suc k)))
     (concat (map (creation m works cs) [Suc k..<length works])) (Ok (Some (createdState m works cs (length works))))"
    using Suc.hyps(2) k by (intro Suc.hyps(1)) simp_all
  from syncWorks_step [OF step this] k show ?case by (simp add: upt_conv_Cons)
qed simp

lemma bindReceipts_nothing:
  assumes "\<forall>i\<in>set is. i < length (mig_Works (sy_m s)) \<and> freshRef (mig_Works (sy_m s) ! i)"
    and "sy_observed s = fmempty" "\<not> sy_all s"
  shows "bindReceipts L is s = Some s"
  using assms
proof (induction "is")
  case (Cons i rest)
  let ?ref = "mig_Works (sy_m s) ! i"
  have "?ref\<lparr> ref_Applied := False, ref_PVUID := [], ref_PVCUID := [] \<rparr> = ?ref"
    using Cons.prems(1) by (cases ?ref) (simp add: freshRef_def)
  then have "updateRef i (\<lambda>r. r\<lparr> ref_Applied := False, ref_PVUID := [], ref_PVCUID := [] \<rparr>) (sy_m s) = sy_m s"
    by (simp add: updateRef_def)
  then have "bindReceipt L i s = Some s"
    using Cons.prems by (simp add: bindReceipt_def Let_def splitPairApplied_def)
  with Cons show ?case by simp
qed simp

definition waitingMigration :: "PVMigration \<Rightarrow> PVMigration" where
  "waitingMigration m = withPhase m ''Preparing'' ''Waiting for Applied Work and reflected Available/Bound PV''"

lemma pass_creates:
  assumes "\<not> migrationDone m" and "exec (validateBinding L m md) gate (Ok ())"
    and "BuildWorks L m md = Ok works" "planHash L m md works = Ok (mst_PlanHash (mig_Status m))"
    and "works \<noteq> []" "length (mig_Works m) = length works" "length cs = length works"
    and "\<And>i. i < length works \<Longrightarrow> refMatches (mig_Works m ! i) (works ! i) \<and> freshRef (mig_Works m ! i)"
    and "mst_Message (mig_Status m) \<noteq> ''Waiting for Applied Work and reflected Available/Bound PV''"
  shows "exec (MigrationReconcile L poll req)
     ((GetCall MigrationKind req, Object (MigrationObj m)) #
      (GetCall MetadataKind (mig_Namespace m, ms_MetadataRef (mig_Spec m)), Object (MetadataObj md)) # gate @
      concat (map (creation m works cs) [0..<length works]) @
      [(StatusPatchCall (MigrationObj m) (MigrationObj (waitingMigration m)), Object (MigrationObj x))])
     (Ok (delay poll, None))"
proof (rule MigrationReconcile_follows [OF assms(1-4)])
  let ?s = "createdState m works cs (length works)"
  have loop: "exec (syncWorks L [0..<length works] (startState m works))
      (concat (map (creation m works cs) [0..<length works])) (Ok (Some ?s))"
    using syncWorks_create [OF assms(8,7), of 0] by (simp add: startState_def createdState_def)
  have s: "sy_m ?s = m" "\<not> sy_all ?s" "sy_observed ?s = fmempty" using assms(5) by (simp_all add: createdState_def)
  then have bind: "bindReceipts L [0..<length (mig_Works m)] ?s = Some ?s"
    using assms(6,8) by (intro bindReceipts_nothing) auto
  have final: "progressStatus ?s = waitingMigration m" using s by (simp add: progressStatus_def waitingMigration_def)
  have "mig_Status m \<noteq> mig_Status (waitingMigration m)"
    using assms(9) by (auto simp: waitingMigration_def withPhase_def dest: arg_cong [where f = mst_Message])
  then have "exec (applyPlan L (delay poll) m works) (concat (map (creation m works cs) [0..<length works]) @
      [(StatusPatchCall (MigrationObj m) (MigrationObj (waitingMigration m)), Object (MigrationObj x))]) (Ok (delay poll, None))"
    unfolding applyPlan_def orReturn_def
    by (intro exec_tryI [OF loop]) (simp add: s(1) bind final exec_finishI exec_typed_callI)
  then show "exec (followPlan L (delay poll) m (mst_PlanHash (mig_Status m)) works)
      (concat (map (creation m works cs) [0..<length works]) @
      [(StatusPatchCall (MigrationObj m) (MigrationObj (waitingMigration m)), Object (MigrationObj x))]) (Ok (delay poll, None))"
    using assms(5,6) by (simp add: followPlan_def)
qed


section \<open>Passes of the cleanup controller\<close>

definition markDetached :: "WorkReference \<Rightarrow> WorkReference" where
  "markDetached ref = ref\<lparr> ref_Detached := True \<rparr>"

definition goneRead :: "WorkReference \<Rightarrow> api_call \<times> api_reply" where
  "goneRead ref = (GetCall (UnstructuredKind WorkGVK) (refKey ref), Failed (NotFound ''not found''))"

definition ownedRef :: "PVMigration \<Rightarrow> WorkReference \<Rightarrow> bool" where
  "ownedRef m ref \<longleftrightarrow> ref_Applied ref \<and> \<not> ref_Detached ref \<and> ref_Namespace ref = ''karmada-es-'' @ ms_TargetCluster (mig_Spec m)"

lemma detachWorks_step:
  assumes "exec (detachWork L i s) t1 (Ok s')" and "exec (detachWorks L is s') t2 y"
  shows "exec (detachWorks L (i # is) s) (t1 @ t2) y"
  using exec_andThenI [OF assms(1), of "detachWorks L is" t2 y] assms(2) by simp

lemma detachWork_gone:
  assumes "ownedRef (cl_m s) (mig_Works (cl_m s) ! i)"
  shows "exec (detachWork L i s) [goneRead (mig_Works (cl_m s) ! i)] (Ok (s\<lparr> cl_m := updateRef i markDetached (cl_m s) \<rparr>))"
proof -
  let ?ref = "mig_Works (cl_m s) ! i"
  have "exec (detachWork L i s) ([goneRead ?ref] @ []) (Ok (s\<lparr> cl_m := updateRef i (\<lambda>r. r\<lparr> ref_Detached := True \<rparr>) (cl_m s) \<rparr>))"
    unfolding detachWork_def Let_def goneRead_def
    by (rule exec_requireI) (use assms in \<open>simp add: ownedRef_def\<close>,
        use assms in \<open>simp only: ownedRef_def if_False\<close>, rule exec_requireI, simp, rule exec_tryI_Err,
        rule exec_typed_callI, simp)
  moreover have "(\<lambda>r. r\<lparr> ref_Detached := True \<rparr>) = markDetached" by (simp add: fun_eq_iff markDetached_def)
  ultimately show ?thesis by simp
qed

definition goneState :: "PVMigration \<Rightarrow> nat \<Rightarrow> cleanupState" where
  "goneState m k = \<lparr> cl_m = set_works (map markDetached (take k (mig_Works m)) @ drop k (mig_Works m)) m, cl_all = True \<rparr>"

lemma detachWorks_gone:
  assumes "\<And>i. i < length (mig_Works m) \<Longrightarrow> ownedRef m (mig_Works m ! i)" and "k \<le> length (mig_Works m)"
  shows "exec (detachWorks L [k..<length (mig_Works m)] (goneState m k)) (map goneRead (drop k (mig_Works m)))
     (Ok (goneState m (length (mig_Works m))))"
  using assms(2)
proof (induction "length (mig_Works m) - k" arbitrary: k)
  case (Suc n)
  then have k: "k < length (mig_Works m)" by simp
  let ?s = "goneState m k"
  have nth: "mig_Works (cl_m ?s) ! k = mig_Works m ! k" "mig_Spec (cl_m ?s) = mig_Spec m"
    using k by (simp_all add: goneState_def nth_append)
  have "?s\<lparr> cl_m := updateRef k markDetached (cl_m ?s) \<rparr> = goneState m (Suc k)"
    using k by (simp add: goneState_def updateRef_def nth_append list_update_append take_Suc_conv_app_nth
        Cons_nth_drop_Suc [symmetric])
  then have step: "exec (detachWork L k ?s) [goneRead (mig_Works m ! k)] (Ok (goneState m (Suc k)))"
    using detachWork_gone [of ?s k L] assms(1) [OF k] by (simp add: nth ownedRef_def)
  have "exec (detachWorks L [Suc k..<length (mig_Works m)] (goneState m (Suc k))) (map goneRead (drop (Suc k) (mig_Works m)))
     (Ok (goneState m (length (mig_Works m))))"
    using Suc.hyps(2) k by (intro Suc.hyps(1)) simp_all
  from detachWorks_step [OF step this] k show ?case by (simp add: upt_conv_Cons Cons_nth_drop_Suc [symmetric])
qed simp

text \<open>A pass that finds all Works gone completes the request.\<close>

definition completedMigration :: "PVMigration \<Rightarrow> PVMigration" where
  "completedMigration m = completedStatus \<lparr> cl_m = set_works (map markDetached (mig_Works m)) m, cl_all = True \<rparr>"

lemma CleanupReconcile_loop:
  assumes "currentReady m" and "exec (detachWorks L [0..<length (mig_Works m)] \<lparr> cl_m = m, cl_all = True \<rparr>) tr (Ok s)"
    and "exec (if mig_Status m \<noteq> mig_Status (completedStatus s)
            then finish (delay poll) (patchMigrationStatus m (completedStatus s)) else ret (delay poll, None)) tr' y"
  shows "exec (CleanupReconcile L poll req) ((GetCall MigrationKind req, Object (MigrationObj m)) # tr @ tr') y"
proof -
  have "exec (CleanupReconcile L poll req) ([(GetCall MigrationKind req, Object (MigrationObj m))] @ tr @ tr') y"
    unfolding CleanupReconcile_def orReturn_def Let_def
    by (rule exec_tryI, rule exec_typed_callI)
      (use assms(1) in \<open>simp add: currentReady_def exec_tryI [OF assms(2)] assms(3)\<close>)
  then show ?thesis by simp
qed

lemma pass_completes:
  assumes "currentReady m" and "\<And>i. i < length (mig_Works m) \<Longrightarrow> ownedRef m (mig_Works m ! i)"
  shows "exec (CleanupReconcile L poll req)
     ((GetCall MigrationKind req, Object (MigrationObj m)) # map goneRead (mig_Works m) @
      [(StatusPatchCall (MigrationObj m) (MigrationObj (completedMigration m)), Object (MigrationObj x))])
     (Ok (delay poll, None))"
proof (rule CleanupReconcile_loop [OF assms(1)])
  show "exec (detachWorks L [0..<length (mig_Works m)] \<lparr> cl_m = m, cl_all = True \<rparr>) (map goneRead (mig_Works m))
     (Ok (goneState m (length (mig_Works m))))"
    using detachWorks_gone [OF assms(2), of 0] by (simp add: goneState_def)
  have final: "completedStatus (goneState m (length (mig_Works m))) = completedMigration m"
    by (simp add: goneState_def completedMigration_def)
  have "mig_Status m \<noteq> mig_Status (completedMigration m)"
    using assms(1) by (auto simp: currentReady_def completedMigration_def completedStatus_def dest: arg_cong [where f = mst_Phase])
  then show "exec (if mig_Status m \<noteq> mig_Status (completedStatus (goneState m (length (mig_Works m))))
       then finish (delay poll) (patchMigrationStatus m (completedStatus (goneState m (length (mig_Works m)))))
       else ret (delay poll, None))
     [(StatusPatchCall (MigrationObj m) (MigrationObj (completedMigration m)), Object (MigrationObj x))] (Ok (delay poll, None))"
    by (simp add: final exec_finishI exec_typed_callI)
qed

text \<open>A pass that finds the Works as they were applied asks for their deletion.\<close>

definition needsPlan :: "WorkReference \<Rightarrow> bool" where
  "needsPlan ref \<longleftrightarrow> ref_RoutingWorkUID ref \<noteq> [] \<or> ref_Standalone ref"

definition deletion :: "PVMigration \<Rightarrow> PVMetadata \<Rightarrow> jobj list \<Rightarrow> nat \<Rightarrow> trace" where
  "deletion m md ws i =
     [workRead (mig_Works m ! i) (ws ! i)] @
     (if needsPlan (mig_Works m ! i)
      then [(GetCall MetadataKind (mig_Namespace m, ms_MetadataRef (mig_Spec m)), Object (MetadataObj md))] else []) @
     [(DeleteCall (UnstructuredObj (ws ! i)) (GetUID (ws ! i)) (GetResourceVersion (ws ! i)), Done)]"

lemma detachWork_deletes:
  assumes "deletable L m (mig_Works m ! i) (ws ! i)"
    and "needsPlan (mig_Works m ! i) \<Longrightarrow> planStillMatches L m md (mig_Works m ! i) (ws ! i) = Ok ()"
  shows "exec (detachWork L i \<lparr> cl_m = m, cl_all = b \<rparr>) (deletion m md ws i) (Ok \<lparr> cl_m = m, cl_all = False \<rparr>)"
proof -
  let ?ref = "mig_Works m ! i" and ?w = "ws ! i"
  let ?del = "[(DeleteCall (UnstructuredObj ?w) (GetUID ?w) (GetResourceVersion ?w), Done)]"
  let ?plan = "if needsPlan ?ref
      then [(GetCall MetadataKind (mig_Namespace m, ms_MetadataRef (mig_Spec m)), Object (MetadataObj md))] else []"
  have del: "exec (andThen (deleteWork ?w) (\<lambda>_. ret s)) ?del (Ok s)" for s :: cleanupState
  proof -
    have "exec (deleteWork ?w) (?del @ []) (Ok ())"
      unfolding deleteWork_def by (rule exec_tryI, rule exec_typed_callI) simp
    from exec_andThenI [OF this, of "\<lambda>_. ret s" "[]"] show ?thesis by simp
  qed
  have plan: "exec (if ref_RoutingWorkUID ?ref \<noteq> [] \<or> ref_Standalone ?ref
       then andThen (getMetadata (mig_Namespace m, ms_MetadataRef (mig_Spec m)))
              (\<lambda>md. Return (planStillMatches L m md ?ref ?w)) else ret ()) ?plan (Ok ())"
  proof (cases "needsPlan ?ref")
    case True
    have "exec (andThen (getMetadata (mig_Namespace m, ms_MetadataRef (mig_Spec m)))
              (\<lambda>md. Return (planStillMatches L m md ?ref ?w)))
        ([(GetCall MetadataKind (mig_Namespace m, ms_MetadataRef (mig_Spec m)), Object (MetadataObj md))] @ []) (Ok ())"
      by (rule exec_andThenI, rule exec_typed_callI) (simp add: assms(2) [OF True])
    with True show ?thesis by (simp add: needsPlan_def)
  qed (simp add: needsPlan_def)
  have found: "exec (detachFound L i ?w \<lparr> cl_m = m, cl_all = b \<rparr>) (?plan @ ?del) (Ok \<lparr> cl_m = m, cl_all = False \<rparr>)"
    unfolding detachFound_def
    using assms(1) exec_andThenI [OF plan, of "\<lambda>_. andThen (deleteWork ?w) (\<lambda>_. ret \<lparr> cl_m = m, cl_all = False \<rparr>)"] del
    by (simp add: deletable_def GetDeletionTimestamp_IsZero require_def Let_def)
  have "exec (detachWork L i \<lparr> cl_m = m, cl_all = b \<rparr>) ([workRead ?ref ?w] @ ?plan @ ?del) (Ok \<lparr> cl_m = m, cl_all = False \<rparr>)"
    unfolding detachWork_def Let_def workRead_def
    using assms(1) by (simp only: deletable_def cleanupState.simps require_def if_True if_False not_not simp_thms)
      (rule exec_tryI, rule exec_typed_callI, rule found)
  then show ?thesis by (simp add: deletion_def)
qed

lemma pass_deletes:
  assumes "currentReady m"
    and "\<And>i. i < length (mig_Works m) \<Longrightarrow> deletable L m (mig_Works m ! i) (ws ! i)"
    and "\<And>i. i < length (mig_Works m) \<Longrightarrow> needsPlan (mig_Works m ! i) \<Longrightarrow>
       planStillMatches L m md (mig_Works m ! i) (ws ! i) = Ok ()"
  shows "exec (CleanupReconcile L poll req)
     ((GetCall MigrationKind req, Object (MigrationObj m)) # concat (map (deletion m md ws) [0..<length (mig_Works m)]))
     (Ok (delay poll, None))"
proof -
  have loop: "exec (detachWorks L is \<lparr> cl_m = m, cl_all = b \<rparr>) (concat (map (deletion m md ws) is))
      (Ok \<lparr> cl_m = m, cl_all = (b \<and> is = []) \<rparr>)" if "\<forall>i\<in>set is. i < length (mig_Works m)" for "is" b
    using that
  proof (induction "is" arbitrary: b)
    case (Cons i rest)
    then have "exec (detachWork L i \<lparr> cl_m = m, cl_all = b \<rparr>) (deletion m md ws i) (Ok \<lparr> cl_m = m, cl_all = False \<rparr>)"
      by (intro detachWork_deletes assms(2,3)) simp_all
    moreover have "exec (detachWorks L rest \<lparr> cl_m = m, cl_all = False \<rparr>) (concat (map (deletion m md ws) rest))
        (Ok \<lparr> cl_m = m, cl_all = False \<rparr>)" using Cons.IH [of False] Cons.prems by simp
    ultimately show ?case using detachWorks_step by simp
  qed simp
  have "\<not> (True \<and> [0..<length (mig_Works m)] = [])" using assms(1) by (simp add: currentReady_def)
  then have "exec (CleanupReconcile L poll req)
     ((GetCall MigrationKind req, Object (MigrationObj m)) #
        concat (map (deletion m md ws) [0..<length (mig_Works m)]) @ []) (Ok (delay poll, None))"
    by (intro CleanupReconcile_loop [OF assms(1) loop]) (simp_all add: completedStatus_def)
  then show ?thesis by simp
qed

end
