(* ===== verification/PlanResults.thy ===== *)
theory PlanResults
  imports ScenarioGate
begin

text \<open>
  The properties of the plan: which claims count as standalone, which Works \<open>BuildWorks\<close> plans
  for a request and what they carry, and what the plan hash depends on.
\<close>

section \<open>The Works of a plan\<close>

lemma planned_names:
  assumes "mappingWorks L m md v mapping = Ok ws"
  shows "map GetName ws = (if vm_Standalone v then [volumeName L m md mapping, volumeName L m md mapping @ ''-pvc'']
     else [volumeName L m md mapping])"
  using assms
proof (rule mappingWorks_Ok)
  fix k
  let ?p = "volumeName L m md mapping"
  assume one: "\<not> vm_Standalone v \<Longrightarrow> ws = [plannedWork m v ?p 0 (fmdrop ''status'' k)]"
    and two: "vm_Standalone v \<Longrightarrow> \<exists>claim. standaloneClaim L m v ?p = Ok claim \<and>
       ws = [plannedWork m v ?p 0 (fmdrop ''status'' k), plannedWork m v ?p 1 claim]"
  show ?thesis
  proof (cases "vm_Standalone v")
    case True
    with two show ?thesis by (auto simp: plannedWork_reads workName_def)
  next
    case False
    with one show ?thesis by (simp add: plannedWork_reads workName_def)
  qed
qed

text \<open>
  C12: A plan covers the request one to one: it is made from the one usable snapshot of the
  source cluster, no source and no target claim is mapped twice, and the Works are, in the
  order of the mappings, one volume Work per mapping and one more claim Work for a
  standalone volume.
\<close>

theorem plan_covers_mappings:
  assumes "BuildWorks L m md = Ok works"
  shows "\<exists>s wss. filter (\<lambda>c. cs_ClusterName c = ms_SourceCluster (mig_Spec m)) (mdst_Clusters (md_Status md)) = [s] \<and>
     cs_CollectedAt s \<noteq> None \<and> cs_ObservedGeneration s = om_Generation (md_meta md) \<and> cs_WorkloadUID s \<noteq> [] \<and>
     ms_Volumes (mig_Spec m) \<noteq> [] \<and>
     distinct (map vmap_SourcePVC (ms_Volumes (mig_Spec m))) \<and> distinct (map vmap_TargetPVC (ms_Volumes (mig_Spec m))) \<and>
     works = concat wss \<and>
     list_all2 (\<lambda>mapping ws. \<exists>v. snapshotVolume s (vmap_SourcePVC mapping) = Some v \<and>
        map GetName ws = (if vm_Standalone v then [volumeName L m md mapping, volumeName L m md mapping @ ''-pvc'']
          else [volumeName L m md mapping])) (ms_Volumes (mig_Spec m)) wss"
proof -
  obtain s volumes wss where facts: "planSnapshot m md s" "\<And>n. fmlookup volumes n = snapshotVolume s n"
    "works = concat wss" "list_all2 (plannedMapping L m md volumes) (ms_Volumes (mig_Spec m)) wss"
    "distinct (map vmap_SourcePVC (ms_Volumes (mig_Spec m)))" "distinct (map vmap_TargetPVC (ms_Volumes (mig_Spec m)))"
    "ms_Volumes (mig_Spec m) \<noteq> []"
    by (rule BuildWorks_Ok [OF assms]) blast
  have "list_all2 (\<lambda>mapping ws. \<exists>v. snapshotVolume s (vmap_SourcePVC mapping) = Some v \<and>
        map GetName ws = (if vm_Standalone v then [volumeName L m md mapping, volumeName L m md mapping @ ''-pvc'']
          else [volumeName L m md mapping])) (ms_Volumes (mig_Spec m)) wss"
    by (rule list_all2_mono [OF facts(4)]) (use planned_names in \<open>fastforce simp: plannedMapping_def facts(2)\<close>)
  with facts show ?thesis
    by (intro exI [of _ s] exI [of _ wss]) (auto simp: planSnapshot_def snapshotUsable_def)
qed

theorem plan_covers_mappings_witness:
  "\<exists>s wss. filter (\<lambda>c. cs_ClusterName c = ms_SourceCluster (mig_Spec demoMigration)) (mdst_Clusters (md_Status demoMetadata)) = [s] \<and>
     cs_CollectedAt s \<noteq> None \<and> cs_ObservedGeneration s = om_Generation (md_meta demoMetadata) \<and> cs_WorkloadUID s \<noteq> [] \<and>
     ms_Volumes (mig_Spec demoMigration) \<noteq> [] \<and>
     distinct (map vmap_SourcePVC (ms_Volumes (mig_Spec demoMigration))) \<and>
     distinct (map vmap_TargetPVC (ms_Volumes (mig_Spec demoMigration))) \<and>
     demoWorks = concat wss \<and>
     list_all2 (\<lambda>mapping ws. \<exists>v. snapshotVolume s (vmap_SourcePVC mapping) = Some v \<and>
        map GetName ws = (if vm_Standalone v
          then [volumeName demoLibraries demoMigration demoMetadata mapping, volumeName demoLibraries demoMigration demoMetadata mapping @ ''-pvc'']
          else [volumeName demoLibraries demoMigration demoMetadata mapping])) (ms_Volumes (mig_Spec demoMigration)) wss"
  by (rule plan_covers_mappings [OF demo_build])

text \<open>What may leave the source cluster: a volume, and the claim of a standalone volume.\<close>

definition safeVolume :: "PVMigration \<Rightarrow> VolumeMapping \<Rightarrow> VolumeMetadata \<Rightarrow> PersistentVolume \<Rightarrow> bool" where
  "safeVolume m mapping v pv \<longleftrightarrow>
     pvsp_ReclaimPolicy (pv_Spec pv) = ''Retain'' \<and> pvsp_NodeAffinity (pv_Spec pv) = None \<and>
     pvsp_ClaimRef (pv_Spec pv) = Some \<lparr> or_APIVersion = ''v1'', or_Kind = ''PersistentVolumeClaim'',
       or_Namespace = mig_Namespace m, or_Name = vmap_TargetPVC mapping, or_UID = [], or_others = fmempty \<rparr> \<and>
     (\<exists>nfs. pvs_NFS (pvsp_Source (vm_PVSpec v)) = Some nfs \<and> nfs_Server nfs \<noteq> [] \<and> nfs_Path nfs \<noteq> [] \<and>
        pvsp_Source (pv_Spec pv) = \<lparr> pvs_NFS = Some nfs, pvs_others = fmempty \<rparr>) \<and>
     (\<exists>ref. pvsp_ClaimRef (vm_PVSpec v) = Some ref \<and> or_Namespace ref = mig_Namespace m \<and>
        or_Name ref = vm_PVCName v \<and> or_UID ref = vm_PVCUID v \<and> vm_PVCUID v \<noteq> [])"

definition safeClaim :: "PVMigration \<Rightarrow> VolumeMetadata \<Rightarrow> string \<Rightarrow> PersistentVolumeClaim \<Rightarrow> bool" where
  "safeClaim m v pvName pvc \<longleftrightarrow>
     om_Name (pvc_meta pvc) = vm_PVCName v \<and> om_Namespace (pvc_meta pvc) = mig_Namespace m \<and>
     pcs_VolumeName (pvc_Spec pvc) = pvName \<and>
     pcs_StorageClassName (pvc_Spec pvc) = Some (pvsp_StorageClassName (vm_PVSpec v)) \<and>
     pcs_Selector (pvc_Spec pvc) = None \<and> pcs_DataSource (pvc_Spec pvc) = None \<and>
     pcs_DataSourceRef (pvc_Spec pvc) = None \<and> pcs_VolumeAttributesClassName (pvc_Spec pvc) = None \<and>
     0 < quantityOf (pcs_Requests (pvc_Spec pvc)) ''storage'' \<and>
     quantityOf (pcs_Requests (pvc_Spec pvc)) ''storage'' \<le> quantityOf (pvsp_Capacity (vm_PVSpec v)) ''storage'' \<and>
     pcs_AccessModes (pvc_Spec pvc) \<noteq> [] \<and>
     set (pcs_AccessModes (pvc_Spec pvc)) \<subseteq> set (pvsp_AccessModes (vm_PVSpec v)) \<and>
     volumeMode (pcs_VolumeMode (pvc_Spec pvc)) = ''Filesystem''"

definition carries :: "jobj \<Rightarrow> jobj \<Rightarrow> bool" where
  "carries w manifest \<longleftrightarrow>
     sliceAt w manifestsPath = Some [JObj (setRoute (GetName w) (GetNamespace w) (fmdrop ''status'' manifest))]"

text \<open>
  C11: The volume leaves the source cluster only in a safe form.  Every planned Work carries
  one manifest: the encoding of a retained volume with the NFS source of the snapshot and no
  other, without node affinity, whose claim reference names the target claim and has no UID
  of the source cluster, where the source volume was bound to the very claim of the snapshot;
  or, for a standalone volume, the encoding of a claim that is pinned to that volume, asks for
  no more than its capacity and access modes, and can trigger no provisioning.
\<close>

theorem planned_resources_safe:
  assumes "BuildWorks L m md = Ok works" and "w \<in> set works"
  shows "\<exists>s mapping v. planSnapshot m md s \<and> mapping \<in> set (ms_Volumes (mig_Spec m)) \<and>
     snapshotVolume s (vmap_SourcePVC mapping) = Some v \<and>
     (GetName w = volumeName L m md mapping \<and>
        (\<exists>pv k. lib_PVToUnstructured L pv = Ok k \<and> carries w k \<and> om_Name (pv_meta pv) = GetName w \<and> safeVolume m mapping v pv) \<or>
      GetName w = volumeName L m md mapping @ ''-pvc'' \<and> vm_Standalone v \<and>
        (\<exists>pvc k. lib_PVCToUnstructured L pvc = Ok k \<and> carries w k \<and> safeClaim m v (volumeName L m md mapping) pvc))"
  using assms
proof (rule BuildWorks_work)
  fix s mapping v spec k
  let ?p = "volumeName L m md mapping"
  assume facts: "planSnapshot m md s" "mapping \<in> set (ms_Volumes (mig_Spec m))"
    "snapshotVolume s (vmap_SourcePVC mapping) = Some v"
    and spec: "retainedSpec m v mapping = Ok spec" and k: "lib_PVToUnstructured L (targetVolume m spec ?p) = Ok k"
    and w: "w = plannedWork m v ?p 0 (fmdrop ''status'' k) \<or>
     vm_Standalone v \<and> (\<exists>claim. standaloneClaim L m v ?p = Ok claim \<and> w = plannedWork m v ?p 1 claim)"
  have volume: "safeVolume m mapping v (targetVolume m spec ?p)"
    using spec by (rule retainedSpec_Ok) (simp add: safeVolume_def targetVolume_def)
  have claim: "\<exists>pvc k. lib_PVCToUnstructured L pvc = Ok k \<and> claim = fmdrop ''status'' k \<and> safeClaim m v ?p pvc"
    if "standaloneClaim L m v ?p = Ok claim" for claim
    using that
  proof (rule standaloneClaim_Ok)
    fix cs k
    assume "lib_PVCToUnstructured L (targetClaim m v cs (pvsp_StorageClassName (vm_PVSpec v)) ?p) = Ok k"
      and "claim = fmdrop ''status'' k"
      and "pcs_Selector cs = None" "pcs_DataSource cs = None" "pcs_DataSourceRef cs = None"
        "pcs_VolumeAttributesClassName cs = None" "0 < quantityOf (pcs_Requests cs) ''storage''"
        "quantityOf (pcs_Requests cs) ''storage'' \<le> quantityOf (pvsp_Capacity (vm_PVSpec v)) ''storage''"
        "pcs_AccessModes cs \<noteq> []" "set (pcs_AccessModes cs) \<subseteq> set (pvsp_AccessModes (vm_PVSpec v))"
        "volumeMode (pcs_VolumeMode cs) = ''Filesystem''"
    moreover from this have "safeClaim m v ?p (targetClaim m v cs (pvsp_StorageClassName (vm_PVSpec v)) ?p)"
      by (simp add: safeClaim_def targetClaim_def)
    ultimately show ?thesis by blast
  qed
  from w show ?thesis
  proof
    assume "w = plannedWork m v ?p 0 (fmdrop ''status'' k)"
    with facts k volume show ?thesis
      by (intro exI [of _ s] exI [of _ mapping] exI [of _ v])
        (auto simp: carries_def plannedWork_reads workName_def targetVolume_def intro!: disjI1 exI)
  next
    assume "vm_Standalone v \<and> (\<exists>claim. standaloneClaim L m v ?p = Ok claim \<and> w = plannedWork m v ?p 1 claim)"
    then obtain pvc kc where "vm_Standalone v" "w = plannedWork m v ?p 1 (fmdrop ''status'' kc)"
      "lib_PVCToUnstructured L pvc = Ok kc" "safeClaim m v ?p pvc" using claim by blast
    with facts show ?thesis
      by (intro exI [of _ s] exI [of _ mapping] exI [of _ v])
        (auto simp: carries_def plannedWork_reads workName_def)
  qed
qed

theorem planned_resources_safe_witness:
  "\<exists>s mapping v. planSnapshot demoMigration demoMetadata s \<and> mapping \<in> set (ms_Volumes (mig_Spec demoMigration)) \<and>
     snapshotVolume s (vmap_SourcePVC mapping) = Some v \<and>
     (GetName (demoWorks ! 2) = volumeName demoLibraries demoMigration demoMetadata mapping \<and>
        (\<exists>pv k. lib_PVToUnstructured demoLibraries pv = Ok k \<and> carries (demoWorks ! 2) k \<and>
           om_Name (pv_meta pv) = GetName (demoWorks ! 2) \<and> safeVolume demoMigration mapping v pv) \<or>
      GetName (demoWorks ! 2) = volumeName demoLibraries demoMigration demoMetadata mapping @ ''-pvc'' \<and> vm_Standalone v \<and>
        (\<exists>pvc k. lib_PVCToUnstructured demoLibraries pvc = Ok k \<and> carries (demoWorks ! 2) k \<and>
           safeClaim demoMigration v (volumeName demoLibraries demoMigration demoMetadata mapping) pvc))"
  by (rule planned_resources_safe [OF demo_build]) (simp add: demoWorks_def)

text \<open>
  C40: Every planned Work restores one mapping of the request: it lies in the execution namespace of
  the target cluster, is labelled with the UID of the request and the manager, keeps its
  resources when it is deleted, and is new.  It is the volume Work of the mapping or, only for a
  standalone volume, its claim Work; both Works of a standalone volume carry the name of the
  volume Work as the pair label, and no other Work carries a pair label.
\<close>

theorem planned_work_shape:
  assumes "BuildWorks L m md = Ok works" and "w \<in> set works"
  shows "GetNamespace w = ''karmada-es-'' @ ms_TargetCluster (mig_Spec m) \<and>
     sget (GetLabels w) OwnerLabel = mig_UID m \<and> sget (GetLabels w) ManagedLabel = ManagerName \<and>
     boolAt w [''spec'', ''preserveResourcesOnDeletion''] \<and> GetGeneration w = 0 \<and>
     (\<exists>mapping\<in>set (ms_Volumes (mig_Spec m)). \<exists>s v.
        s \<in> set (mdst_Clusters (md_Status md)) \<and> cs_ClusterName s = ms_SourceCluster (mig_Spec m) \<and>
        v \<in> set (cs_Volumes s) \<and> vm_PVCName v = vmap_SourcePVC mapping \<and>
        (GetName w = volumeName L m md mapping \<or> vm_Standalone v \<and> GetName w = volumeName L m md mapping @ ''-pvc'') \<and>
        volumeName L m md mapping \<noteq> [] \<and>
        sget (GetLabels w) standalonePairLabel = (if vm_Standalone v then volumeName L m md mapping else []))"
proof -
  from assms obtain s mapping v i r where snap: "planSnapshot m md s" "mapping \<in> set (ms_Volumes (mig_Spec m))"
    "snapshotVolume s (vmap_SourcePVC mapping) = Some v"
    and w: "w = plannedWork m v (volumeName L m md mapping) i r" and i: "i = 0 \<or> i = 1 \<and> vm_Standalone v"
    by (rule BuildWorks_work) blast
  have s: "s \<in> set (mdst_Clusters (md_Status md))" "cs_ClusterName s = ms_SourceCluster (mig_Spec m)"
  proof -
    have "s \<in> set (filter (\<lambda>c. cs_ClusterName c = ms_SourceCluster (mig_Spec m)) (mdst_Clusters (md_Status md)))"
      using snap(1) by (simp add: planSnapshot_def)
    then show "s \<in> set (mdst_Clusters (md_Status md))" "cs_ClusterName s = ms_SourceCluster (mig_Spec m)" by simp_all
  qed
  have v: "v \<in> set (cs_Volumes s)" "vm_PVCName v = vmap_SourcePVC mapping"
    using snap(1,3) snapshotVolume_Some_iff [of s] by (simp_all add: planSnapshot_def)
  have name: "volumeName L m md mapping \<noteq> []"
    by simp
  have here: "GetName w = volumeName L m md mapping \<or> vm_Standalone v \<and> GetName w = volumeName L m md mapping @ ''-pvc''"
    "sget (GetLabels w) standalonePairLabel = (if vm_Standalone v then volumeName L m md mapping else [])"
    using i by (auto simp: w plannedWork_reads workLabels_reads workName_def)
  show ?thesis
    using s v name here snap(2)
    by (intro conjI bexI [of _ mapping] exI [of _ s] exI [of _ v]; simp add: w plannedWork_reads workLabels_reads executionNamespace_def)
qed

theorem planned_work_shape_witness:
  "GetNamespace (demoWorks ! 1) = ''karmada-es-'' @ ms_TargetCluster (mig_Spec demoMigration) \<and>
     (\<exists>mapping\<in>set (ms_Volumes (mig_Spec demoMigration)).
        sget (GetLabels (demoWorks ! 1)) standalonePairLabel \<in> {volumeName demoLibraries demoMigration demoMetadata mapping, []})"
proof -
  have "demoWorks ! 1 \<in> set demoWorks" by (simp add: demoWorks_def)
  from planned_work_shape [OF demo_build this] show ?thesis
    by (elim conjE bexE exE) (rule conjI, assumption, rule rev_bexI, assumption, simp)
qed

section \<open>Names\<close>

text \<open>
  The name of a planned volume identifies what is restored: as long as the truncated digest
  does not collide on the two encodings, two requests plan one name only for the same
  workload, target cluster, namespace and target claim.
\<close>

lemma volume_names_identify:
  assumes "no_collision L {volumeParts m md mapping, volumeParts m' md' mapping'}"
  shows "volumeName L m md mapping = volumeName L m' md' mapping' \<longleftrightarrow>
     wr_UID (mds_WorkloadRef (md_Spec md)) = wr_UID (mds_WorkloadRef (md_Spec md')) \<and>
     ms_TargetCluster (mig_Spec m) = ms_TargetCluster (mig_Spec m') \<and>
     mig_Namespace m = mig_Namespace m' \<and> vmap_TargetPVC mapping = vmap_TargetPVC mapping'"
  using stableName_eq_iff [OF assms] by (simp add: volumeName_def volumeParts_def)

lemma demo_no_collision:
  "no_collision demoLibraries (volumeParts demoMigration demoMetadata ` {demoDataMapping, demoCkptMapping})"
proof -
  let ?digest = "\<lambda>mapping. take 24 (hexEncode (padDigest (netstrings (volumeParts demoMigration demoMetadata mapping))))"
  have "?digest demoDataMapping \<noteq> ?digest demoCkptMapping" by code_simp
  then show ?thesis by (auto simp: no_collision_def inj_on_def nameDigest_def)
qed

text \<open>
  The Works of one plan have different names, so no Work overwrites another, when the
  digest has its 32 bytes and does not collide on the volumes of the request.
\<close>

lemma planned_names_distinct:
  assumes "BuildWorks L m md = Ok works"
    and "no_collision L (volumeParts m md ` set (ms_Volumes (mig_Spec m)))" and "\<And>s. length (lib_Sum256 L s) = 32"
  shows "distinct (map GetName works)"
proof -
  let ?names = "\<lambda>mapping ws. \<exists>b. map GetName ws = (if b then [volumeName L m md mapping, volumeName L m md mapping @ ''-pvc'']
          else [volumeName L m md mapping])"
  obtain volumes wss where facts: "works = concat wss" "list_all2 (plannedMapping L m md volumes) (ms_Volumes (mig_Spec m)) wss"
    "distinct (map vmap_TargetPVC (ms_Volumes (mig_Spec m)))"
    by (rule BuildWorks_Ok [OF assms(1)]) blast
  have all: "list_all2 ?names (ms_Volumes (mig_Spec m)) wss"
    by (rule list_all2_mono [OF facts(2)]) (use planned_names in \<open>fastforce simp: plannedMapping_def\<close>)
  have len: "length (volumeName L m md mapping) = 28" for mapping
    using assms(3) length_stableName by (simp add: volumeName_def)
  have inj: "volumeName L m md mapping = volumeName L m md mapping' \<longleftrightarrow> vmap_TargetPVC mapping = vmap_TargetPVC mapping'"
    if "mapping \<in> set (ms_Volumes (mig_Spec m))" "mapping' \<in> set (ms_Volumes (mig_Spec m))" for mapping mapping'
  proof -
    have "volumeParts m md mapping \<in> volumeParts m md ` set (ms_Volumes (mig_Spec m))"
      "volumeParts m md mapping' \<in> volumeParts m md ` set (ms_Volumes (mig_Spec m))"
      using that by blast+
    from stableName_eq_iff [OF assms(2) this] show ?thesis by (simp add: volumeName_def volumeParts_def)
  qed
  have suffix: "volumeName L m md mapping @ ''-pvc'' \<noteq> volumeName L m md mapping'"
    "volumeName L m md mapping \<noteq> volumeName L m md mapping' @ ''-pvc''" for mapping mapping'
    using len [of mapping] len [of mapping'] by (auto dest!: arg_cong [where f = length])
  have "distinct (map GetName (concat wss)) \<and>
      set (map GetName (concat wss)) \<subseteq> (\<Union>mapping\<in>set mappings. {volumeName L m md mapping, volumeName L m md mapping @ ''-pvc''})"
    if "list_all2 ?names mappings wss" "distinct (map vmap_TargetPVC mappings)" "set mappings \<subseteq> set (ms_Volumes (mig_Spec m))"
    for mappings wss
    using that
  proof (induction rule: list_all2_induct)
    case Nil
    show ?case by simp
  next
    case (Cons mapping mappings ws wss)
    then have IH: "distinct (map GetName (concat wss))"
      "set (map GetName (concat wss)) \<subseteq> (\<Union>mapping\<in>set mappings. {volumeName L m md mapping, volumeName L m md mapping @ ''-pvc''})"
      by auto
    have here: "distinct (map GetName ws)" "set (map GetName ws) \<subseteq> {volumeName L m md mapping, volumeName L m md mapping @ ''-pvc''}"
      using Cons.hyps(1) by (auto split: if_splits)
    have other: "volumeName L m md mapping \<noteq> volumeName L m md mapping'" if "mapping' \<in> set mappings" for mapping'
      using inj [of mapping mapping'] that Cons.prems by auto
    have "x \<notin> set (map GetName (concat wss))" if "x \<in> set (map GetName ws)" for x
    proof
      assume "x \<in> set (map GetName (concat wss))"
      with IH(2) have "x \<in> (\<Union>mapping\<in>set mappings. {volumeName L m md mapping, volumeName L m md mapping @ ''-pvc''})"
        by (rule subsetD)
      then obtain mapping' where "mapping' \<in> set mappings"
        "x = volumeName L m md mapping' \<or> x = volumeName L m md mapping' @ ''-pvc''" by blast
      moreover from here(2) that have "x = volumeName L m md mapping \<or> x = volumeName L m md mapping @ ''-pvc''"
        by blast
      ultimately show False using other [of mapping'] suffix [of mapping mapping'] by (elim disjE) simp_all
    qed
    then have "set (map GetName ws) \<inter> set (map GetName (concat wss)) = {}" by blast
    with IH(1) here(1) have "distinct (map GetName ws @ map GetName (concat wss))" by simp
    moreover have "set (map GetName ws @ map GetName (concat wss)) \<subseteq>
        (\<Union>mp\<in>set (mapping # mappings). {volumeName L m md mp, volumeName L m md mp @ ''-pvc''})"
      unfolding set_append using here(2) IH(2) by (simp only: list.set UN_insert) blast
    ultimately show ?case by simp
  qed
  from this [OF all facts(3)] facts(1) show ?thesis by simp
qed

text \<open>
  One target ordinal comes from one source ordinal: two mappings of template volumes that
  go to the same ordinal take their data from volumes of one source ordinal.
\<close>

lemma ordinals_stay_together:
  assumes "BuildWorks L m md = Ok works" and "planSnapshot m md s"
    and "mapping \<in> set (ms_Volumes (mig_Spec m))" "mapping' \<in> set (ms_Volumes (mig_Spec m))"
    and "snapshotVolume s (vmap_SourcePVC mapping) = Some v" "snapshotVolume s (vmap_SourcePVC mapping') = Some v'"
    and "\<not> vm_Standalone v" "\<not> vm_Standalone v'"
    and "vmap_TargetPVC mapping = vm_TemplateName v @ ''-'' @ wr_Name (mds_WorkloadRef (md_Spec md)) @ ''-'' @ ordinal"
    and "vmap_TargetPVC mapping' = vm_TemplateName v' @ ''-'' @ wr_Name (mds_WorkloadRef (md_Spec md)) @ ''-'' @ ordinal"
  shows "vm_Ordinal v = vm_Ordinal v'"
proof -
  obtain s' volumes f where facts: "planSnapshot m md s'" "\<And>n. fmlookup volumes n = snapshotVolume s' n"
    "coherentOrdinals md volumes (ms_Volumes (mig_Spec m)) f"
    by (rule BuildWorks_Ok [OF assms(1)]) blast
  have "s' = s" using facts(1) assms(2) by (simp add: planSnapshot_def)
  with facts(2,3) have at: "\<not> vm_Standalone u \<Longrightarrow> f (targetOrdinalOf md mp u) = vm_Ordinal u"
    if "mp \<in> set (ms_Volumes (mig_Spec m))" "snapshotVolume s (vmap_SourcePVC mp) = Some u" for mp u
    using that by (simp add: coherentOrdinals_def)
  have "targetOrdinalOf md mp u = ordinal" if "vmap_TargetPVC mp = claimPrefix md u @ ordinal" for mp u
    unfolding targetOrdinalOf_def that by (rule TrimPrefix_append)
  then have "targetOrdinalOf md mapping v = ordinal" "targetOrdinalOf md mapping' v' = ordinal"
    using assms(9,10) by (simp_all add: claimPrefix_def)
  with at [OF assms(3,5,7)] at [OF assms(4,6,8)] show ?thesis by simp
qed

end
