(* ===== verification/HashResults.thy ===== *)
theory HashResults
  imports ScenarioGate
begin

text \<open>
  The properties of the plan hash and of the claim list: the hash depends on the identities and
  on the Work specs, not on polling and not on routing; planning never panics; the standalone
  claims of a workload are a function of the workload alone.
\<close>

section \<open>Planning never panics\<close>

lemma workParts_planned: "BuildWorks L m md = Ok works \<Longrightarrow> \<exists>ps. workParts works = Some ps"
proof -
  assume build: "BuildWorks L m md = Ok works"
  have "removeWorkRouting w \<noteq> None" if "w \<in> set works" for w
  proof -
    from build that obtain mapping v i r where "w = plannedWork m v (volumeName L m md mapping) i r"
      by (rule BuildWorks_work) blast
    then show ?thesis by (simp add: removeWorkRouting_def overManifests_def plannedWork_reads)
  qed
  then have "\<exists>ps. workParts ws = Some ps" if "set ws \<subseteq> set works" for ws
    using that by (induction ws) force+
  then show ?thesis by blast
qed

context documented_libraries
begin

lemma plan_no_panic: "BuildWorks L m md \<noteq> Panic"
  by (rule BuildWorks_no_panic_libs) (rule pv_no_panic pvc_no_panic)+

lemma hash_no_panic: "BuildWorks L m md = Ok works \<Longrightarrow> planHash L m md works \<noteq> Panic"
  using workParts_planned [of L m md works] marshal_no_panic
  by (auto simp: planHash_def go_bind_Panic_iff)

end

text \<open>
  Planning and hashing never panic, whatever the request and the metadata object contain,
  as long as the libraries do not: the dereference of the claim spec and the assertion on
  each manifest are always reached with a value.
\<close>

lemma planning_never_panics:
  assumes "documented_libraries L"
  shows "BuildWorks L m md \<noteq> Panic \<and> (\<forall>works. BuildWorks L m md = Ok works \<longrightarrow> planHash L m md works \<noteq> Panic)"
  using documented_libraries.plan_no_panic [OF assms] documented_libraries.hash_no_panic [OF assms] by blast

section \<open>What the hash depends on\<close>

text \<open>A later poll of a member: the same snapshot with another time, readiness and message.\<close>

definition repolled :: "ClusterSnapshot \<Rightarrow> ClusterSnapshot \<Rightarrow> bool" where
  "repolled s s' \<longleftrightarrow> (cs_CollectedAt s' = None \<longleftrightarrow> cs_CollectedAt s = None) \<and>
     s' = s\<lparr> cs_CollectedAt := cs_CollectedAt s', cs_Ready := cs_Ready s', cs_Message := cs_Message s' \<rparr>"

definition repolledMetadata :: "PVMetadata \<Rightarrow> PVMetadata \<Rightarrow> bool" where
  "repolledMetadata md md' \<longleftrightarrow>
     md_Spec md' = md_Spec md \<and> om_Generation (md_meta md') = om_Generation (md_meta md) \<and>
     list_all2 repolled (mdst_Clusters (md_Status md)) (mdst_Clusters (md_Status md'))"

lemma repolled_fields:
  assumes "repolled s s'"
  shows "cs_ClusterName s' = cs_ClusterName s" "cs_ObservedGeneration s' = cs_ObservedGeneration s"
    "cs_WorkloadUID s' = cs_WorkloadUID s" "cs_Volumes s' = cs_Volumes s"
    "cs_CollectedAt s' = None \<longleftrightarrow> cs_CollectedAt s = None"
proof -
  from assms have "s' = s\<lparr> cs_CollectedAt := cs_CollectedAt s', cs_Ready := cs_Ready s', cs_Message := cs_Message s' \<rparr>"
    by (simp add: repolled_def)
  then obtain a b c where "s' = s\<lparr> cs_CollectedAt := a, cs_Ready := b, cs_Message := c \<rparr>" by blast
  then show "cs_ClusterName s' = cs_ClusterName s" "cs_ObservedGeneration s' = cs_ObservedGeneration s"
    "cs_WorkloadUID s' = cs_WorkloadUID s" "cs_Volumes s' = cs_Volumes s" by simp_all
qed (use assms in \<open>simp add: repolled_def\<close>)

lemma findSnapshot_repolled:
  assumes "list_all2 repolled cs cs'" and "rel_option repolled found found'"
  shows "rel_go (rel_option repolled) (findSnapshot src cs found) (findSnapshot src cs' found')"
  using assms
proof (induction arbitrary: found found' rule: list_all2_induct)
  case (Cons c cs c' cs')
  have "found = None \<longleftrightarrow> found' = None" using Cons.prems by (cases rule: option.rel_cases) auto
  with Cons.hyps(1) Cons.IH [of found found'] Cons.IH [of "Some c" "Some c'"] Cons.prems show ?case
    by (simp add: repolled_fields fail_def)
qed simp

lemma snapshotParts_repolled: "repolled s s' \<Longrightarrow> snapshotParts m s' = snapshotParts m s"
  by (simp add: snapshotParts_def repolled_fields)

lemma volumeName_metadata: "md_Spec md' = md_Spec md \<Longrightarrow> volumeName L m md' mapping = volumeName L m md mapping"
  by (simp add: volumeName_def volumeParts_def)

lemma buildMappings_metadata:
  assumes "md_Spec md' = md_Spec md"
  shows "buildMappings L m md' volumes mappings acc ws = buildMappings L m md volumes mappings acc ws"
proof -
  have prefix: "claimPrefix md' v = claimPrefix md v" for v unfolding claimPrefix_def assms by (rule refl)
  have check: "checkMapping L md' vs mp ac = checkMapping L md vs mp ac" for vs mp ac
    unfolding checkMapping_def prefix by (rule refl)
  have works: "mappingWorks L m md' v mp = mappingWorks L m md v mp" for v mp
    unfolding mappingWorks_def volumeName_metadata [OF assms] by (rule refl)
  show ?thesis by (induction mappings arbitrary: acc ws) (simp_all only: buildMappings.simps check works)
qed

lemma BuildWorks_repolled:
  assumes "repolledMetadata md md'"
  shows "BuildWorks L m md' = BuildWorks L m md"
proof -
  let ?find = "\<lambda>md. findSnapshot (ms_SourceCluster (mig_Spec m)) (mdst_Clusters (md_Status md)) None"
  have build: "buildMappings L m md' = buildMappings L m md"
    by (intro ext buildMappings_metadata) (use assms in \<open>simp add: repolledMetadata_def\<close>)
  have usable: "snapshotUsable md' s' = snapshotUsable md s" if "repolled s s'" for s s'
    using assms that by (simp add: snapshotUsable_def repolled_fields repolledMetadata_def)
  have "rel_go (rel_option repolled) (?find md) (?find md')"
    by (rule findSnapshot_repolled) (use assms in \<open>simp_all add: repolledMetadata_def\<close>)
  then show ?thesis
  proof (cases rule: go.rel_cases)
    case (Ok r r')
    from Ok(3) show ?thesis
      by (cases rule: option.rel_cases) (simp_all add: BuildWorks_def Ok(1,2) build usable repolled_fields)
  qed (simp_all add: BuildWorks_def)
qed

lemma identityParts_repolled:
  assumes "repolledMetadata md md'"
  shows "identityParts m md' = identityParts m md"
proof -
  have "map (snapshotParts m) (mdst_Clusters (md_Status md')) = map (snapshotParts m) (mdst_Clusters (md_Status md))"
    using assms by (auto simp: repolledMetadata_def list_eq_iff_nth_eq list_all2_conv_all_nth snapshotParts_repolled)
  then show ?thesis by (simp add: identityParts_def)
qed

text \<open>
  Polling does not disturb a started plan: when a later collection changes only times,
  readiness and messages of the snapshots, the Works and the plan hash stay the same.
\<close>

lemma polling_keeps_plan:
  assumes "repolledMetadata md md'"
  shows "BuildWorks L m md' = BuildWorks L m md \<and> planHash L m md' works = planHash L m md works"
proof -
  from identityParts_repolled [OF assms] have "planHash L m md' works = planHash L m md works"
    by (rule planHash_cong) (rule refl)
  with BuildWorks_repolled [OF assms] show ?thesis by blast
qed

definition demoLater :: PVMetadata where
  "demoLater = demoMetadata\<lparr> md_Status := emptyMetadataStatus\<lparr> mdst_Clusters :=
     [demoSnapshot\<lparr> cs_CollectedAt := Some 99, cs_Ready := False, cs_Message := ''poll'' \<rparr>] \<rparr> \<rparr>"

lemma demo_repolled: "repolledMetadata demoMetadata demoLater"
  by (simp add: repolledMetadata_def repolled_def demoLater_def demo_defs)

lemma removeWorkRouting_twice:
  assumes "sliceAt w manifestsPath = Some (map JObj objs)" and "removeWorkRouting w = Some w'"
  shows "removeWorkRouting w' = removeWorkRouting w"
proof -
  have "removeWorkRouting w' = Some (setSlice (Some (map (JObj \<circ> removeRoute \<circ> removeRoute) objs)) manifestsPath w)"
    using overManifests_twice [OF assms(1) assms(2) [unfolded removeWorkRouting_def]]
    by (simp add: removeWorkRouting_def)
  moreover have "map (JObj \<circ> removeRoute \<circ> removeRoute) objs = map (JObj \<circ> removeRoute) objs"
    by (simp add: removeRoute_idem)
  ultimately show ?thesis
    using overManifests_Some [OF assms(1), of removeRoute] by (simp add: removeWorkRouting_def)
qed

text \<open>
  The hash does not see routing: the Works without their routing annotations, as a version
  without routing persisted them, have the hash of the planned Works, so a plan recorded then
  is still followed.
\<close>

lemma hash_ignores_routing:
  assumes "BuildWorks L m md = Ok works" and "list_all2 (\<lambda>w legacy. removeWorkRouting w = Some legacy) works legacies"
  shows "planHash L m md legacies = planHash L m md works"
proof -
  have "removeWorkRouting legacy = removeWorkRouting w" if "w \<in> set works" "removeWorkRouting w = Some legacy" for w legacy
  proof -
    from assms(1) that(1) obtain mapping v i r where "w = plannedWork m v (volumeName L m md mapping) i r"
      by (rule BuildWorks_work) blast
    then have "\<exists>objs. sliceAt w manifestsPath = Some (map JObj objs)"
      by (auto simp: plannedWork_reads intro: exI [of _ "[setRoute x y r]" for x y])
    with that(2) removeWorkRouting_twice show ?thesis by blast
  qed
  with assms(2) have "list_all2 (\<lambda>legacy w. removeWorkRouting legacy = removeWorkRouting w) legacies works"
    unfolding list_all2_conv_all_nth by (metis nth_mem)
  from workParts_cong [OF this] show ?thesis by (intro planHash_cong) simp_all
qed

definition planDigest :: "libraries \<Rightarrow> json list \<Rightarrow> string go" where
  "planDigest L parts = go_bind (lib_Marshal L parts) (\<lambda>data. Ok (hexEncode (lib_Sum256 L data)))"

text \<open>
  C17: The hash binds the identities: when one hash belongs to the plans of a request from two
  states of its metadata object, and the encoder and the digest do not confuse the two inputs,
  then workload UID, the UID and the volume of every mapped claim, and every Work spec without
  routing are the same.
\<close>

theorem hash_binds_identities:
  assumes "BuildWorks L m md = Ok works" and "BuildWorks L m md' = Ok works'"
    and "planHash L m md works = Ok h" "planHash L m md' works' = Ok h"
    and "workParts works = Some ps" "workParts works' = Some ps'"
    and "inj_on (planDigest L) {identityParts m md @ ps, identityParts m md' @ ps'}"
    and "planSnapshot m md s" "planSnapshot m md' s'"
  shows "cs_WorkloadUID s' = cs_WorkloadUID s \<and> ps' = ps \<and>
     (\<forall>mapping\<in>set (ms_Volumes (mig_Spec m)). \<exists>v v'.
        snapshotVolume s (vmap_SourcePVC mapping) = Some v \<and> snapshotVolume s' (vmap_SourcePVC mapping) = Some v' \<and>
        vm_PVCUID v' = vm_PVCUID v \<and> vm_PVName v' = vm_PVName v)"
proof -
  have found: "\<forall>mapping\<in>set (ms_Volumes (mig_Spec m)). snapshotVolume t (vmap_SourcePVC mapping) \<noteq> None"
    if build: "BuildWorks L m d = Ok ws" and snap: "planSnapshot m d t" for d ws t
  proof -
    obtain t' volumes wss where t': "planSnapshot m d t'" "\<And>n. fmlookup volumes n = snapshotVolume t' n"
      "list_all2 (plannedMapping L m d volumes) (ms_Volumes (mig_Spec m)) wss"
      by (rule BuildWorks_Ok [OF build]) blast
    have "t' = t" using t'(1) snap by (simp add: planSnapshot_def)
    with t'(2,3) show ?thesis
      by (fastforce simp: plannedMapping_def in_set_conv_nth list_all2_conv_all_nth)
  qed
  have "planDigest L (identityParts m md @ ps) = planDigest L (identityParts m md' @ ps')"
    using assms(3-6) by (simp add: planHash_def planDigest_def)
  with assms(7) have eq: "identityParts m md @ ps = identityParts m md' @ ps'" unfolding inj_on_def by blast
  let ?ids = "\<lambda>t. map (\<lambda>mapping. volumeIdentity (the (snapshotVolume t (vmap_SourcePVC mapping)))) (ms_Volumes (mig_Spec m))"
  have parts: "identityParts m md = JStr (cs_WorkloadUID s) # ?ids s" "identityParts m md' = JStr (cs_WorkloadUID s') # ?ids s'"
    using identityParts_planned [OF assms(8) found [OF assms(1,8)]] identityParts_planned [OF assms(9) found [OF assms(2,9)]]
    by simp_all
  with eq have uid: "cs_WorkloadUID s' = cs_WorkloadUID s" and ids: "?ids s = ?ids s'" and "ps = ps'"
    by simp_all
  moreover have "\<exists>v v'. snapshotVolume s (vmap_SourcePVC mapping) = Some v \<and> snapshotVolume s' (vmap_SourcePVC mapping) = Some v' \<and>
        vm_PVCUID v' = vm_PVCUID v \<and> vm_PVName v' = vm_PVName v" if "mapping \<in> set (ms_Volumes (mig_Spec m))" for mapping
  proof -
    from found [OF assms(1,8)] found [OF assms(2,9)] that obtain v v' where
      "snapshotVolume s (vmap_SourcePVC mapping) = Some v" "snapshotVolume s' (vmap_SourcePVC mapping) = Some v'" by blast
    moreover from ids that have "volumeIdentity (the (snapshotVolume s (vmap_SourcePVC mapping))) =
        volumeIdentity (the (snapshotVolume s' (vmap_SourcePVC mapping)))" by (simp add: map_eq_conv)
    ultimately show ?thesis by (simp add: volumeIdentity_def)
  qed
  ultimately show ?thesis by blast
qed

theorem hash_binds_identities_witness:
  "cs_WorkloadUID (demoSnapshot\<lparr> cs_CollectedAt := Some 99, cs_Ready := False, cs_Message := ''poll'' \<rparr>) = cs_WorkloadUID demoSnapshot"
proof -
  let ?later = "demoSnapshot\<lparr> cs_CollectedAt := Some 99, cs_Ready := False, cs_Message := ''poll'' \<rparr>"
  obtain ps where ps: "workParts demoWorks = Some ps" using workParts_planned [OF demo_build] by blast
  have build: "BuildWorks demoLibraries demoMigration demoLater = Ok demoWorks"
    and same: "identityParts demoMigration demoLater = identityParts demoMigration demoMetadata"
    using BuildWorks_repolled [OF demo_repolled] demo_build identityParts_repolled [OF demo_repolled] by simp_all
  from ps obtain h where h: "planHash demoLibraries demoMigration demoMetadata demoWorks = Ok h"
    by (simp add: planHash_def)
  then have h': "planHash demoLibraries demoMigration demoLater demoWorks = Ok h"
    by (simp add: planHash_def same)
  have "planSnapshot demoMigration demoMetadata demoSnapshot" "planSnapshot demoMigration demoLater ?later"
    by (simp_all add: planSnapshot_def snapshotUsable_def demoLater_def demo_defs)
  from hash_binds_identities [OF demo_build build h h' ps ps _ this] show ?thesis by (simp add: same)
qed

section \<open>Standalone claims\<close>

text \<open>
  C39: The standalone claims of a workload are the claims its pod template names outside the
  claim templates, and the checkpoint annotation, less the claims the templates generate; the
  list is sorted, without duplicates, and independent of the order of map iteration.
\<close>

theorem standalone_claims:
  assumes "\<And>ks. mset (lib_RangeOrder L ks) = mset ks"
  shows "sorted (Standalone L sts) \<and> distinct (Standalone L sts) \<and>
     set (Standalone L sts) =
       {c. c \<noteq> [] \<and> ((\<exists>v\<in>set (sts_Volumes sts). vol_Name v \<notin> set (sts_VolumeClaimTemplates sts) \<and> vol_ClaimName v = Some c) \<or>
                     sget (sts_TemplateAnnotations sts) ''fluidcr.dcnlab.com/checkpoint-claim'' = c)} -
       {t @ ''-'' @ om_Name (sts_meta sts) @ ''-'' @ showInt (sint (stsStart sts) + k) | t k.
          t \<in> set (sts_VolumeClaimTemplates sts) \<and> 0 \<le> k \<and> k < sint (stsReplicas sts)}"
proof -
  obtain cs where cs: "distinct cs" "set cs = referencedClaims sts - templateClaims sts" "Standalone L sts = sort cs"
    using Standalone_unsorted [of L sts] assms by blast
  then have "sorted (Standalone L sts)" "distinct (Standalone L sts)" "set (Standalone L sts) = referencedClaims sts - templateClaims sts"
    by simp_all
  moreover have "templateClaims sts = {t @ ''-'' @ om_Name (sts_meta sts) @ ''-'' @ showInt (sint (stsStart sts) + k) | t k.
      t \<in> set (sts_VolumeClaimTemplates sts) \<and> 0 \<le> k \<and> k < sint (stsReplicas sts)}"
    by (auto simp: templateClaims_def claimName_def)
  ultimately show ?thesis by (simp add: referencedClaims_def checkpointClaimAnnotation_def)
qed

theorem standalone_claims_witness:
  "sorted (Standalone referenceLibraries demoWorkload) \<and> distinct (Standalone referenceLibraries demoWorkload)"
  using standalone_claims [OF reference.range_order, of demoWorkload] by blast

end
