(* ===== verification/ScenarioRuns.thy ===== *)
theory ScenarioRuns
  imports EvidenceResults MigrationRuns PlanResults HashResults
begin

text \<open>
  The whole life of the request of the scenario as four passes of the two controllers: the plan
  is recorded, the Works are created, the Works are found in order and the request becomes
  \<open>Ready\<close>, their deletion is asked for, and the request completes once they are gone.
\<close>

section \<open>Names\<close>

lemma demo_names_differ: "demoDataName \<noteq> demoCkptName"
  unfolding demoName_def volumeName_def
  by (subst stableName_eq_iff [OF demo_no_collision]) (auto simp: demoDataMapping_def demoCkptMapping_def volumeParts_def)

lemma demo_lengths: "length demoDataName = length demoCkptName"
  by (simp add: demoName_def volumeName_def length_stableName padDigest_def)

lemma demo_suffix_differs: "demoCkptName @ ''-pvc'' \<noteq> demoDataName"
  using demo_lengths by (auto dest: arg_cong [where f = length])

section \<open>The recorded plan\<close>

definition demoHash :: string where
  "demoHash = (case planHash demoLibraries demoMigration demoMetadata demoWorks of Ok h \<Rightarrow> h)"

lemma demo_hash: "planHash demoLibraries demoMigration demoMetadata demoWorks = Ok demoHash"
proof -
  obtain ps where "workParts demoWorks = Some ps" using workParts_planned [OF demo_build] by blast
  then show ?thesis by (simp add: demoHash_def planHash_def)
qed

text \<open>A later state of the request of the scenario: the plan is recorded.\<close>

definition demoPlanned :: "PVMigration \<Rightarrow> bool" where
  "demoPlanned m \<longleftrightarrow> mig_meta m = mig_meta demoMigration \<and> mig_Spec m = demoSpec \<and> mst_PlanHash (mig_Status m) = demoHash"

lemma demo_spec: "mig_Spec demoMigration = demoSpec" by (simp add: demoMigration_def)

lemma demo_planned_build:
  assumes "demoPlanned m"
  shows "BuildWorks demoLibraries m demoMetadata = Ok demoWorks"
    "planHash demoLibraries m demoMetadata demoWorks = Ok (mst_PlanHash (mig_Status m))"
proof -
  from assms show "BuildWorks demoLibraries m demoMetadata = Ok demoWorks"
    using BuildWorks_request_cong [of m demoMigration] demo_build by (simp add: demoPlanned_def demo_spec)
  have spec: "mig_Spec m = mig_Spec demoMigration" using assms by (simp add: demoPlanned_def demo_spec)
  have "identityParts m demoMetadata = identityParts demoMigration demoMetadata"
    unfolding identityParts_def snapshotParts_def spec by (rule refl)
  from planHash_cong [OF this refl] assms demo_hash
  show "planHash demoLibraries m demoMetadata demoWorks = Ok (mst_PlanHash (mig_Status m))" by (simp add: demoPlanned_def)
qed

definition demoReq :: namespaced_name where
  "demoReq = (''n'', ''m'')"

definition demoGateReads :: trace where
  "demoGateReads = gateReads demoMigration demoBinding demoWorkload [demoMigration]"

lemma demo_gate_passes:
  assumes "mig_Spec m = demoSpec" "mig_meta m = mig_meta demoMigration"
  shows "exec (validateBinding demoLibraries m demoMetadata) demoGateReads (Ok ())"
proof -
  have "exec (validateBinding demoLibraries m demoMetadata) (gateReads m demoBinding demoWorkload [demoMigration]) (Ok ())"
    using assms by (intro demo_gate demo_peers) (simp_all add: demo_defs)
  moreover have "gateReads m = gateReads demoMigration" using assms by (simp add: gateReads_def fun_eq_iff demo_spec)
  ultimately show ?thesis by (simp add: demoGateReads_def)
qed

definition demoRecorded :: PVMigration where
  "demoRecorded = recordPlan demoMigration demoHash demoWorks"

lemma demoRecorded_reads:
  "demoPlanned demoRecorded" "mig_Works demoRecorded = map workReference demoWorks" "mig_Phase demoRecorded = ''Preparing''"
  "\<not> migrationDone demoRecorded" "mst_Message (mig_Status demoRecorded) = ''PV Work identities recorded''"
  by (simp_all add: demoPlanned_def demoRecorded_def recordPlan_def withPhase_def demo_spec migrationDone_def)
    (simp_all add: demo_defs emptyMeta_def IsZero_def)

text \<open>The head of every pass over the request in the state \<open>m\<close>.\<close>

definition demoHead :: "PVMigration \<Rightarrow> trace" where
  "demoHead m = [(GetCall MigrationKind demoReq, Object (MigrationObj m)),
     (GetCall MetadataKind (mig_Namespace m, ms_MetadataRef (mig_Spec m)), Object (MetadataObj demoMetadata))] @ demoGateReads"

definition demoRecordRun :: trace where
  "demoRecordRun = demoHead demoMigration @
     [(StatusPatchCall (MigrationObj demoMigration) (MigrationObj demoRecorded), Object (MigrationObj demoRecorded))]"

lemma demo_not_done: "\<not> migrationDone demoMigration"
  by (simp add: migrationDone_def demo_defs emptyMeta_def IsZero_def)

lemma demo_record: "exec (MigrationReconcile demoLibraries 0 demoReq) demoRecordRun (Ok (delay 0, None))"
  using pass_records [OF demo_not_done demo_gate_passes [OF demo_spec refl] demo_build demo_hash, of 0 demoReq demoRecorded]
  by (simp add: demoRecordRun_def demoHead_def demoRecorded_def demo_defs)

section \<open>The creation\<close>

lemma demo_refs:
  assumes "i < 3"
  shows "refMatches (workReference (demoWorks ! i)) (demoWorks ! i)" "freshRef (workReference (demoWorks ! i))"
  by (simp_all add: refMatches_def freshRef_def workReference_def)

lemma demoWorks_length: "length demoWorks = 3" "length demoServed = 3" "demoWorks \<noteq> []"
  by (simp_all add: demoWorks_eq demoServed_def)

lemma demo_recorded_gate: "exec (validateBinding demoLibraries demoRecorded demoMetadata) demoGateReads (Ok ())"
  using demoRecorded_reads(1) by (intro demo_gate_passes) (simp_all add: demoPlanned_def)

definition demoCreateRun :: trace where
  "demoCreateRun = demoHead demoRecorded @ concat (map (creation demoRecorded demoWorks demoWorks) [0..<3]) @
     [(StatusPatchCall (MigrationObj demoRecorded) (MigrationObj (waitingMigration demoRecorded)), Object (MigrationObj demoRecorded))]"

lemma demo_create: "exec (MigrationReconcile demoLibraries 0 demoReq) demoCreateRun (Ok (delay 0, None))"
proof -
  have "exec (MigrationReconcile demoLibraries 0 demoReq)
     ((GetCall MigrationKind demoReq, Object (MigrationObj demoRecorded)) #
      (GetCall MetadataKind (mig_Namespace demoRecorded, ms_MetadataRef (mig_Spec demoRecorded)), Object (MetadataObj demoMetadata)) #
      demoGateReads @ concat (map (creation demoRecorded demoWorks demoWorks) [0..<length demoWorks]) @
      [(StatusPatchCall (MigrationObj demoRecorded) (MigrationObj (waitingMigration demoRecorded)), Object (MigrationObj demoRecorded))])
     (Ok (delay 0, None))"
    by (rule pass_creates [OF demoRecorded_reads(4) demo_recorded_gate demo_planned_build [OF demoRecorded_reads(1)]])
      (simp_all add: demoRecorded_reads demoWorks_length demo_refs)
  then show ?thesis by (simp add: demoCreateRun_def demoHead_def demoWorks_length)
qed


section \<open>The application\<close>

lemma demo_generation_allowed:
  assumes "i < 3" and "\<forall>ref\<in>set (mig_Works m). ref_RoutingWorkUID ref = []"
  shows "workGenerationAllowed (demoServed ! i) m"
proof -
  have "generationAllowed refs w" if "GetGeneration w \<le> 1" "\<forall>ref\<in>set refs. ref_RoutingWorkUID ref = []" for refs w
    using that by (induction refs) auto
  with assms demoServed_reads(2) show ?thesis by (simp add: workGenerationAllowed_def)
qed

definition demoUIDs :: "nat \<Rightarrow> string \<times> string" where
  "demoUIDs i = (''pvuid'', ''pvcuid'')"

lemma demo_observed:
  "fmlookup (observedMap demoServed) demoCkptName = Some (demoServed ! 1)"
  "fmlookup (observedMap demoServed) (demoCkptName @ ''-pvc'') = Some (demoServed ! 2)"
proof -
  have served: "demoServed = [demoServed ! 0, demoServed ! 1, demoServed ! 2]" by (simp add: demoServed_def)
  have "observedMap demoServed = fmupd (GetName (demoServed ! 2)) (demoServed ! 2)
      (fmupd (GetName (demoServed ! 1)) (demoServed ! 1) (fmupd (GetName (demoServed ! 0)) (demoServed ! 0) fmempty))"
    unfolding observedMap_def by (subst served) simp
  then show "fmlookup (observedMap demoServed) demoCkptName = Some (demoServed ! 1)"
    "fmlookup (observedMap demoServed) (demoCkptName @ ''-pvc'') = Some (demoServed ! 2)"
    by (simp_all only: demoServed_names) (simp_all add: demo_suffix_differs)
qed

lemma demo_pair_ready:
  assumes "i < 3" "i \<noteq> 0" shows "pairReady demoLibraries demoWorks demoServed demoUIDs i"
proof -
  from assms have "pairNameOf (demoWorks ! i) = demoCkptName"
    by (auto simp: demoWorks_eq numeral_3_eq_3 less_Suc_eq plannedWork_reads workLabels_reads, simp_all add: demo_defs)
  then show ?thesis by (simp add: pairReady_def demo_observed [simplified] demo_paired [simplified] demoUIDs_def)
qed

lemma demo_in_order:
  assumes "i < 3" and "mig_Works m = map workReference demoWorks" "mig_UID m = ''u''"
  shows "inOrder demoLibraries m demoWorks demoServed i"
proof -
  have ref: "mig_Works m ! i = workReference (demoWorks ! i)" using assms by (simp add: demoWorks_length)
  have "workGenerationAllowed (demoServed ! i) m"
    by (rule demo_generation_allowed [OF assms(1)]) (simp add: assms(2) workReference_def)
  then have "validateWork (demoServed ! i) (demoWorks ! i) m = None" using demo_validated assms(1,3) by blast
  with ref demo_refs [OF assms(1)] demo_applied [OF assms(1)] demoServed_reads(3) [OF assms(1)]
  show ?thesis by (simp add: inOrder_def freshRef_def)
qed

definition demoReady :: PVMigration where
  "demoReady = readyMigration demoRecorded demoUIDs"

definition demoReadyRun :: trace where
  "demoReadyRun = demoHead demoRecorded @ workReads demoRecorded demoServed @
     [(StatusPatchCall (MigrationObj demoRecorded) (MigrationObj demoReady), Object (MigrationObj demoReady))]"

lemma demo_recorded_in_order: "i < 3 \<Longrightarrow> inOrder demoLibraries demoRecorded demoWorks demoServed i"
  using demo_in_order demoRecorded_reads(1,2) by (simp add: demoPlanned_def demo_defs)

lemma demo_recorded_pairs:
  assumes "i < 3" "ref_Standalone (mig_Works demoRecorded ! i)"
  shows "pairReady demoLibraries demoWorks demoServed demoUIDs i"
proof -
  have "\<not> ref_Standalone (mig_Works demoRecorded ! 0)"
    by (simp add: demoRecorded_reads workReference_def demoWorks_eq standaloneWork_def plannedWork_reads workLabels_reads)
      (simp add: demo_defs)
  with assms demo_pair_ready show ?thesis by (cases "i = 0") simp_all
qed

lemma demo_ready: "exec (MigrationReconcile demoLibraries 0 demoReq) demoReadyRun (Ok (delay 0, None))"
proof -
  have "exec (MigrationReconcile demoLibraries 0 demoReq)
     ((GetCall MigrationKind demoReq, Object (MigrationObj demoRecorded)) #
      (GetCall MetadataKind (mig_Namespace demoRecorded, ms_MetadataRef (mig_Spec demoRecorded)), Object (MetadataObj demoMetadata)) #
      demoGateReads @ workReads demoRecorded demoServed @
      [(StatusPatchCall (MigrationObj demoRecorded) (MigrationObj (readyMigration demoRecorded demoUIDs)), Object (MigrationObj demoReady))])
     (Ok (delay 0, None))"
    by (rule pass_readies [OF demoRecorded_reads(4) demo_recorded_gate demo_planned_build [OF demoRecorded_reads(1)]])
      (simp_all only: demoWorks_length demoRecorded_reads(2) length_map demo_recorded_in_order
         demo_recorded_pairs [unfolded demoRecorded_reads(2)] not_False_eq_True)
  then show ?thesis by (simp add: demoReadyRun_def demoHead_def demoReady_def)
qed

section \<open>The cleanup\<close>

lemma demoReady_reads:
  "demoPlanned demoReady" "mig_Phase demoReady = ''Ready''" "length (mig_Works demoReady) = 3"
  "i < 3 \<Longrightarrow> mig_Works demoReady ! i = receipted demoUIDs i (workReference (demoWorks ! i))"
  using demoRecorded_reads(1)
  by (simp_all add: demoReady_def readyMigration_def withPhase_def demoPlanned_def demoRecorded_reads receiptedRefs_def demoWorks_length)

lemma demoReady_current: "currentReady demoReady"
proof -
  have "om_DeletionTimestamp (mig_meta demoReady) = None" "mig_Works demoReady \<noteq> []"
    using demoReady_reads(1,3) by (auto simp: demoPlanned_def demo_defs emptyMeta_def)
  moreover have "mst_ObservedGeneration (mig_Status demoReady) = om_Generation (mig_meta demoReady)"
    by (simp add: demoReady_def readyMigration_def withPhase_def)
  ultimately show ?thesis using demoReady_reads(2) by (simp add: currentReady_def IsZero_def)
qed

lemma demoReady_refs:
  assumes "i < 3"
  shows "ref_Applied (mig_Works demoReady ! i)" "\<not> ref_Detached (mig_Works demoReady ! i)"
    "ref_Namespace (mig_Works demoReady ! i) = ''karmada-es-b''" "ref_RoutingWorkUID (mig_Works demoReady ! i) = []"
    "ref_Standalone (mig_Works demoReady ! i) \<longleftrightarrow> i \<noteq> 0"
    "i \<noteq> 0 \<Longrightarrow> ref_PVUID (mig_Works demoReady ! i) = ''pvuid'' \<and> ref_PVCUID (mig_Works demoReady ! i) = ''pvcuid''"
proof -
  from assms consider "i = 0" | "i = 1" | "i = 2" by linarith
  then have facts: "GetNamespace (demoWorks ! i) = ''karmada-es-b''" "standaloneWork (demoWorks ! i) \<longleftrightarrow> i \<noteq> 0"
    by (cases; simp add: demoWorks_eq plannedWork_reads demo_execution standaloneWork_def workLabels_reads; simp add: demo_defs)+
  show "ref_Applied (mig_Works demoReady ! i)" "\<not> ref_Detached (mig_Works demoReady ! i)"
    "ref_Namespace (mig_Works demoReady ! i) = ''karmada-es-b''" "ref_RoutingWorkUID (mig_Works demoReady ! i) = []"
    "ref_Standalone (mig_Works demoReady ! i) \<longleftrightarrow> i \<noteq> 0"
    "i \<noteq> 0 \<Longrightarrow> ref_PVUID (mig_Works demoReady ! i) = ''pvuid'' \<and> ref_PVCUID (mig_Works demoReady ! i) = ''pvcuid''"
    using demoReady_reads(4) [OF assms] facts
    by (auto simp: receipted_def markApplied_def workReference_def demoUIDs_def)
qed

lemma demo_ready_uid: "mig_UID demoReady = ''u''" "ms_TargetCluster (mig_Spec demoReady) = ''b''"
  using demoReady_reads(1) by (simp_all add: demoPlanned_def demo_defs)

lemma demo_deletable:
  assumes "i < 3"
  shows "deletable demoLibraries demoReady (mig_Works demoReady ! i) (demoServed ! i)"
proof -
  have "\<forall>ref\<in>set (mig_Works demoReady). ref_RoutingWorkUID ref = []"
    using demoReady_refs(4) demoReady_reads(3) by (metis in_set_conv_nth)
  then have gen: "workGenerationAllowed (demoServed ! i) demoReady" by (rule demo_generation_allowed [OF assms])
  have "standaloneReceiptMatches demoLibraries (demoServed ! i) (mig_Works demoReady ! i)" if "i \<noteq> 0"
  proof -
    have "standaloneReceiptMatches demoLibraries (demoServed ! 1) (mig_Works demoReady ! i) \<and>
        standaloneReceiptMatches demoLibraries (demoServed ! 2) (mig_Works demoReady ! i)"
      using demoReady_refs(6) [OF assms that] by (intro receipts_match [OF demo_paired demo_volumeWork]) simp_all
    moreover have "i = 1 \<or> i = 2" using assms that by linarith
    ultimately show ?thesis by blast
  qed
  then show ?thesis
    unfolding deletable_def
    using demoReady_refs [OF assms] demoServed_reads [OF assms] demo_applied [OF assms] gen demo_ready_uid by simp
qed

lemma demoWorks_names:
  "map GetName demoWorks = [demoDataName, demoCkptName, demoCkptName @ ''-pvc'']"
  "w \<in> set demoWorks \<Longrightarrow> GetNamespace w = ''karmada-es-b''"
  by (auto simp: demoWorks_eq plannedWork_reads workName_def demo_execution)

lemma matchPlanned_other: "\<forall>e\<in>set works. GetName e \<noteq> GetName w \<Longrightarrow> matchPlanned m ref w works b = Ok b"
  by (induction works) auto

lemma matchPlanned_one:
  assumes "i < length works" "GetName (works ! i) = GetName w" "GetNamespace (works ! i) = GetNamespace w"
    and "distinct (map GetName works)" "ref_Standalone ref = standaloneWork (works ! i)" "validateWork w (works ! i) m = None"
  shows "matchPlanned m ref w works b = Ok True"
  using assms
proof (induction works arbitrary: i b)
  case (Cons e works)
  show ?case
  proof (cases i)
    case 0
    with Cons.prems(2,4) have "\<forall>e\<in>set works. GetName e \<noteq> GetName w" by (force simp: image_iff)
    with 0 Cons.prems show ?thesis by (simp add: matchPlanned_other)
  next
    case (Suc j)
    with Cons.prems(1,2,4) have "GetName e \<noteq> GetName w" by (metis distinct.simps(2) in_set_conv_nth length_Cons
        length_map list.simps(9) not_less_eq nth_Cons_Suc nth_map)
    with Suc Cons.prems Cons.IH [of j b] show ?thesis by simp
  qed
qed simp

lemma demo_served_same:
  assumes "i < 3"
  shows "GetName (demoServed ! i) = GetName (demoWorks ! i)" "GetNamespace (demoServed ! i) = GetNamespace (demoWorks ! i)"
proof -
  from assms consider "i = 0" | "i = 1" | "i = 2" by linarith
  then show "GetName (demoServed ! i) = GetName (demoWorks ! i)"
    by cases (simp_all only: demoServed_names, simp_all add: demoWorks_eq plannedWork_reads workName_def)
  show "GetNamespace (demoServed ! i) = GetNamespace (demoWorks ! i)"
    using assms demoServed_reads(1) demoWorks_names(2) by (simp add: demoWorks_length)
qed

lemma demo_distinct: "distinct (map GetName demoWorks)"
  using demo_names_differ demo_suffix_differs by (auto simp: demoWorks_names)

lemma demo_still_matches:
  assumes "i < 3"
  shows "planStillMatches demoLibraries demoReady demoMetadata (mig_Works demoReady ! i) (demoServed ! i) = Ok ()"
proof -
  note demo_distinct
  moreover note demo_served_same [OF assms, symmetric]
  moreover have "ref_Standalone (mig_Works demoReady ! i) = standaloneWork (demoWorks ! i)"
    using demoReady_reads(4) [OF assms] by (simp add: receipted_def markApplied_def workReference_def)
  moreover have "validateWork (demoServed ! i) (demoWorks ! i) demoReady = None"
  proof (rule demo_validated [OF assms])
    have "\<forall>ref\<in>set (mig_Works demoReady). ref_RoutingWorkUID ref = []"
      using demoReady_refs(4) demoReady_reads(3) by (metis in_set_conv_nth)
    then show "workGenerationAllowed (demoServed ! i) demoReady" by (rule demo_generation_allowed [OF assms])
  qed (rule demo_ready_uid)
  ultimately have "matchPlanned demoReady (mig_Works demoReady ! i) (demoServed ! i) demoWorks False = Ok True"
    using assms by (intro matchPlanned_one) (simp_all add: demoWorks_length)
  with demo_planned_build [OF demoReady_reads(1)] show ?thesis by (simp add: planStillMatches_def)
qed

definition demoDeleteRun :: trace where
  "demoDeleteRun = (GetCall MigrationKind demoReq, Object (MigrationObj demoReady)) #
     concat (map (deletion demoReady demoMetadata demoServed) [0..<3])"

lemma demo_delete: "exec (CleanupReconcile demoLibraries 0 demoReq) demoDeleteRun (Ok (delay 0, None))"
  using pass_deletes [OF demoReady_current, of demoLibraries demoServed demoMetadata 0 demoReq]
    demo_deletable demo_still_matches demoReady_reads(3)
  by (simp add: demoDeleteRun_def)

definition demoCompleteRun :: trace where
  "demoCompleteRun = (GetCall MigrationKind demoReq, Object (MigrationObj demoReady)) # map goneRead (mig_Works demoReady) @
     [(StatusPatchCall (MigrationObj demoReady) (MigrationObj (completedMigration demoReady)), Object (MigrationObj demoReady))]"

lemma demo_complete: "exec (CleanupReconcile demoLibraries 0 demoReq) demoCompleteRun (Ok (delay 0, None))"
  unfolding demoCompleteRun_def
  using demoReady_refs demoReady_reads(3) demo_ready_uid(2)
  by (intro pass_completes demoReady_current) (simp add: ownedRef_def)


section \<open>The libraries of the scenario\<close>

lemma demo_documented: "documented_libraries demoLibraries"
proof -
  note ref = reference.pv_kind reference.pv_meta reference.pv_claim_ref reference.pv_nfs reference.pvc_kind
    reference.pvc_meta reference.pvc_volume
  have same: "lib_PVToUnstructured demoLibraries = lib_PVToUnstructured referenceLibraries"
    "lib_PVCToUnstructured demoLibraries = lib_PVCToUnstructured referenceLibraries"
    "lib_NFSFromUnstructured demoLibraries = lib_NFSFromUnstructured referenceLibraries"
    by (simp_all add: referenceLibraries_def)
  show ?thesis
    by unfold_locales (simp_all add: padDigest_def, simp_all only: same [symmetric, simplified] ref [unfolded same [symmetric], simplified])
qed

end
