(* ===== verification/ScenarioRepair.thy ===== *)
theory ScenarioRepair
  imports ScenarioRuns
begin

text \<open>
  The repair of a Work that was created without routing annotations: in one pass the controller
  records its UID, in the next one it adds the routing to exactly that Work.
\<close>

section \<open>The two steps of a repair\<close>

text \<open>A Work that the routing check has changed ends the pass.\<close>

lemma syncWork_changed:
  assumes "refMatches (mig_Works (sy_m s) ! i) (sy_works s ! i)" and "\<not> ref_Detached (mig_Works (sy_m s) ! i)"
    and "exec (ensureWorkRouting L (sy_m s) i w (sy_works s ! i)) tr (Ok True)"
  shows "exec (syncWork L i s) (workRead (mig_Works (sy_m s) ! i) w # tr) (Ok None)"
proof -
  from assms(3) have "exec (andThen (ensureWorkRouting L (sy_m s) i w (sy_works s ! i))
      (\<lambda>changed. if changed then ret None
         else check (validateWork w (sy_works s ! i) (sy_m s)) (ret (Some (observeWork L i w s))))) (tr @ []) (Ok None)"
    by (rule exec_andThenI) simp
  note body = this
  have "exec (syncWork L i s) ([workRead (mig_Works (sy_m s) ! i) w] @ (tr @ [])) (Ok None)"
    unfolding syncWork_def Let_def workRead_def
    by (rule exec_requireI [OF assms(1)], simp only: assms(2) if_False, rule exec_tryI, rule exec_typed_callI, rule body)
  then show ?thesis by simp
qed

lemma repair_edits:
  assumes "repairable L m i w expected" and "comparableWorkSpec w \<noteq> comparableWorkSpec expected"
    and "ref_RoutingWorkUID (mig_Works m ! i) = GetUID w" "ref_RoutingGeneration (mig_Works m ! i) = 2"
    and "setWorkRouting w = Some routed"
  shows "exec (ensureWorkRouting L m i w expected)
     [(PatchCall (UnstructuredObj w) (UnstructuredObj routed), Object (UnstructuredObj routed))] (Ok True)"
proof -
  have "exec (andThen (patchUnstructured w routed) (\<lambda>_. ret True))
      ([(PatchCall (UnstructuredObj w) (UnstructuredObj routed), Object (UnstructuredObj routed))] @ []) (Ok True)"
    by (rule exec_andThenI, rule exec_typed_callI) simp
  with assms show ?thesis by (auto simp: ensureWorkRouting_def Let_def repairable_def require_def check_def)
qed

lemma repair_intends:
  assumes "repairable L m i w expected" and "comparableWorkSpec w \<noteq> comparableWorkSpec expected"
    and "ref_RoutingWorkUID (mig_Works m ! i) = []"
  shows "exec (ensureWorkRouting L m i w expected)
     [(StatusPatchCall (MigrationObj m) (MigrationObj (routingIntent i w m)), Object (MigrationObj x))] (Ok True)"
proof -
  have "exec (andThen (patchMigrationStatus m (routingIntent i w m)) (\<lambda>_. ret True))
      ([(StatusPatchCall (MigrationObj m) (MigrationObj (routingIntent i w m)), Object (MigrationObj x))] @ []) (Ok True)"
    by (rule exec_andThenI, rule exec_typed_callI) simp
  with assms show ?thesis by (auto simp: ensureWorkRouting_def Let_def repairable_def require_def check_def)
qed

text \<open>A pass that ends at its first Work.\<close>

lemma pass_stops:
  assumes "\<not> migrationDone m" and "exec (validateBinding L m md) gate (Ok ())"
    and "BuildWorks L m md = Ok works" "planHash L m md works = Ok (mst_PlanHash (mig_Status m))"
    and "works \<noteq> []" "length (mig_Works m) = length works"
    and "exec (syncWork L 0 (startState m works)) tr (Ok None)"
  shows "exec (MigrationReconcile L poll req)
     ((GetCall MigrationKind req, Object (MigrationObj m)) #
      (GetCall MetadataKind (mig_Namespace m, ms_MetadataRef (mig_Spec m)), Object (MetadataObj md)) # gate @ tr)
     (Ok (delay poll, None))"
proof (rule MigrationReconcile_follows [OF assms(1-4)])
  have "[0..<length works] = 0 # [1..<length works]" using assms(5) by (simp add: upt_conv_Cons)
  then have "exec (syncWorks L [0..<length works] (startState m works)) (tr @ []) (Ok None)"
    using exec_andThenI [OF assms(7), of "\<lambda>r. case r of None \<Rightarrow> ret None | Some s' \<Rightarrow> syncWorks L [1..<length works] s'" "[]" "Ok None"]
    by simp
  then have loop: "exec (syncWorks L [0..<length works] (startState m works)) tr (Ok None)" by simp
  have "exec (applyPlan L (delay poll) m works) (tr @ []) (Ok (delay poll, None))"
    unfolding applyPlan_def orReturn_def by (rule exec_tryI [OF loop]) simp
  then show "exec (followPlan L (delay poll) m (mst_PlanHash (mig_Status m)) works) tr (Ok (delay poll, None))"
    using assms(5,6) by (simp add: followPlan_def)
qed

section \<open>The scenario\<close>

definition demoLegacy :: jobj where
  "demoLegacy = unroutedWork demoMigration demoData demoDataName 0 demoDataManifest"

definition demoOld :: jobj where
  "demoOld = served ''wl'' ''5'' fmempty demoLegacy"

definition demoIntended :: PVMigration where
  "demoIntended = routingIntent 0 demoOld demoRecorded"

lemma demoDataManifest_unannotated: "unannotated demoDataManifest"
  by (simp add: unannotated_def demoDataManifest_def volumeJson_def typedJson_reads targetVolume_def metaJson_def
      put_lookups emptyMeta_def)

lemma demo_legacy: "removeWorkRouting (demoWorks ! 0) = Some demoLegacy"
proof -
  have slice: "sliceAt demoLegacy manifestsPath = Some (map JObj [demoDataManifest])"
    by (simp add: demoLegacy_def unroutedWork_reads)
  have "removeWorkRouting (demoWorks ! 0) = removeWorkRouting demoLegacy"
    using demoDataManifest_unannotated
    by (simp add: demoWorks_eq demoLegacy_def, intro removeWorkRouting_planned) (auto simp: unannotated_def routable_def)
  also have "removeWorkRouting demoLegacy = Some (setSlice (Some [JObj (removeRoute demoDataManifest)]) manifestsPath demoLegacy)"
    using overManifests_Some [OF slice, of removeRoute] by (simp add: removeWorkRouting_def)
  also have "removeRoute demoDataManifest = demoDataManifest"
    using demoDataManifest_unannotated by (auto simp: removeRoute_eq unannotated_def)
  also have "setSlice (Some [JObj demoDataManifest]) manifestsPath demoLegacy = demoLegacy"
    using slice by (simp add: setSlice_def slice_value_def setField_same sliceAt_Some_iff)
  finally show ?thesis .
qed

lemma demoLegacy_metadata:
  "\<exists>md. fmlookup demoLegacy ''metadata'' = Some (JObj md) \<and> fmlookup md ''deletionTimestamp'' = None"
  by (simp add: demoLegacy_def unroutedWork_eq)

lemma demoOld_reads:
  "GetName demoOld = demoDataName" "GetNamespace demoOld = ''karmada-es-b''" "GetUID demoOld = ''wl''"
  "GetGeneration demoOld = 1" "GetDeletionTimestamp L demoOld = None" "GetLabels demoOld = workLabels demoMigration demoData demoDataName"
  "elems (sliceAt demoOld statusesPath) = []" "sliceAt demoOld manifestsPath = Some (map JObj [demoDataManifest])"
proof -
  obtain md where md: "fmlookup demoLegacy ''metadata'' = Some (JObj md)" "fmlookup md ''deletionTimestamp'' = None"
    using demoLegacy_metadata by blast
  note reads = served_reads [OF md(1)]
  show "GetName demoOld = demoDataName" "GetNamespace demoOld = ''karmada-es-b''" "GetUID demoOld = ''wl''"
    "GetGeneration demoOld = 1" "GetDeletionTimestamp L demoOld = None" "GetLabels demoOld = workLabels demoMigration demoData demoDataName"
    unfolding demoOld_def
    by (simp_all add: reads md(2)) (simp_all add: demoLegacy_def unroutedWork_reads workName_def demo_execution)
  show "elems (sliceAt demoOld statusesPath) = []"
    unfolding demoOld_def sliceAt_def NestedSlice_def reads(9) by simp
  have "sliceAt demoOld manifestsPath = sliceAt demoLegacy manifestsPath"
    unfolding demoOld_def sliceAt_def NestedSlice_def reads(8) by (rule refl)
  then show "sliceAt demoOld manifestsPath = Some (map JObj [demoDataManifest])"
    by (simp add: demoLegacy_def unroutedWork_reads)
qed

lemma demo_old_differs: "comparableWorkSpec demoOld \<noteq> comparableWorkSpec (demoWorks ! 0)"
proof
  assume eq: "comparableWorkSpec demoOld = comparableWorkSpec (demoWorks ! 0)"
  have "sliceAt (demoWorks ! 0) manifestsPath = Some [JObj (demoRouted 0)]"
    by (simp add: demoWorks_eq plannedWork_reads demoRouted_def demo_execution)
  from comparableWorkSpec_eq(1) [OF eq this] have "comparableManifest (JObj demoDataManifest) = comparableManifest (JObj (demoRouted 0))"
    using demoOld_reads(8) by auto
  then obtain k' where k': "JObj demoDataManifest = JObj k'" "\<And>p. comparedPath p \<Longrightarrow> NestedField k' p = NestedField (demoRouted 0) p"
    using comparableManifest_eq by blast
  have "comparedPath (annotationPath workNameAnnotation)"
    by (simp add: comparedPath_def comparedMetadata_def workNameAnnotation_def managedAnnotations_def managedLabels_def)
  with k' have "NestedField demoDataManifest (annotationPath workNameAnnotation) = NestedField (demoRouted 0) (annotationPath workNameAnnotation)"
    by simp
  moreover have "NestedField demoDataManifest (annotationPath workNameAnnotation) = Missing"
    using demoDataManifest_unannotated by (auto simp: unannotated_def NestedField_Cons)
  moreover have "NestedField (demoRouted 0) (annotationPath workNameAnnotation) = Found (JStr (workName 0 demoDataName))"
    using demoDataManifest_unannotated by (simp add: demoRouted_def, intro setRoute_reads) (auto simp: unannotated_def routable_def)
  ultimately show False by simp
qed


lemma demo_repairable:
  assumes "mig_UID m = ''u''" "0 < length (mig_Works m)" "\<not> ref_Applied (mig_Works m ! 0)" "\<not> ref_Detached (mig_Works m ! 0)"
    and "\<forall>ref\<in>set (tl (mig_Works m)). ref_RoutingWorkUID ref = []"
  shows "repairable demoLibraries m 0 demoOld (demoWorks ! 0)"
proof -
  have "generationAllowed refs w" if "GetGeneration w \<le> 1" "\<forall>ref\<in>set refs. ref_RoutingWorkUID ref = []" for refs w
    using that by (induction refs) auto
  moreover obtain ref refs where refs: "mig_Works m = ref # refs" using assms(2) by (cases "mig_Works m") auto
  then have "\<forall>ref\<in>set (mig_Works (clearRouting 0 m)). ref_RoutingWorkUID ref = []"
    using assms(5) by (simp add: clearRouting_def updateRef_def)
  ultimately have "workGenerationAllowed demoOld (clearRouting 0 m)"
    by (simp add: workGenerationAllowed_def demoOld_reads)
  moreover have "comparableWorkSpec demoOld = comparableWorkSpec demoLegacy" by (simp add: demoOld_def served_spec)
  moreover have "GetLabels demoLegacy = workLabels demoMigration demoData demoDataName"
    by (simp add: demoLegacy_def unroutedWork_reads)
  moreover have "mig_UID (clearRouting 0 m) = ''u''" "mig_UID demoMigration = ''u''"
    using assms(1) by (simp_all add: clearRouting_def updateRef_def demo_defs)
  ultimately have "validateWork demoOld demoLegacy (clearRouting 0 m) = None"
    by (simp add: validateWork_None_iff demoOld_reads workLabels_reads)
  with demo_legacy assms show ?thesis by (simp add: repairable_def demoOld_reads)
qed

lemma demoIntended_reads:
  "demoPlanned demoIntended" "length (mig_Works demoIntended) = 3" "\<not> migrationDone demoIntended"
  "mig_Works demoIntended ! 0 = (workReference (demoWorks ! 0))\<lparr> ref_RoutingWorkUID := ''wl'', ref_RoutingGeneration := 2 \<rparr>"
  "tl (mig_Works demoIntended) = tl (map workReference demoWorks)"
proof -
  have refs: "mig_Works demoRecorded = map workReference demoWorks" by (rule demoRecorded_reads)
  have ws: "demoWorks = hd demoWorks # tl demoWorks" using demoWorks_length(3) by simp
  show "demoPlanned demoIntended" "length (mig_Works demoIntended) = 3" "\<not> migrationDone demoIntended"
    using demoRecorded_reads(1,4) by (simp_all add: demoIntended_def routingIntent_def updateRef_def demoPlanned_def refs
        demoWorks_length migrationDone_def)
  show "mig_Works demoIntended ! 0 = (workReference (demoWorks ! 0))\<lparr> ref_RoutingWorkUID := ''wl'', ref_RoutingGeneration := 2 \<rparr>"
    "tl (mig_Works demoIntended) = tl (map workReference demoWorks)"
    by (simp_all add: demoIntended_def routingIntent_def updateRef_def refs demoOld_reads demoWorks_length)
      (subst (2) ws, subst ws, simp)
qed

definition demoNew :: jobj where
  "demoNew = (case setWorkRouting demoOld of Some w \<Rightarrow> w)"

lemma demo_routed: "setWorkRouting demoOld = Some demoNew"
  using overManifests_Some [OF demoOld_reads(8)] by (simp add: demoNew_def setWorkRouting_def)

definition demoIntentRun :: trace where
  "demoIntentRun = demoHead demoRecorded @ [workRead (mig_Works demoRecorded ! 0) demoOld,
     (StatusPatchCall (MigrationObj demoRecorded) (MigrationObj demoIntended), Object (MigrationObj demoRecorded))]"

definition demoRepairRun :: trace where
  "demoRepairRun = demoHead demoIntended @ [workRead (mig_Works demoIntended ! 0) demoOld,
     (PatchCall (UnstructuredObj demoOld) (UnstructuredObj demoNew), Object (UnstructuredObj demoNew))]"

lemma demo_runs:
  "exec (MigrationReconcile demoLibraries 0 demoReq) demoIntentRun (Ok (delay 0, None))"
  "exec (MigrationReconcile demoLibraries 0 demoReq) demoRepairRun (Ok (delay 0, None))"
proof -
  have gate: "exec (validateBinding demoLibraries m demoMetadata) demoGateReads (Ok ())" if "demoPlanned m" for m
    using that by (intro demo_gate_passes) (simp_all add: demoPlanned_def)
  have uid: "mig_UID m = ''u''" if "demoPlanned m" for m using that by (simp add: demoPlanned_def demo_defs)
  have refs: "mig_Works demoRecorded = map workReference demoWorks" by (rule demoRecorded_reads)
  have fresh: "\<forall>ref\<in>set (tl (map workReference demoWorks)). ref_RoutingWorkUID ref = []"
    by (auto simp: workReference_def map_tl [symmetric])
  have start: "sy_m (startState m demoWorks) = m" "sy_works (startState m demoWorks) = demoWorks" for m
    by (simp_all add: startState_def)
  have "exec (ensureWorkRouting demoLibraries demoRecorded 0 demoOld (demoWorks ! 0))
     [(StatusPatchCall (MigrationObj demoRecorded) (MigrationObj demoIntended), Object (MigrationObj demoRecorded))] (Ok True)"
    unfolding demoIntended_def
    using demo_refs [of 0] fresh uid [OF demoRecorded_reads(1)]
    by (intro repair_intends demo_repairable demo_old_differs) (simp_all add: refs demoWorks_length freshRef_def)
  then have "exec (syncWork demoLibraries 0 (startState demoRecorded demoWorks)) [workRead (mig_Works demoRecorded ! 0) demoOld,
     (StatusPatchCall (MigrationObj demoRecorded) (MigrationObj demoIntended), Object (MigrationObj demoRecorded))] (Ok None)"
    using syncWork_changed [of "startState demoRecorded demoWorks" 0] demo_refs [of 0]
    by (simp add: start refs demoWorks_length freshRef_def)
  from pass_stops [OF demoRecorded_reads(4) gate [OF demoRecorded_reads(1)] demo_planned_build [OF demoRecorded_reads(1)] _ _ this]
  show "exec (MigrationReconcile demoLibraries 0 demoReq) demoIntentRun (Ok (delay 0, None))"
    by (simp add: demoIntentRun_def demoHead_def refs demoWorks_length)
  have "exec (ensureWorkRouting demoLibraries demoIntended 0 demoOld (demoWorks ! 0))
     [(PatchCall (UnstructuredObj demoOld) (UnstructuredObj demoNew), Object (UnstructuredObj demoNew))] (Ok True)"
    using demo_refs [of 0] fresh uid [OF demoIntended_reads(1)]
    by (intro repair_edits demo_repairable demo_old_differs demo_routed)
      (simp_all add: demoIntended_reads freshRef_def demoOld_reads)
  then have "exec (syncWork demoLibraries 0 (startState demoIntended demoWorks)) [workRead (mig_Works demoIntended ! 0) demoOld,
     (PatchCall (UnstructuredObj demoOld) (UnstructuredObj demoNew), Object (UnstructuredObj demoNew))] (Ok None)"
    using syncWork_changed [of "startState demoIntended demoWorks" 0] demo_refs [of 0]
    by (simp add: start demoIntended_reads freshRef_def refMatches_def)
  from pass_stops [OF demoIntended_reads(3) gate [OF demoIntended_reads(1)] demo_planned_build [OF demoIntended_reads(1)] _ _ this]
  show "exec (MigrationReconcile demoLibraries 0 demoReq) demoRepairRun (Ok (delay 0, None))"
    by (simp add: demoRepairRun_def demoHead_def demoIntended_reads demoWorks_length)
qed

end
