(* ===== verification/PanicFreedom.thy ===== *)
theory PanicFreedom
  imports EvidenceResults HashResults
begin

text \<open>
  Which controllers can panic.  A Go panic is a value of the model: a failed type assertion, a
  nil dereference, a reply of the wrong kind, a capacity that \<open>make\<close> refuses.  The programs of the
  management controllers are shown to have no execution that ends in it, from the documented
  behaviour of the libraries; a pass of the member controller ends in it only when the capacity
  for the volumes of the workload it read is refused.
\<close>

section \<open>Programs without panic\<close>

definition calm :: "'a act \<Rightarrow> bool" where
  "calm p \<longleftrightarrow> (\<forall>tr. \<not> exec p tr Panic)"

named_theorems calm_rules

lemma calm_basic [calm_rules]: "calm (ret x)" "calm (raise e)" "r \<noteq> Panic \<Longrightarrow> calm (Return r)"
  by (auto simp: calm_def)

lemma calm_tryM:
  assumes "calm m" and "\<And>e. calm (h e)" and "\<And>x t. exec m t (Ok x) \<Longrightarrow> calm (k x)"
  shows "calm (tryM m h k)"
  using assms unfolding calm_def exec_tryM by (auto split: go.splits)

lemma calm_andThen: "calm m \<Longrightarrow> (\<And>x t. exec m t (Ok x) \<Longrightarrow> calm (k x)) \<Longrightarrow> calm (andThen m k)"
  unfolding andThen_def by (intro calm_tryM calm_rules)

lemma calm_require: "(b \<Longrightarrow> calm k) \<Longrightarrow> calm (require b msg k)"
  by (auto simp: require_def intro: calm_rules)

lemma calm_check: "(r = None \<Longrightarrow> calm k) \<Longrightarrow> calm (check r k)"
  by (auto simp: check_def intro: calm_rules split: option.split)

lemma calm_call: "(\<And>r. answers c r \<Longrightarrow> f r \<noteq> Panic) \<Longrightarrow> calm (call c f)"
  unfolding calm_def exec_call by metis

lemma hasKind_views:
  "hasKind MigrationKind obj \<Longrightarrow> \<exists>m. obj = MigrationObj m" "hasKind MetadataKind obj \<Longrightarrow> \<exists>m. obj = MetadataObj m"
  "hasKind StatefulSetKind obj \<Longrightarrow> \<exists>s. obj = StatefulSetObj s" "hasKind ClaimKind obj \<Longrightarrow> \<exists>c. obj = ClaimObj c"
  "hasKind VolumeKind obj \<Longrightarrow> \<exists>v. obj = VolumeObj v" "hasKind (UnstructuredKind g) obj \<Longrightarrow> \<exists>u. obj = UnstructuredObj u"
  by (cases obj; simp)+

lemma calm_calls [calm_rules]:
  "calm (getMigration nn)" "calm (getMetadata nn)" "calm (getStatefulSet nn)" "calm (getClaim nn)" "calm (getVolume nn)"
  "calm (getUnstructured g nn)" "calm (listMigrations ns)" "calm (createMetadata md)" "calm (createUnstructured u)"
  "calm (patchUnstructured v u)" "calm (patchMigrationStatus b m)" "calm (patchMetadataStatus b' m')"
  "calm (deleteUnstructured u uid rv)" "calm now"
  unfolding getMigration_def getMetadata_def getStatefulSet_def getClaim_def getVolume_def getUnstructured_def
    listMigrations_def createMetadata_def createUnstructured_def patchUnstructured_def patchMigrationStatus_def
    patchMetadataStatus_def deleteUnstructured_def now_def
  by (rule calm_call, rename_tac r, case_tac r; auto dest: hasKind_views elim: sameKind.elims)+

lemma calm_finish: "calm p \<Longrightarrow> calm (finish d p)"
  unfolding finish_def by (intro calm_tryM calm_rules)

lemma calm_orReturn: "calm p \<Longrightarrow> (\<And>x t. exec p t (Ok x) \<Longrightarrow> calm (k x)) \<Longrightarrow> calm (orReturn d p k)"
  unfolding orReturn_def by (intro calm_tryM calm_rules)

lemma calm_setPhase: "calm (setPhase m phase message)"
  by (simp add: setPhase_def calm_rules)

lemmas calm_intros = calm_tryM calm_andThen calm_require calm_check calm_finish calm_orReturn calm_rules calm_setPhase

section \<open>The gate\<close>

lemma calm_hold: "calm (validateSelectedTargetHold L m md rb)"
  unfolding validateSelectedTargetHold_def Let_def by (intro calm_intros)

lemma calm_checkClusters: "calm (checkClusters L m md rb n items)"
  by (induction items) (auto intro!: calm_intros calm_hold split: option.split)

lemma calm_gate: "calm (validateBinding L m md)"
  unfolding validateBinding_def Let_def by (intro calm_intros calm_checkClusters)

section \<open>Works whose manifests are maps\<close>

definition mappable :: "jobj \<Rightarrow> bool" where
  "mappable w \<longleftrightarrow> (\<exists>objs. sliceAt w manifestsPath = Some (map JObj objs))"

lemma mappable_over: "mappable w \<Longrightarrow> \<exists>w'. overManifests f w = Some w' \<and> mappable w'"
proof -
  assume "mappable w"
  then obtain objs where objs: "sliceAt w manifestsPath = Some (map JObj objs)" by (auto simp: mappable_def)
  have "sliceAt (setSlice (Some (map (JObj \<circ> f) objs)) manifestsPath w) manifestsPath = Some (map JObj (map f objs))"
    using objs by (simp add: sliceAt_setSlice)
  with overManifests_Some [OF objs, of f] show ?thesis unfolding mappable_def by blast
qed

lemma mappable_equal:
  assumes "comparableWorkSpec w = comparableWorkSpec e" and "mappable e"
  shows "mappable w"
proof -
  from assms(2) obtain objs where e: "sliceAt e manifestsPath = Some (map JObj objs)" by (auto simp: mappable_def)
  from comparableWorkSpec_eq(1) [OF assms(1) e] obtain ms where
    ms: "sliceAt w manifestsPath = Some ms" "map comparableManifest ms = map comparableManifest (map JObj objs)" by blast
  have "\<exists>os. xs = map JObj os" if "map comparableManifest xs = map comparableManifest (map JObj objs)" for xs
    using that
  proof (induction xs arbitrary: objs)
    case (Cons x xs)
    then obtain k rest where ks: "objs = k # rest" "comparableManifest x = comparableManifest (JObj k)"
      "map comparableManifest xs = map comparableManifest (map JObj rest)" by (cases objs) auto
    obtain k' where "x = JObj k'" using comparableManifest_eq [OF ks(2)] by blast
    moreover from Cons.IH [OF ks(3)] obtain os where "xs = map JObj os" by blast
    ultimately show ?case by (intro exI [of _ "k' # os"]) simp
  qed simp
  with ms show ?thesis by (auto simp: mappable_def)
qed

lemma mappable_planned: "BuildWorks L m md = Ok works \<Longrightarrow> w \<in> set works \<Longrightarrow> mappable w"
  by (erule (1) BuildWorks_work) (auto simp: mappable_def plannedWork_reads intro: exI [of _ "[_]"])

section \<open>The loop over the planned Works\<close>

lemma calm_routing:
  assumes "mappable expected"
  shows "calm (ensureWorkRouting L m i actual expected)"
proof -
  from mappable_over [OF assms, of removeRoute] obtain legacy where
    legacy: "removeWorkRouting expected = Some legacy" "mappable legacy" by (auto simp: removeWorkRouting_def)
  have "setWorkRouting actual \<noteq> None" if "validateWork actual legacy m' = None" for m'
    using that mappable_over [OF mappable_equal [OF _ legacy(2)], of actual]
    by (fastforce simp: validateWork_None_iff setWorkRouting_def)
  then show ?thesis
    unfolding ensureWorkRouting_def Let_def legacy(1)
    by (auto intro!: calm_intros split: option.split)
qed

lemma syncWork_frame:
  assumes "exec (syncWork L i s) tr (Ok (Some s'))" and "j \<noteq> i"
  shows "sy_works s' ! j = sy_works s ! j"
  using assms
  by (auto simp: syncWork_def createMissing_def observeWork_def Let_def require_def check_def exec_tryM exec_andThen_Ok
      split: if_splits go.splits option.splits) (rename_tac r t, case_tac r; auto)

lemma calm_syncWork: "mappable (sy_works s ! i) \<Longrightarrow> calm (syncWork L i s)"
  unfolding syncWork_def createMissing_def Let_def
  by (auto intro!: calm_intros calm_routing)

lemma calm_syncWorks:
  "distinct is \<Longrightarrow> \<forall>i\<in>set is. mappable (sy_works s ! i) \<Longrightarrow> calm (syncWorks L is s)"
proof (induction "is" arbitrary: s)
  case (Cons i rest)
  have "calm (syncWorks L rest s')" if "exec (syncWork L i s) t (Ok (Some s'))" for s' t
  proof (rule Cons.IH)
    have "\<forall>j\<in>set rest. sy_works s' ! j = sy_works s ! j" using Cons.prems(1) syncWork_frame [OF that] by (metis distinct.simps(2))
    with Cons.prems(2) show "\<forall>j\<in>set rest. mappable (sy_works s' ! j)" by simp
  qed (use Cons.prems in simp)
  with Cons.prems show ?case
    by (auto intro!: calm_andThen calm_syncWork calm_rules split: option.split)
qed (simp add: calm_rules)

lemma calm_applyPlan:
  assumes "\<forall>w\<in>set works. mappable w"
  shows "calm (applyPlan L d m works)"
proof -
  have "calm (syncWorks L [0..<length works] (startState m works))"
    using assms by (intro calm_syncWorks) (auto simp: startState_def)
  moreover have "\<exists>s'. bindReceipts L is s = Some s'" for "is" s using bindReceipts_no_panic by blast
  ultimately show ?thesis
    unfolding applyPlan_def by (auto intro!: calm_intros split: option.split) (metis option.distinct(1) bindReceipts_no_panic)
qed

section \<open>The cleanup and the member controller\<close>

lemma matchPlanned_no_panic: "matchPlanned m ref w works b \<noteq> Panic"
  by (induction m ref w works b rule: matchPlanned.induct) (auto split: option.split)

lemma calm_collectVolume: "calm (collectVolume ns t ordinal name)"
  unfolding collectVolume_def by (intro calm_intros) (auto intro!: calm_intros)

lemma calm_collectOrdinals: "calm (collectOrdinals ns sts t ordinals vs seen)"
  by (induction ordinals arbitrary: vs seen) (auto simp: Let_def intro!: calm_intros calm_collectVolume)

lemma calm_collectTemplates: "calm (collectTemplates sts ordinals ts vs seen)"
  by (induction ts arbitrary: vs seen) (auto intro!: calm_intros calm_collectOrdinals split: prod.split)

lemma calm_collectStandalone: "calm (collectStandalone ns names vs seen)"
  by (induction names arbitrary: vs seen) (auto intro!: calm_intros calm_collectVolume)

text \<open>
  The member controller panics in one place only: where it makes the slice for the volumes with
  a capacity that the runtime refuses.
\<close>

lemma exec_tryM_Panic:
  assumes "\<And>e. calm (h e)"
  shows "exec (tryM m h k) tr Panic \<longleftrightarrow>
     exec m tr Panic \<or> (\<exists>t1 x t2. tr = t1 @ t2 \<and> exec m t1 (Ok x) \<and> exec (k x) t2 Panic)"
proof
  assume run: "exec (tryM m h k) tr Panic"
  have "\<not> exec (h e) t Panic" for e t
    using assms by (simp add: calm_def)
  with run [unfolded exec_tryM] show "exec m tr Panic \<or> (\<exists>t1 x t2. tr = t1 @ t2 \<and> exec m t1 (Ok x) \<and> exec (k x) t2 Panic)"
    by (elim exE conjE) (rename_tac t1 r t2, case_tac r; simp; blast)
next
  assume "exec m tr Panic \<or> (\<exists>t1 x t2. tr = t1 @ t2 \<and> exec m t1 (Ok x) \<and> exec (k x) t2 Panic)"
  then show "exec (tryM m h k) tr Panic"
  proof (elim disjE exE conjE)
    assume "exec m tr Panic"
    then show ?thesis
      unfolding exec_tryM by (intro exI [of _ tr] exI [of _ Panic] exI [of _ "[]"]) simp
  next
    fix t1 x t2
    assume "tr = t1 @ t2" "exec m t1 (Ok x)" "exec (k x) t2 Panic"
    then show ?thesis
      unfolding exec_tryM by (intro exI [of _ t1] exI [of _ "Ok x"] exI [of _ t2]) simp
  qed
qed

lemma exec_require_Panic: "exec (require b msg k) tr Panic \<longleftrightarrow> b \<and> exec k tr Panic"
  by (simp add: require_def)

lemma exec_calm_Panic: "calm p \<Longrightarrow> \<not> exec p tr Panic"
  by (simp add: calm_def)

lemma calm_observe: "volumesFit L sts \<Longrightarrow> calm (observeWorkload L sts)"
  unfolding observeWorkload_def Let_def
  by (auto intro!: calm_intros calm_collectTemplates calm_collectStandalone split: prod.split)

lemma observe_Panic: "exec (observeWorkload L sts) tr Panic \<longleftrightarrow> \<not> volumesFit L sts \<and> tr = []"
  using exec_calm_Panic [OF calm_observe, of L sts tr] by (auto simp: observeWorkload_def Let_def)

definition workloadRead :: "PVMetadata \<Rightarrow> StatefulSet \<Rightarrow> api_call \<times> api_reply" where
  "workloadRead md sts =
     (GetCall StatefulSetKind (om_Namespace (md_meta md), wr_Name (mds_WorkloadRef (md_Spec md))), Object (StatefulSetObj sts))"

lemma exec_getStatefulSet_Ok:
  "exec (getStatefulSet nn) tr (Ok sts) \<longleftrightarrow> tr = [(GetCall StatefulSetKind nn, Object (StatefulSetObj sts))]"
  by (auto simp: exec_rules)

lemma collect_Panic:
  "exec (collect L md) tr Panic \<longleftrightarrow>
     (\<exists>sts. tr = [workloadRead md sts] \<and> wr_Name (mds_WorkloadRef (md_Spec md)) \<noteq> [] \<and> 0 < sint (stsReplicas sts) \<and>
        (sts_VolumeClaimTemplates sts \<noteq> [] \<or> Standalone L sts \<noteq> []) \<and> \<not> volumesFit L sts)"
proof -
  have failed: "calm (if isNotFound e then raise a else raise b)" for e a b
    by (auto intro: calm_rules)
  show ?thesis
    unfolding collect_def Let_def exec_require_Panic exec_tryM_Panic [OF failed] exec_getStatefulSet_Ok observe_Panic
    by (auto simp: workloadRead_def exec_calm_Panic [OF calm_calls(3)])
qed

lemma calm_publish: "calm (publish poll md status)"
  unfolding publish_def by (auto intro!: calm_intros)

lemma member_Panic:
  "exec (MemberReconcile L clusterName poll req) tr Panic \<longleftrightarrow>
     (\<exists>md sts. tr = [(GetCall MetadataKind req, Object (MetadataObj md)), workloadRead md sts] \<and>
        mds_SourceCluster (md_Spec md) = clusterName \<and> wr_Name (mds_WorkloadRef (md_Spec md)) \<noteq> [] \<and>
        0 < sint (stsReplicas sts) \<and> (sts_VolumeClaimTemplates sts \<noteq> [] \<or> Standalone L sts \<noteq> []) \<and> \<not> volumesFit L sts)"
proof -
  have failed: "calm (if isNotFound e then ret a else ret b)" for e and a b :: outcome
    by (auto intro: calm_rules)
  have rest: "exec (if P then ret (0, None) else tryM (collect L md) (\<lambda>e. publish poll md (f e)) (\<lambda>obs. publish poll md (g obs))) t Panic
      \<longleftrightarrow> \<not> P \<and> exec (collect L md) t Panic" for P md f g t
    using exec_calm_Panic [OF calm_publish] by (auto simp: exec_tryM_Panic [OF calm_publish])
  have reply: "asMetadata r = Ok md \<longleftrightarrow> r = Object (MetadataObj md)" for r md
    by (cases r rule: asMetadata.cases) auto
  have read: "exec (getMetadata req) t (Ok md) \<longleftrightarrow> t = [(GetCall MetadataKind req, Object (MetadataObj md))]" for t md
    by (auto simp: getMetadata_def exec_call reply eq_commute [of "Ok _"])
  show ?thesis
    unfolding MemberReconcile_def exec_tryM_Panic [OF failed] rest read collect_Panic
    by (auto simp: exec_calm_Panic [OF calm_calls(2)])
qed

text \<open>Whether the capacity fits, in numbers, as long as the 64-bit product is exact.\<close>

lemma volumesCapacity_exact:
  assumes "length (sts_VolumeClaimTemplates sts) < 2 ^ 31" "0 < sint (stsReplicas sts)"
  shows "volumesCapacity sts = int (length (sts_VolumeClaimTemplates sts)) * sint (stsReplicas sts)"
proof -
  let ?n = "int (length (sts_VolumeClaimTemplates sts))" and ?r = "sint (stsReplicas sts)"
  have r: "?r < 2 ^ 31" using sint_lt [of "stsReplicas sts"] by simp
  have n: "0 \<le> ?n" "?n < 2 ^ 31" using assms(1) by simp_all
  have "?n * ?r \<le> 2 ^ 31 * 2 ^ 31"
    using n r assms(2) by (intro mult_mono) simp_all
  then have bound: "0 \<le> ?n * ?r" "?n * ?r < 2 ^ 63"
    using n(1) assms(2) by simp_all
  have same: "sint (word_of_int i :: 64 word) = i" if "0 \<le> i" "i < 2 ^ 63" for i
    using that by (simp add: sint_sbintrunc' signed_take_bit_int_eq_self)
  have "volumesCapacity sts = sint (word_of_int (?n * ?r) :: 64 word)"
    by (simp only: volumesCapacity_def scast_eq of_int_mult of_int_of_nat_eq)
  with same [OF bound] show ?thesis by (simp only:)
qed

section \<open>The reconcilers\<close>

context documented_libraries
begin

lemma calm_migration: "calm (MigrationReconcile L poll req)"
proof -
  have plan: "calm (followPlan L d m hash works)" if "BuildWorks L m md = Ok works" for d m md hash works
    unfolding followPlan_def using mappable_planned [OF that] by (auto intro!: calm_intros calm_applyPlan)
  have "calm (case BuildWorks L m md of Panic \<Rightarrow> Return Panic
      | Err e \<Rightarrow> finish d (setPhase m ''Pending'' (error_text e))
      | Ok works \<Rightarrow> (case planHash L m md works of Panic \<Rightarrow> Return Panic | Err e \<Rightarrow> ret (d, Some e)
         | Ok hash \<Rightarrow> followPlan L d m hash works))" for d m md
    using plan_no_panic [of m md] hash_no_panic [of m md] plan [of m md]
    by (auto intro!: calm_intros split: go.split)
  then show ?thesis
    unfolding MigrationReconcile_def Let_def by (auto intro!: calm_intros calm_gate)
qed

lemma calm_cleanup: "calm (CleanupReconcile L poll req)"
proof -
  have plan: "planStillMatches L m md ref w \<noteq> Panic" for m md ref w
    using plan_no_panic [of m md] hash_no_panic [of m md] matchPlanned_no_panic
    by (auto simp: planStillMatches_def go_bind_Panic_iff split: go.splits if_splits)
  have "calm (detachWork L i s)" for i s
    unfolding detachWork_def detachFound_def deleteWork_def Let_def
    by (auto intro!: calm_intros plan)
  then have "calm (detachWorks L is s)" for "is" s
    by (induction "is" arbitrary: s) (auto intro!: calm_intros)
  then show ?thesis
    unfolding CleanupReconcile_def Let_def by (auto intro!: calm_intros)
qed

end

end
