(* ===== verification/MigrationResults.thy ===== *)
theory MigrationResults
  imports ScenarioRepair PanicFreedom
begin

text \<open>
  The properties of the migration controller: what it creates, patches and records, and in which
  order; that it never deletes; that it reports a failed gate; and that a pass
  over Works that are in order makes the request \<open>Ready\<close>.
\<close>

section \<open>Writes\<close>

text \<open>
  C10: A Work is created only when the recorded plan is the current one: the request had passed
  the gate in this very pass, the plan hash recorded in its status is the hash of the plan just
  computed, the created object is the planned Work of a reference that was never applied,
  detached or edited, and the server had just said that it does not exist.
\<close>

theorem created_works_are_planned:
  assumes "exec (MigrationReconcile L poll req) (pre @ (CreateCall obj, r) # post) x"
  shows "\<exists>m md gate rest works i t.
     pre = (GetCall MigrationKind req, Object (MigrationObj m)) #
       (GetCall MetadataKind (mig_Namespace m, ms_MetadataRef (mig_Spec m)), Object (MetadataObj md)) # gate @ rest \<and>
     \<not> migrationDone m \<and> exec (validateBinding L m md) gate (Ok ()) \<and>
     BuildWorks L m md = Ok works \<and> planHash L m md works = Ok (mst_PlanHash (mig_Status m)) \<and>
     length (mig_Works m) = length works \<and> i < length works \<and> obj = UnstructuredObj (works ! i) \<and>
     refMatches (mig_Works m ! i) (works ! i) \<and> \<not> ref_Applied (mig_Works m ! i) \<and>
     \<not> ref_Detached (mig_Works m ! i) \<and> ref_RoutingWorkUID (mig_Works m ! i) = [] \<and>
     last pre = (GetCall (UnstructuredKind WorkGVK) (refKey (mig_Works m ! i)), Failed (NotFound t))"
proof -
  from migration.call_guard [OF assms] obtain m md works i t where
    "admittedTrace L req pre m md" "followed L m md works" "i < length works" "obj = UnstructuredObj (works ! i)"
    "refMatches (mig_Works m ! i) (works ! i)" "\<not> ref_Applied (mig_Works m ! i)" "\<not> ref_Detached (mig_Works m ! i)"
    "ref_RoutingWorkUID (mig_Works m ! i) = []"
    "last pre = (GetCall (UnstructuredKind WorkGVK) (refKey (mig_Works m ! i)), Failed (NotFound t))"
    unfolding migrationGuard_def by auto
  then show ?thesis
    unfolding admittedTrace_def followed_def by blast
qed

lemma demo_first_creation:
  "demoCreateRun = (demoHead demoRecorded @ [(GetCall (UnstructuredKind WorkGVK) (refKey (mig_Works demoRecorded ! 0)), Failed (NotFound ''not found''))]) @
     (CreateCall (UnstructuredObj (demoWorks ! 0)), Object (UnstructuredObj (demoWorks ! 0))) #
     concat (map (creation demoRecorded demoWorks demoWorks) [1..<3]) @
     [(StatusPatchCall (MigrationObj demoRecorded) (MigrationObj (waitingMigration demoRecorded)), Object (MigrationObj demoRecorded))]"
  by (simp add: demoCreateRun_def creation_def upt_conv_Cons)

theorem created_works_are_planned_witness:
  "\<exists>m md gate rest works i t.
     demoHead demoRecorded @ [(GetCall (UnstructuredKind WorkGVK) (refKey (mig_Works demoRecorded ! 0)), Failed (NotFound ''not found''))] =
       (GetCall MigrationKind demoReq, Object (MigrationObj m)) #
       (GetCall MetadataKind (mig_Namespace m, ms_MetadataRef (mig_Spec m)), Object (MetadataObj md)) # gate @ rest \<and>
     \<not> migrationDone m \<and> exec (validateBinding demoLibraries m md) gate (Ok ()) \<and>
     BuildWorks demoLibraries m md = Ok works \<and> planHash demoLibraries m md works = Ok (mst_PlanHash (mig_Status m)) \<and>
     length (mig_Works m) = length works \<and> i < length works \<and> UnstructuredObj (demoWorks ! 0) = UnstructuredObj (works ! i) \<and>
     refMatches (mig_Works m ! i) (works ! i) \<and> \<not> ref_Applied (mig_Works m ! i) \<and>
     \<not> ref_Detached (mig_Works m ! i) \<and> ref_RoutingWorkUID (mig_Works m ! i) = [] \<and>
     last (demoHead demoRecorded @ [(GetCall (UnstructuredKind WorkGVK) (refKey (mig_Works demoRecorded ! 0)), Failed (NotFound ''not found''))]) =
       (GetCall (UnstructuredKind WorkGVK) (refKey (mig_Works m ! i)), Failed (NotFound t))"
  by (rule created_works_are_planned [OF demo_create [unfolded demo_first_creation]])

text \<open>
  C15: The controller deletes nothing, and the only object it edits is a Work of its own plan that
  it had meant to route: the request read at the head of the pass is admitted, its recorded plan
  is the current one, and its status, as it was read, already holds the intent for this very Work,
  its UID and the generation 2; the Work was read right before the edit, in its first generation,
  never applied or detached, without any reflection and validated without its routing.  The edit
  adds the routing and nothing else.
\<close>

theorem edits_only_repair_routing:
  assumes "exec (MigrationReconcile L poll req) (pre @ (c, r) # post) x"
  shows "(\<forall>obj uid rv. c \<noteq> DeleteCall obj uid rv) \<and>
     (\<forall>base new. c = PatchCall base new \<longrightarrow>
        (\<exists>m md gate rest works i actual routed.
           pre = (GetCall MigrationKind req, Object (MigrationObj m)) #
             (GetCall MetadataKind (mig_Namespace m, ms_MetadataRef (mig_Spec m)), Object (MetadataObj md)) # gate @ rest \<and>
           \<not> migrationDone m \<and> exec (validateBinding L m md) gate (Ok ()) \<and>
           BuildWorks L m md = Ok works \<and> planHash L m md works = Ok (mst_PlanHash (mig_Status m)) \<and>
           length (mig_Works m) = length works \<and> i < length works \<and>
           ref_RoutingWorkUID (mig_Works m ! i) = GetUID actual \<and> ref_RoutingGeneration (mig_Works m ! i) = 2 \<and>
           last pre = workRead (mig_Works m ! i) actual \<and> repairable L m i actual (works ! i) \<and>
           base = UnstructuredObj actual \<and> new = UnstructuredObj routed \<and> setWorkRouting actual = Some routed))"
proof (intro conjI allI impI)
  note guard = migration.call_guard [OF assms]
  show "c \<noteq> DeleteCall obj uid rv" for obj uid rv
    using guard by (auto simp: migrationGuard_def)
  fix base new
  assume "c = PatchCall base new"
  with guard obtain m md works i actual routed where facts: "admittedTrace L req pre m md" "followed L m md works"
    "i < length works" "last pre = workRead (mig_Works m ! i) actual" "repairable L m i actual (works ! i)"
    "setWorkRouting actual = Some routed" "ref_RoutingWorkUID (mig_Works m ! i) = GetUID actual"
    "ref_RoutingGeneration (mig_Works m ! i) = 2" "base = UnstructuredObj actual" "new = UnstructuredObj routed"
    unfolding migrationGuard_def by auto
  from facts(1) obtain gate rest where "\<not> migrationDone m" "exec (validateBinding L m md) gate (Ok ())"
    "pre = (GetCall MigrationKind req, Object (MigrationObj m)) #
       (GetCall MetadataKind (mig_Namespace m, ms_MetadataRef (mig_Spec m)), Object (MetadataObj md)) # gate @ rest"
    unfolding admittedTrace_def by blast
  with facts show "\<exists>m md gate rest works i actual routed.
           pre = (GetCall MigrationKind req, Object (MigrationObj m)) #
             (GetCall MetadataKind (mig_Namespace m, ms_MetadataRef (mig_Spec m)), Object (MetadataObj md)) # gate @ rest \<and>
           \<not> migrationDone m \<and> exec (validateBinding L m md) gate (Ok ()) \<and>
           BuildWorks L m md = Ok works \<and> planHash L m md works = Ok (mst_PlanHash (mig_Status m)) \<and>
           length (mig_Works m) = length works \<and> i < length works \<and>
           ref_RoutingWorkUID (mig_Works m ! i) = GetUID actual \<and> ref_RoutingGeneration (mig_Works m ! i) = 2 \<and>
           last pre = workRead (mig_Works m ! i) actual \<and> repairable L m i actual (works ! i) \<and>
           base = UnstructuredObj actual \<and> new = UnstructuredObj routed \<and> setWorkRouting actual = Some routed"
    unfolding followed_def by blast
qed

theorem edits_only_repair_routing_witness:
  "\<exists>i. last (demoHead demoIntended @ [workRead (mig_Works demoIntended ! 0) demoOld]) = workRead (mig_Works demoIntended ! i) demoOld \<and>
     ref_RoutingWorkUID (mig_Works demoIntended ! i) = GetUID demoOld \<and> setWorkRouting demoOld = Some demoNew"
proof -
  let ?pre = "demoHead demoIntended @ [workRead (mig_Works demoIntended ! 0) demoOld]"
  have "exec (MigrationReconcile demoLibraries 0 demoReq)
     (?pre @ (PatchCall (UnstructuredObj demoOld) (UnstructuredObj demoNew), Object (UnstructuredObj demoNew)) # []) (Ok (delay 0, None))"
    using demo_runs(2) by (simp add: demoRepairRun_def)
  from edits_only_repair_routing [OF this] obtain m i actual routed rest where
    facts: "?pre = (GetCall MigrationKind demoReq, Object (MigrationObj m)) # rest"
      "ref_RoutingWorkUID (mig_Works m ! i) = GetUID actual" "last ?pre = workRead (mig_Works m ! i) actual"
      "UnstructuredObj demoOld = UnstructuredObj actual" "UnstructuredObj demoNew = UnstructuredObj routed"
      "setWorkRouting actual = Some routed"
    by blast
  from facts(1) have "m = demoIntended" by (simp add: demoHead_def)
  with facts show ?thesis by auto
qed

section \<open>Status writes\<close>

lemma status_write:
  assumes "exec (MigrationReconcile L poll req) (pre @ (StatusPatchCall base new, r) # post) x"
  obtains mb mn where "base = MigrationObj mb" "new = MigrationObj mn" "statusWrite L req pre mb mn"
  using migration.call_guard [OF assms] unfolding migrationGuard_def by auto

lemma statusWrite_cases:
  assumes "statusWrite L req tr base new"
  obtains (phased) m rest where "tr = (GetCall MigrationKind req, Object (MigrationObj m)) # rest" "\<not> migrationDone m"
    "base = m" "phaseWrite m base new"
  | (records) m rest md works hash where "tr = (GetCall MigrationKind req, Object (MigrationObj m)) # rest" "\<not> migrationDone m"
    "admittedTrace L req tr m md" "mig_Works m = []" "BuildWorks L m md = Ok works" "planHash L m md works = Ok hash"
    "base = m" "new = recordPlan m hash works"
  | (intends) m rest md works refs i w where "tr = (GetCall MigrationKind req, Object (MigrationObj m)) # rest" "\<not> migrationDone m"
    "admittedTrace L req tr m md" "followed L m md works" "refsProgress L tr m works refs"
    "base = set_works refs m" "new = routingIntent i w base"
  | (progresses) m rest md works refs where "tr = (GetCall MigrationKind req, Object (MigrationObj m)) # rest" "\<not> migrationDone m"
    "admittedTrace L req tr m md" "followed L m md works" "refsProgress L tr m works refs" "base = m"
    "new = withPhase (set_works refs m) ''Preparing'' ''Waiting for Applied Work and reflected Available/Bound PV'' \<or>
     new = withPhase (set_works refs m) ''Ready'' ''PV application confirmed; cleanup may detach Works'' \<and>
     readyEvidence L tr m works refs"
proof -
  from assms obtain m rest where head: "tr = (GetCall MigrationKind req, Object (MigrationObj m)) # rest" "\<not> migrationDone m"
    and kinds: "phaseWrite m base new \<or> (\<exists>md works. admittedTrace L req tr m md \<and>
      ((\<exists>hash. mig_Works m = [] \<and> BuildWorks L m md = Ok works \<and> planHash L m md works = Ok hash \<and>
          base = m \<and> new = recordPlan m hash works) \<or>
       followed L m md works \<and> (\<exists>refs. refsProgress L tr m works refs \<and>
          (base = set_works refs m \<and> (\<exists>i w. new = routingIntent i w base) \<or>
           base = m \<and>
           (new = withPhase (set_works refs m) ''Preparing'' ''Waiting for Applied Work and reflected Available/Bound PV'' \<or>
            new = withPhase (set_works refs m) ''Ready'' ''PV application confirmed; cleanup may detach Works'' \<and>
            readyEvidence L tr m works refs)))))"
    unfolding statusWrite_def by blast
  show thesis
  proof (cases "phaseWrite m base new")
    case True
    then show thesis using phased [OF head] by (simp add: phaseWrite_def)
  next
    case False
    with kinds obtain md works where adm: "admittedTrace L req tr m md" and
      "(\<exists>hash. mig_Works m = [] \<and> BuildWorks L m md = Ok works \<and> planHash L m md works = Ok hash \<and>
          base = m \<and> new = recordPlan m hash works) \<or>
       followed L m md works \<and> (\<exists>refs. refsProgress L tr m works refs \<and>
          (base = set_works refs m \<and> (\<exists>i w. new = routingIntent i w base) \<or>
           base = m \<and>
           (new = withPhase (set_works refs m) ''Preparing'' ''Waiting for Applied Work and reflected Available/Bound PV'' \<or>
            new = withPhase (set_works refs m) ''Ready'' ''PV application confirmed; cleanup may detach Works'' \<and>
            readyEvidence L tr m works refs)))"
      by blast
    then show thesis
    proof (elim disjE exE conjE)
      fix hash
      assume "mig_Works m = []" "BuildWorks L m md = Ok works" "planHash L m md works = Ok hash"
        "base = m" "new = recordPlan m hash works"
      then show thesis by (rule records [OF head adm])
    next
      fix refs i w
      assume "followed L m md works" "refsProgress L tr m works refs" "base = set_works refs m" "new = routingIntent i w base"
      then show thesis by (rule intends [OF head adm])
    qed (rule progresses [OF head adm], assumption+, simp)+
  qed
qed

lemma readyEvidence_fields:
  assumes "readyEvidence L tr m works refs" and "i < length works"
  shows "ref_Detached (mig_Works m ! i) \<or> ref_Applied (refs ! i) \<and> (\<exists>w. evidence L tr m works i w) \<and>
     (ref_Standalone (mig_Works m ! i) \<longrightarrow> pairEvidence L tr m works (pairNameOf (works ! i)) (refs ! i))"
  using assms by (simp add: readyEvidence_def)

lemma withPhase_reads:
  "mig_meta (withPhase m p t) = mig_meta m" "mig_Spec (withPhase m p t) = mig_Spec m" "mig_Phase (withPhase m p t) = p"
  "mig_Works (withPhase m p t) = mig_Works m" "mst_PlanHash (mig_Status (withPhase m p t)) = mst_PlanHash (mig_Status m)"
  "mst_ObservedGeneration (mig_Status (withPhase m p t)) = om_Generation (mig_meta m)"
  "mst_Message (mig_Status (withPhase m p t)) = t"
  by (simp_all add: withPhase_def)

lemma map_update_same: "f y = f (xs ! i) \<Longrightarrow> map f (xs[i := y]) = map f xs"
  by (cases "i < length xs") (simp_all add: map_update list_update_beyond, metis list_update_id nth_map)

lemma routingIntent_reads:
  "mig_meta (routingIntent i w m) = mig_meta m" "mig_Spec (routingIntent i w m) = mig_Spec m"
  "mig_Phase (routingIntent i w m) = mig_Phase m" "mst_PlanHash (mig_Status (routingIntent i w m)) = mst_PlanHash (mig_Status m)"
  "mig_Works (routingIntent i w m) = (mig_Works m)[i := (mig_Works m ! i)\<lparr> ref_RoutingWorkUID := GetUID w, ref_RoutingGeneration := 2 \<rparr>]"
  by (simp_all add: routingIntent_def updateRef_def)

text \<open>
  C3: \<open>Ready\<close> is never claimed without evidence: when a pass writes it, every Work of the current
  plan was read in that pass, validated, and counted as applied, and every standalone Work had
  its pair ready with the two UIDs that the same write records; only a Work already detached
  by an earlier cleanup needs none.
\<close>

theorem ready_needs_evidence:
  assumes "exec (MigrationReconcile L poll req) (pre @ (StatusPatchCall base (MigrationObj new), r) # post) x"
    and "mig_Phase new = ''Ready''"
  shows "\<exists>m md works. base = MigrationObj m \<and> followed L m md works \<and>
     new = withPhase (set_works (mig_Works new) m) ''Ready'' ''PV application confirmed; cleanup may detach Works'' \<and>
     (\<forall>i<length works. ref_Detached (mig_Works m ! i) \<or>
        ref_Applied (mig_Works new ! i) \<and>
        (\<exists>w. workRead (mig_Works m ! i) w \<in> set pre \<and> validateWork w (works ! i) m = None \<and> workApplied L w) \<and>
        (ref_Standalone (mig_Works m ! i) \<longrightarrow> pairEvidence L pre m works (pairNameOf (works ! i)) (mig_Works new ! i)))"
proof (rule status_write [OF assms(1)])
  fix mb mn
  assume eq: "base = MigrationObj mb" "MigrationObj new = MigrationObj mn" and wr: "statusWrite L req pre mb mn"
  obtain m md works refs where "followed L m md works" and new: "mb = m" "readyEvidence L pre m works refs"
      "new = withPhase (set_works refs m) ''Ready'' ''PV application confirmed; cleanup may detach Works''"
    using wr
  proof (cases rule: statusWrite_cases)
    case (progresses m rest md works refs)
    with assms(2) eq(2) that [of m md works refs] show ?thesis by (auto simp: withPhase_reads)
  qed (use assms(2) eq(2) in \<open>auto simp: phaseWrite_def recordPlan_def migrationDone_def withPhase_reads routingIntent_reads\<close>)
  moreover have "mig_Works new = refs" using new(3) by (simp add: withPhase_reads)
  moreover note readyEvidence_fields [OF new(2), unfolded evidence_def]
  ultimately show ?thesis
    unfolding eq(1) by (intro exI [of _ m] exI [of _ md] exI [of _ works]) simp
qed

lemma demo_ready_write:
  "demoReadyRun = (demoHead demoRecorded @ workReads demoRecorded demoServed) @
     (StatusPatchCall (MigrationObj demoRecorded) (MigrationObj demoReady), Object (MigrationObj demoReady)) # []"
  by (simp add: demoReadyRun_def)

theorem ready_needs_evidence_witness:
  "\<exists>m md works. MigrationObj demoRecorded = MigrationObj m \<and> followed demoLibraries m md works \<and>
     demoReady = withPhase (set_works (mig_Works demoReady) m) ''Ready'' ''PV application confirmed; cleanup may detach Works'' \<and>
     length works = 3"
proof -
  from ready_needs_evidence [OF demo_ready [unfolded demo_ready_write] demoReady_reads(2)] obtain m md works where
    "MigrationObj demoRecorded = MigrationObj m" "followed demoLibraries m md works"
    "demoReady = withPhase (set_works (mig_Works demoReady) m) ''Ready'' ''PV application confirmed; cleanup may detach Works''"
    by blast
  moreover from this have "length works = 3" by (simp add: followed_def demoRecorded_reads demoWorks_length)
  ultimately show ?thesis by blast
qed

text \<open>
  The identity of a request survives every status write of the controller: its metadata and
  spec are those of the object that was read, and once a plan is recorded, the plan hash, the
  number of references, and the name, namespace, kind and \<open>Detached\<close> flag of each of them
  never change again; the first recording writes the hash and the references together.
\<close>

lemma status_keeps_identity:
  assumes "exec (MigrationReconcile L poll req) (pre @ (StatusPatchCall base new, r) # post) x"
  shows "\<exists>m mb mn. hd pre = (GetCall MigrationKind req, Object (MigrationObj m)) \<and> base = MigrationObj mb \<and>
     new = MigrationObj mn \<and> mig_meta mn = mig_meta m \<and> mig_Spec mn = mig_Spec m \<and>
     (if mig_Works m = [] then mig_Works mn = [] \<or> (\<exists>works. mig_Works mn = map workReference works)
      else mst_PlanHash (mig_Status mn) = mst_PlanHash (mig_Status m) \<and>
           map ref_identity (mig_Works mn) = map ref_identity (mig_Works m) \<and>
           map ref_Detached (mig_Works mn) = map ref_Detached (mig_Works m))"
proof (rule status_write [OF assms])
  fix mb mn
  assume eq: "base = MigrationObj mb" "new = MigrationObj mn" and wr: "statusWrite L req pre mb mn"
  have kept: "map ref_identity refs = map ref_identity (mig_Works m)" "map ref_Detached refs = map ref_Detached (mig_Works m)"
    if "list_all2 refProgress (mig_Works m) refs" for m refs
    using that by (auto simp: list_eq_iff_nth_eq list_all2_conv_all_nth refProgress_fields)
  have intent: "map ref_identity (xs[i := (xs ! i)\<lparr> ref_RoutingWorkUID := u, ref_RoutingGeneration := g \<rparr>]) = map ref_identity xs"
    "map ref_Detached (xs[i := (xs ! i)\<lparr> ref_RoutingWorkUID := u, ref_RoutingGeneration := g \<rparr>]) = map ref_Detached xs" for xs i u g
    by (rule map_update_same, simp add: ref_identity_def)+
  from wr show ?thesis
  proof (cases rule: statusWrite_cases)
    case (intends m rest md works refs i w)
    then have "list_all2 refProgress (mig_Works m) refs" "mig_Works m \<noteq> []" by (auto simp: refsProgress_def followed_def)
    with intends eq show ?thesis by (auto simp: routingIntent_reads intent kept)
  next
    case (progresses m rest md works refs)
    then have "list_all2 refProgress (mig_Works m) refs" "mig_Works m \<noteq> []" by (auto simp: refsProgress_def followed_def)
    with progresses eq show ?thesis by (auto simp: withPhase_reads kept)
  qed (use eq in \<open>auto simp: phaseWrite_def recordPlan_def withPhase_reads\<close>)
qed


section \<open>Reaching Ready\<close>



text \<open>
  A request that is \<open>Ready\<close>, \<open>Completed\<close> or being deleted is left alone: the pass is one read.
\<close>

lemma done_requests_left_alone:
  assumes "migrationDone m"
  shows "exec (MigrationReconcile L poll req) ((GetCall MigrationKind req, Object (MigrationObj m)) # tr) x \<longleftrightarrow>
     tr = [] \<and> x = Ok (0, None)"
  using assms by (simp add: MigrationReconcile_def tryM_def getMigration_def call_def ret_def)

definition demoUnfenced :: PVMigration where
  "demoUnfenced = demoMigration\<lparr> mig_Spec := demoSpec\<lparr> ms_SourceFenced := False \<rparr> \<rparr>"

definition demoRefusal :: goerr where
  "demoRefusal = GoError ''sourceFenced must attest that the source workload can no longer write''"

lemma demo_unfenced_fails:
  "exec (validateBinding demoLibraries demoUnfenced demoMetadata) [] (Err demoRefusal)"
  by (simp add: validateBinding_def requestCheck_def demoUnfenced_def demoSpec_def check_def demoRefusal_def)


text \<open>
  A failed gate is reported: the reason goes into the status as \<open>Pending\<close>, unless it is there
  already, nothing else is done, and the pass is repeated after the poll interval.
\<close>

lemma failed_gate_reported:
  assumes "\<not> migrationDone m" and "exec (validateBinding L m md) gate (Err e)"
  shows "exec (MigrationReconcile L poll req)
     ((GetCall MigrationKind req, Object (MigrationObj m)) #
      (GetCall MetadataKind (mig_Namespace m, ms_MetadataRef (mig_Spec m)), Object (MetadataObj md)) # gate @
      (if mig_Status (withPhase m ''Pending'' (error_text e)) = mig_Status m then []
       else [(StatusPatchCall (MigrationObj m) (MigrationObj (withPhase m ''Pending'' (error_text e))), Object (MigrationObj x))]))
     (Ok (delay poll, None))"
proof -
  let ?new = "withPhase m ''Pending'' (error_text e)"
  let ?patch = "if mig_Status ?new = mig_Status m then [] else [(StatusPatchCall (MigrationObj m) (MigrationObj ?new), Object (MigrationObj x))]"
  have "exec (setPhase m ''Pending'' (error_text e)) ?patch (Ok ())"
    by (simp add: setPhase_def exec_typed_callI eq_commute [of "mig_Status m"])
  then have report: "exec (finish (delay poll) (setPhase m ''Pending'' (error_text e))) ?patch (Ok (delay poll, None))"
    by (rule exec_finishI)
  have "exec (MigrationReconcile L poll req)
     ([(GetCall MigrationKind req, Object (MigrationObj m))] @
      [(GetCall MetadataKind (mig_Namespace m, ms_MetadataRef (mig_Spec m)), Object (MetadataObj md))] @ gate @ ?patch)
     (Ok (delay poll, None))"
    unfolding MigrationReconcile_def orReturn_def Let_def
    by (rule exec_tryI, rule exec_typed_callI, simp only: assms(1) if_False,
        rule exec_tryI, rule exec_typed_callI, rule exec_tryI_Err, rule assms(2), rule report)
  then show ?thesis by simp
qed


text \<open>
  C28: No request is lost: a pass over a request that is not finished returns, without panic, and
  asks for another pass after a positive delay, whatever the server answered.
\<close>

theorem unfinished_requests_requeued:
  assumes "documented_libraries L" and "\<not> migrationDone m"
    and "exec (MigrationReconcile L poll req) ((GetCall MigrationKind req, Object (MigrationObj m)) # tr) x"
  shows "(\<exists>e. x = Ok (delay poll, e)) \<and> 0 < delay poll"
proof -
  from migration.outcome [OF assms(3)] have "polledPost poll migrationDone req ((GetCall MigrationKind req, Object (MigrationObj m)) # tr) x" .
  moreover have "x \<noteq> Panic" using documented_libraries.calm_migration [OF assms(1)] assms(3) unfolding calm_def by blast
  ultimately have "\<exists>e. x = Ok (delay poll, e)"
    using assms(2) by (cases x) (auto simp: polledPost_def split: go.splits)
  then show ?thesis by (simp add: delay_def second_def)
qed

theorem unfinished_requests_requeued_witness:
  "\<exists>rest. demoCreateRun = (GetCall MigrationKind demoReq, Object (MigrationObj demoRecorded)) # rest \<and>
     (\<exists>e. Ok (delay 0, None) = (Ok (delay 0, e) :: outcome go)) \<and> 0 < delay 0"
proof -
  obtain rest where rest: "demoCreateRun = (GetCall MigrationKind demoReq, Object (MigrationObj demoRecorded)) # rest"
    by (simp add: demoCreateRun_def demoHead_def)
  from unfinished_requests_requeued [OF demo_documented demoRecorded_reads(4) demo_create [unfolded rest]] rest
  show ?thesis by blast
qed

end
