(* ===== verification/CleanupResults.thy ===== *)
theory CleanupResults
  imports ScenarioRepair PanicFreedom
begin

text \<open>
  The properties of the cleanup controller: what it deletes and under which conditions, what a
  completed request proves, what its status writes leave alone, and that its passes make
  progress; and which of the four controllers can panic, and when.
\<close>

section \<open>Deletions\<close>

text \<open>
  C2: Every deletion is guarded: the request was \<open>Ready\<close> and current when the pass read it, the
  deleted object is a Work of this request that the same pass has read, it is deleted under the
  UID and the resource version of that read, it carries the ownership labels, keeps its
  resources on the member cluster, still proves its volume applied and its binding receipt,
  and, when it was repaired or is standalone, is the Work that the present plan describes.
\<close>

theorem deletions_are_guarded:
  assumes "exec (CleanupReconcile L poll req) (pre @ (DeleteCall obj uid rv, r) # post) x"
  shows "\<exists>m i w. hd pre = (GetCall MigrationKind req, Object (MigrationObj m)) \<and> currentReady m \<and>
     i < length (mig_Works m) \<and> workRead (mig_Works m ! i) w \<in> set pre \<and> obj = UnstructuredObj w \<and>
     uid = GetUID w \<and> rv = GetResourceVersion w \<and> deletable L m (mig_Works m ! i) w \<and>
     (\<not> needsPlan (mig_Works m ! i) \<or>
      (\<exists>md. (GetCall MetadataKind (mig_Namespace m, ms_MetadataRef (mig_Spec m)), Object (MetadataObj md)) \<in> set pre \<and>
         planConfirms L m md (mig_Works m ! i) w))"
proof -
  from cleanup.call_guard [OF assms] obtain m rest i w where
    "pre = (GetCall MigrationKind req, Object (MigrationObj m)) # rest" "currentReady m" "i < length (mig_Works m)"
    "workRead (mig_Works m ! i) w \<in> set pre" "obj = UnstructuredObj w" "uid = GetUID w" "rv = GetResourceVersion w"
    "deletable L m (mig_Works m ! i) w"
    "ref_RoutingWorkUID (mig_Works m ! i) \<noteq> [] \<or> ref_Standalone (mig_Works m ! i) \<longrightarrow>
       (\<exists>md. (GetCall MetadataKind (mig_Namespace m, ms_MetadataRef (mig_Spec m)), Object (MetadataObj md)) \<in> set pre \<and>
          planConfirms L m md (mig_Works m ! i) w)"
    unfolding cleanupGuard_def api_call.case by blast
  then show ?thesis
    unfolding needsPlan_def by (intro exI [of _ m] exI [of _ i] exI [of _ w]) auto
qed

lemma demo_last_deletion:
  "demoDeleteRun = ((GetCall MigrationKind demoReq, Object (MigrationObj demoReady)) #
      deletion demoReady demoMetadata demoServed 0 @ deletion demoReady demoMetadata demoServed 1 @
      [workRead (mig_Works demoReady ! 2) (demoServed ! 2),
       (GetCall MetadataKind (mig_Namespace demoReady, ms_MetadataRef (mig_Spec demoReady)), Object (MetadataObj demoMetadata))]) @
     (DeleteCall (UnstructuredObj (demoServed ! 2)) (GetUID (demoServed ! 2)) (GetResourceVersion (demoServed ! 2)), Done) # []"
  using demoReady_refs(5) [of 2] by (simp add: demoDeleteRun_def deletion_def upt_conv_Cons needsPlan_def numeral_2_eq_2)

theorem deletions_are_guarded_witness:
  "\<exists>i w. UnstructuredObj (demoServed ! 2) = UnstructuredObj w \<and> i < length (mig_Works demoReady) \<and>
     deletable demoLibraries demoReady (mig_Works demoReady ! i) w"
proof -
  from deletions_are_guarded [OF demo_delete [unfolded demo_last_deletion]] obtain m i w where
    "MigrationObj demoReady = MigrationObj m" "UnstructuredObj (demoServed ! 2) = UnstructuredObj w"
    "i < length (mig_Works m)" "deletable demoLibraries m (mig_Works m ! i) w"
    unfolding append_Cons list.sel by blast
  then show ?thesis by blast
qed

section \<open>Status writes\<close>

lemma cleanup_write:
  assumes "exec (CleanupReconcile L poll req) (pre @ (StatusPatchCall base new, r) # post) x"
  obtains m rest m' refs where "pre = (GetCall MigrationKind req, Object (MigrationObj m)) # rest" "currentReady m"
    "base = MigrationObj m" "new = MigrationObj m'" "list_all2 (refDetach pre) (mig_Works m) refs"
    "m' = set_works refs m \<or>
     m' = completedStatus \<lparr> cl_m = set_works refs m, cl_all = True \<rparr> \<and> (\<forall>ref\<in>set refs. ref_Applied ref \<and> ref_Detached ref)"
  using cleanup.call_guard [OF assms] unfolding cleanupGuard_def cleanupWrite_def by auto

lemma completedStatus_reads:
  "mig_meta (completedStatus \<lparr> cl_m = m, cl_all = True \<rparr>) = mig_meta m"
  "mig_Spec (completedStatus \<lparr> cl_m = m, cl_all = True \<rparr>) = mig_Spec m"
  "mig_Works (completedStatus \<lparr> cl_m = m, cl_all = True \<rparr>) = mig_Works m"
  "mig_Phase (completedStatus \<lparr> cl_m = m, cl_all = True \<rparr>) = ''Completed''"
  "mst_PlanHash (mig_Status (completedStatus \<lparr> cl_m = m, cl_all = True \<rparr>)) = mst_PlanHash (mig_Status m)"
  "mst_ObservedGeneration (mig_Status (completedStatus \<lparr> cl_m = m, cl_all = True \<rparr>)) = mst_ObservedGeneration (mig_Status m)"
  by (simp_all add: completedStatus_def)

text \<open>
  C4: \<open>Completed\<close> means gone: when a pass writes it, every recorded Work was applied and either
  was recorded as detached before or was reported absent by the server in this very pass, and
  the write records all of them as detached.
\<close>

theorem completed_means_gone:
  assumes "exec (CleanupReconcile L poll req) (pre @ (StatusPatchCall base (MigrationObj new), r) # post) x"
    and "mig_Phase new = ''Completed''"
  shows "\<exists>m. base = MigrationObj m \<and> currentReady m \<and> length (mig_Works new) = length (mig_Works m) \<and>
     (\<forall>i<length (mig_Works m). ref_Applied (mig_Works m ! i) \<and> ref_Detached (mig_Works new ! i) \<and>
        (ref_Detached (mig_Works m ! i) \<or> workGone pre (mig_Works m ! i)))"
proof (rule cleanup_write [OF assms(1)])
  fix m rest m' refs
  assume ready: "currentReady m" and eq: "base = MigrationObj m" "MigrationObj new = MigrationObj m'"
    and refs: "list_all2 (refDetach pre) (mig_Works m) refs"
    and kinds: "m' = set_works refs m \<or>
     m' = completedStatus \<lparr> cl_m = set_works refs m, cl_all = True \<rparr> \<and> (\<forall>ref\<in>set refs. ref_Applied ref \<and> ref_Detached ref)"
  from ready assms(2) eq(2) have "new \<noteq> set_works refs m" by (auto simp: currentReady_def)
  with kinds eq(2) have works: "mig_Works new = refs" and all: "\<forall>ref\<in>set refs. ref_Applied ref \<and> ref_Detached ref"
    by (auto simp: completedStatus_reads)
  have "ref_Applied (mig_Works m ! i) \<and> ref_Detached (refs ! i) \<and> (ref_Detached (mig_Works m ! i) \<or> workGone pre (mig_Works m ! i))"
    if i: "i < length (mig_Works m)" for i
  proof -
    have step: "refDetach pre (mig_Works m ! i) (refs ! i)" using refs i by (rule list_all2_nthD)
    have "refs ! i \<in> set refs" using refs i by (simp add: list_all2_lengthD [symmetric])
    with all step show ?thesis by (auto simp: refDetach_def)
  qed
  with ready eq(1) works refs show ?thesis by (intro exI [of _ m]) (simp add: list_all2_lengthD)
qed

lemma demo_completion:
  "demoCompleteRun = ((GetCall MigrationKind demoReq, Object (MigrationObj demoReady)) # map goneRead (mig_Works demoReady)) @
     (StatusPatchCall (MigrationObj demoReady) (MigrationObj (completedMigration demoReady)), Object (MigrationObj demoReady)) # []"
  by (simp add: demoCompleteRun_def)

theorem completed_means_gone_witness:
  "ref_Detached (mig_Works (completedMigration demoReady) ! 2) \<and>
   workGone ((GetCall MigrationKind demoReq, Object (MigrationObj demoReady)) # map goneRead (mig_Works demoReady)) (mig_Works demoReady ! 2)"
proof -
  have "mig_Phase (completedMigration demoReady) = ''Completed''" by (simp add: completedMigration_def completedStatus_reads)
  from completed_means_gone [OF demo_complete [unfolded demo_completion] this] obtain m where
    "MigrationObj demoReady = MigrationObj m" and all: "\<forall>i<length (mig_Works m).
        ref_Applied (mig_Works m ! i) \<and> ref_Detached (mig_Works (completedMigration demoReady) ! i) \<and>
        (ref_Detached (mig_Works m ! i) \<or>
         workGone ((GetCall MigrationKind demoReq, Object (MigrationObj demoReady)) # map goneRead (mig_Works demoReady)) (mig_Works m ! i))"
    by blast
  then have "m = demoReady" by simp
  with all [rule_format, of 2] demoReady_refs(2) [of 2] demoReady_reads(3) show ?thesis by simp
qed

text \<open>
  C22: The cleanup writes only what it has done: its status writes keep the metadata, the spec,
  the plan hash and the observed generation of the request and every reference as it is, but
  for the \<open>Detached\<close> flag, which is only ever raised; and it neither creates nor edits objects.
\<close>

theorem cleanup_keeps_records:
  assumes "exec (CleanupReconcile L poll req) (pre @ (c, r) # post) x"
  shows "(case c of
      StatusPatchCall base new \<Rightarrow>
        (\<exists>m n. base = MigrationObj m \<and> new = MigrationObj n \<and> mig_meta n = mig_meta m \<and> mig_Spec n = mig_Spec m \<and>
           mst_PlanHash (mig_Status n) = mst_PlanHash (mig_Status m) \<and>
           mst_ObservedGeneration (mig_Status n) = mst_ObservedGeneration (mig_Status m) \<and>
           (mig_Phase n = mig_Phase m \<or> mig_Phase n = ''Completed'') \<and>
           list_all2 (\<lambda>old new. new = old \<or> new = markDetached old) (mig_Works m) (mig_Works n))
    | CreateCall _ \<Rightarrow> False | PatchCall _ _ \<Rightarrow> False | ListMigrations _ \<Rightarrow> False | NowCall \<Rightarrow> False
    | GetCall _ _ \<Rightarrow> True | DeleteCall _ _ _ \<Rightarrow> True)"
proof (cases c)
  case (StatusPatchCall base new)
  show ?thesis
  proof (rule cleanup_write [OF assms [unfolded StatusPatchCall]])
    fix m rest m' refs
    assume eq: "base = MigrationObj m" "new = MigrationObj m'" and refs: "list_all2 (refDetach pre) (mig_Works m) refs"
      and kinds: "m' = set_works refs m \<or>
        m' = completedStatus \<lparr> cl_m = set_works refs m, cl_all = True \<rparr> \<and> (\<forall>ref\<in>set refs. ref_Applied ref \<and> ref_Detached ref)"
    from refs have "list_all2 (\<lambda>old new. new = old \<or> new = markDetached old) (mig_Works m) refs"
      by (rule list_all2_mono) (auto simp: refDetach_def markDetached_def)
    with kinds eq show ?thesis unfolding StatusPatchCall by (elim disjE) (simp_all add: completedStatus_reads)
  qed
qed (use cleanup.call_guard [OF assms] in \<open>simp_all add: cleanupGuard_def\<close>)

theorem cleanup_keeps_records_witness:
  "\<exists>m n. MigrationObj demoReady = MigrationObj m \<and> MigrationObj (completedMigration demoReady) = MigrationObj n \<and>
     mig_meta n = mig_meta m \<and> mst_PlanHash (mig_Status n) = mst_PlanHash (mig_Status m) \<and>
     list_all2 (\<lambda>old new. new = old \<or> new = markDetached old) (mig_Works m) (mig_Works n)"
  using cleanup_keeps_records [OF demo_complete [unfolded demo_completion]] by auto

section \<open>Progress\<close>

text \<open>
  C24: Deletion is reached: when every recorded Work of a current \<open>Ready\<close> request is found as it
  was applied, and the plan still describes those that need it, the pass reads each Work, asks
  for the deletion of all of them and comes back after the poll interval without an error.
\<close>

theorem ready_requests_delete:
  assumes "currentReady m"
    and "\<And>i. i < length (mig_Works m) \<Longrightarrow> deletable L m (mig_Works m ! i) (ws ! i)"
    and "\<And>i. i < length (mig_Works m) \<Longrightarrow> needsPlan (mig_Works m ! i) \<Longrightarrow>
       planStillMatches L m md (mig_Works m ! i) (ws ! i) = Ok ()"
  shows "\<exists>tr. exec (CleanupReconcile L poll req) ((GetCall MigrationKind req, Object (MigrationObj m)) # tr) (Ok (delay poll, None)) \<and>
     (\<forall>i<length (mig_Works m).
        (DeleteCall (UnstructuredObj (ws ! i)) (GetUID (ws ! i)) (GetResourceVersion (ws ! i)), Done) \<in> set tr)"
proof (intro exI conjI allI impI)
  show "exec (CleanupReconcile L poll req)
     ((GetCall MigrationKind req, Object (MigrationObj m)) # concat (map (deletion m md ws) [0..<length (mig_Works m)]))
     (Ok (delay poll, None))"
    by (rule pass_deletes [OF assms])
next
  fix i
  assume "i < length (mig_Works m)"
  then show "(DeleteCall (UnstructuredObj (ws ! i)) (GetUID (ws ! i)) (GetResourceVersion (ws ! i)), Done) \<in>
      set (concat (map (deletion m md ws) [0..<length (mig_Works m)]))"
    unfolding set_concat set_map set_upt by (intro UN_I [of "deletion m md ws i"] imageI) (simp_all add: deletion_def)
qed

theorem ready_requests_delete_witness:
  "\<exists>tr. exec (CleanupReconcile demoLibraries 0 demoReq)
     ((GetCall MigrationKind demoReq, Object (MigrationObj demoReady)) # tr) (Ok (delay 0, None)) \<and>
     (DeleteCall (UnstructuredObj (demoServed ! 2)) (GetUID (demoServed ! 2)) (GetResourceVersion (demoServed ! 2)), Done) \<in> set tr"
proof -
  have "\<And>i. i < length (mig_Works demoReady) \<Longrightarrow> deletable demoLibraries demoReady (mig_Works demoReady ! i) (demoServed ! i)"
    "\<And>i. i < length (mig_Works demoReady) \<Longrightarrow> needsPlan (mig_Works demoReady ! i) \<Longrightarrow>
       planStillMatches demoLibraries demoReady demoMetadata (mig_Works demoReady ! i) (demoServed ! i) = Ok ()"
    using demo_deletable demo_still_matches demoReady_reads(3) by simp_all
  from ready_requests_delete [OF demoReady_current this, of 0 demoReq] demoReady_reads(3) show ?thesis by auto
qed

text \<open>
  Completion is reached: when the server reports every recorded Work of a current \<open>Ready\<close>
  request as absent, the pass writes \<open>Completed\<close> with every Work detached.
\<close>

lemma gone_works_complete:
  assumes "currentReady m" and "\<forall>ref\<in>set (mig_Works m). ownedRef m ref"
  shows "exec (CleanupReconcile L poll req)
     ((GetCall MigrationKind req, Object (MigrationObj m)) # map goneRead (mig_Works m) @
      [(StatusPatchCall (MigrationObj m) (MigrationObj (completedMigration m)), Object (MigrationObj stored))])
     (Ok (delay poll, None)) \<and>
    mig_Phase (completedMigration m) = ''Completed'' \<and> mig_Works (completedMigration m) = map markDetached (mig_Works m)"
  using pass_completes [OF assms(1)] assms(2) by (simp add: completedMigration_def completedStatus_reads)

section \<open>Panics\<close>

text \<open>
  C27: The controllers can panic in one place only.  From the documented behaviour of the libraries,
  no trace of the three management controllers ends in a panic, whatever objects and errors the
  API server answers with.  The member controller panics exactly after it has read, for metadata
  of its own cluster, a StatefulSet with replicas and claims for which the number of templates
  times the number of replicas is more than the runtime accepts as the capacity of a slice.
\<close>

theorem panics_only_on_capacity:
  assumes "documented_libraries L"
  shows "\<not> exec (MigrationReconcile L poll req) tr Panic \<and> \<not> exec (CleanupReconcile L poll req) tr Panic \<and>
     \<not> exec (DiscoveryReconcile L poll req) tr Panic \<and>
     (exec (MemberReconcile L clusterName poll req) tr Panic \<longleftrightarrow>
        (\<exists>md sts. tr = [(GetCall MetadataKind req, Object (MetadataObj md)),
             (GetCall StatefulSetKind (om_Namespace (md_meta md), wr_Name (mds_WorkloadRef (md_Spec md))),
                Object (StatefulSetObj sts))] \<and>
           mds_SourceCluster (md_Spec md) = clusterName \<and> wr_Name (mds_WorkloadRef (md_Spec md)) \<noteq> [] \<and>
           0 < sint (stsReplicas sts) \<and> (sts_VolumeClaimTemplates sts \<noteq> [] \<or> Standalone L sts \<noteq> []) \<and>
           \<not> (0 \<le> volumesCapacity sts \<and> volumesCapacity sts \<le> lib_MaxVolumes L)))"
proof (intro conjI)
  show "\<not> exec (MigrationReconcile L poll req) tr Panic"
    using documented_libraries.calm_migration [OF assms] by (simp add: calm_def)
  show "\<not> exec (CleanupReconcile L poll req) tr Panic"
    using documented_libraries.calm_cleanup [OF assms] by (simp add: calm_def)
  show "\<not> exec (DiscoveryReconcile L poll req) tr Panic"
    using discovery.outcome [of L poll req tr Panic] by (auto simp: discoveryPost_def)
qed (simp only: member_Panic workloadRead_def volumesFit_def)

text \<open>A workload of 256 templates and the largest number of replicas, past the capacity of the scenario.\<close>

definition hugeWorkload :: StatefulSet where
  "hugeWorkload = demoWorkload\<lparr> sts_Replicas := Some (word_of_int (2 ^ 31 - 1)),
     sts_VolumeClaimTemplates := replicate 256 ''data'' \<rparr>"

theorem panics_only_on_capacity_witness:
  "exec (MemberReconcile demoLibraries ''a'' 0 (''n'', ''md''))
     [(GetCall MetadataKind (''n'', ''md''), Object (MetadataObj demoMetadata)),
      (GetCall StatefulSetKind (''n'', ''db''), Object (StatefulSetObj hugeWorkload))] Panic \<and>
   \<not> exec (CleanupReconcile demoLibraries 0 demoReq) demoCompleteRun Panic"
proof
  have replicas: "sint (stsReplicas hugeWorkload) = 2 ^ 31 - 1"
    by (simp add: hugeWorkload_def stsReplicas_def)
  have templates: "length (sts_VolumeClaimTemplates hugeWorkload) = 256" "sts_VolumeClaimTemplates hugeWorkload \<noteq> []"
    by (simp_all add: hugeWorkload_def)
  have "volumesCapacity hugeWorkload = 256 * (2 ^ 31 - 1)"
    using volumesCapacity_exact [of hugeWorkload] by (simp add: replicas templates)
  then have "\<not> (0 \<le> volumesCapacity hugeWorkload \<and> volumesCapacity hugeWorkload \<le> lib_MaxVolumes demoLibraries)"
    by simp
  moreover have "om_Namespace (md_meta demoMetadata) = ''n''" "wr_Name (mds_WorkloadRef (md_Spec demoMetadata)) = ''db''"
    "mds_SourceCluster (md_Spec demoMetadata) = ''a''"
    by (simp_all add: demo_defs)
  ultimately show "exec (MemberReconcile demoLibraries ''a'' 0 (''n'', ''md''))
     [(GetCall MetadataKind (''n'', ''md''), Object (MetadataObj demoMetadata)),
      (GetCall StatefulSetKind (''n'', ''db''), Object (StatefulSetObj hugeWorkload))] Panic"
    using panics_only_on_capacity [OF demo_documented, THEN conjunct2, THEN conjunct2, THEN conjunct2, THEN iffD2] replicas templates(2)
    by simp
  show "\<not> exec (CleanupReconcile demoLibraries 0 demoReq) demoCompleteRun Panic"
    using panics_only_on_capacity [OF demo_documented] by blast
qed

end
