(* ===== verification/World.thy ===== *)
theory World
  imports Manager MigrationResults CleanupResults
begin

text \<open>
  The controllers together: the life of one stored request under any interleaving of their
  passes, of user edits and of crashes.  The state is the history of the stored object, newest
  version first.  A pass may have read any version of the history, so its cache may be stale;
  its status patch is applied only if the resource version it was computed from is the current
  one (the optimistic lock), field by field as a merge patch.  A pass that is cut off by a crash
  after the patch is a prefix of a whole one, so it is covered.  The status is written by the
  controllers only; everything else of the object but its identity may be edited at any time.
\<close>

section \<open>The stored object\<close>

type_synonym history = "PVMigration list"

definition versions :: "history \<Rightarrow> string set" where
  "versions h = (\<lambda>m. om_ResourceVersion (mig_meta m)) ` set h"

definition withVersion :: "string \<Rightarrow> PVMigration \<Rightarrow> PVMigration" where
  "withVersion rv m = m\<lparr> mig_meta := (mig_meta m)\<lparr> om_ResourceVersion := rv \<rparr> \<rparr>"

text \<open>The merge patch from \<open>base\<close> to \<open>new\<close>, applied to the stored status.\<close>

definition mergeField :: "'a \<Rightarrow> 'a \<Rightarrow> 'a \<Rightarrow> 'a" where
  "mergeField base new stored = (if base = new then stored else new)"

definition mergeStatus :: "PVMigrationStatus \<Rightarrow> PVMigrationStatus \<Rightarrow> PVMigrationStatus \<Rightarrow> PVMigrationStatus" where
  "mergeStatus base new stored =
     \<lparr> mst_ObservedGeneration =
         mergeField (mst_ObservedGeneration base) (mst_ObservedGeneration new) (mst_ObservedGeneration stored),
       mst_Phase = mergeField (mst_Phase base) (mst_Phase new) (mst_Phase stored),
       mst_Message = mergeField (mst_Message base) (mst_Message new) (mst_Message stored),
       mst_PlanHash = mergeField (mst_PlanHash base) (mst_PlanHash new) (mst_PlanHash stored),
       mst_Works = mergeField (mst_Works base) (mst_Works new) (mst_Works stored) \<rparr>"

definition patched :: "string \<Rightarrow> PVMigration \<Rightarrow> PVMigration \<Rightarrow> PVMigration \<Rightarrow> PVMigration" where
  "patched rv base new stored =
     withVersion rv (stored\<lparr> mig_Status := mergeStatus (mig_Status base) (mig_Status new) (mig_Status stored) \<rparr>)"

definition emptyMigrationStatus :: PVMigrationStatus where
  "emptyMigrationStatus = \<lparr> mst_ObservedGeneration = 0, mst_Phase = [], mst_Message = [], mst_PlanHash = [], mst_Works = [] \<rparr>"

section \<open>Steps\<close>

definition readsHistory :: "namespaced_name \<Rightarrow> trace \<Rightarrow> history \<Rightarrow> bool" where
  "readsHistory req tr h \<longleftrightarrow> (\<forall>m. (GetCall MigrationKind req, Object (MigrationObj m)) \<in> set tr \<longrightarrow> m \<in> set h)"

inductive worldStep :: "libraries \<Rightarrow> namespaced_name \<Rightarrow> history \<Rightarrow> history \<Rightarrow> bool" for L req where
  status_patch: "exec (reconcilerProgram L r req) (pre @ (StatusPatchCall (MigrationObj base) (MigrationObj new), Object obj) # post) x \<Longrightarrow>
     readsHistory req pre (cur # h) \<Longrightarrow>
     om_ResourceVersion (mig_meta base) = om_ResourceVersion (mig_meta cur) \<Longrightarrow> rv \<notin> versions (cur # h) \<Longrightarrow>
     worldStep L req (cur # h) (patched rv base new cur # cur # h)"
| edit: "mig_Status new = mig_Status cur \<Longrightarrow> mig_UID new = mig_UID cur \<Longrightarrow> mig_Name new = mig_Name cur \<Longrightarrow>
     mig_Namespace new = mig_Namespace cur \<Longrightarrow> om_ResourceVersion (mig_meta new) \<notin> versions (cur # h) \<Longrightarrow>
     worldStep L req (cur # h) (new # cur # h)"

inductive reachable :: "libraries \<Rightarrow> namespaced_name \<Rightarrow> history \<Rightarrow> bool" for L req where
  fresh: "mig_Status m = emptyMigrationStatus \<Longrightarrow> reachable L req [m]"
| step: "reachable L req h \<Longrightarrow> worldStep L req h h' \<Longrightarrow> reachable L req h'"

section \<open>What one step does to the status\<close>

definition open_phase :: "PVMigrationStatus \<Rightarrow> bool" where
  "open_phase s \<longleftrightarrow> mst_Phase s \<noteq> ''Ready'' \<and> mst_Phase s \<noteq> ''Completed''"

definition keepsRef :: "WorkReference \<Rightarrow> WorkReference \<Rightarrow> bool" where
  "keepsRef old new \<longleftrightarrow> ref_identity new = ref_identity old \<and> ref_Detached new = ref_Detached old"

definition detachesRef :: "WorkReference \<Rightarrow> WorkReference \<Rightarrow> bool" where
  "detachesRef old new \<longleftrightarrow> new = old \<or> new = markDetached old"

inductive statusStep :: "PVMigrationStatus \<Rightarrow> PVMigrationStatus \<Rightarrow> bool" where
  unchanged: "statusStep s s"
| reported: "open_phase s \<Longrightarrow> mst_Phase s' = ''Pending'' \<or> mst_Phase s' = ''Failed'' \<Longrightarrow>
     mst_PlanHash s' = mst_PlanHash s \<Longrightarrow> mst_Works s' = mst_Works s \<Longrightarrow> statusStep s s'"
| recorded: "open_phase s \<Longrightarrow> mst_Works s = [] \<Longrightarrow> mst_Phase s' = ''Preparing'' \<Longrightarrow>
     mst_Works s' = map workReference works \<Longrightarrow> statusStep s s'"
| progressed: "open_phase s \<Longrightarrow> mst_Works s \<noteq> [] \<Longrightarrow> mst_PlanHash s' = mst_PlanHash s \<Longrightarrow>
     list_all2 keepsRef (mst_Works s) (mst_Works s') \<Longrightarrow> mst_Phase s' = mst_Phase s \<or> mst_Phase s' = ''Preparing'' \<Longrightarrow>
     statusStep s s'"
| readied: "open_phase s \<Longrightarrow> mst_Works s \<noteq> [] \<Longrightarrow> mst_PlanHash s' = mst_PlanHash s \<Longrightarrow>
     list_all2 keepsRef (mst_Works s) (mst_Works s') \<Longrightarrow> mst_Phase s' = ''Ready'' \<Longrightarrow>
     list_all2 (\<lambda>old new. ref_Detached old \<or> ref_Applied new) (mst_Works s) (mst_Works s') \<Longrightarrow> statusStep s s'"
| detached: "mst_Phase s = ''Ready'' \<Longrightarrow> mst_PlanHash s' = mst_PlanHash s \<Longrightarrow>
     list_all2 detachesRef (mst_Works s) (mst_Works s') \<Longrightarrow> mst_Phase s' = ''Ready'' \<Longrightarrow> statusStep s s'"
| completed: "mst_Phase s = ''Ready'' \<Longrightarrow> mst_PlanHash s' = mst_PlanHash s \<Longrightarrow>
     list_all2 detachesRef (mst_Works s) (mst_Works s') \<Longrightarrow> mst_Phase s' = ''Completed'' \<Longrightarrow>
     list_all (\<lambda>ref. ref_Applied ref \<and> ref_Detached ref) (mst_Works s') \<Longrightarrow> statusStep s s'"

inductive_cases statusStepE: "statusStep s s'"

lemma completed_frozen: "statusStep s s' \<Longrightarrow> mst_Phase s = ''Completed'' \<Longrightarrow> s' = s"
  by (erule statusStepE) (simp_all add: open_phase_def)

text \<open>A patch computed from the stored object leads to its target, but for the version.\<close>

lemma mergeField_same [simp]: "mergeField base new base = new"
  by (simp add: mergeField_def)

lemma mergeStatus_same [simp]: "mergeStatus base new base = new"
  by (simp add: mergeStatus_def)

lemma migrationDone_open: "\<not> migrationDone m \<Longrightarrow> open_phase (mig_Status m)"
  by (simp add: migrationDone_def open_phase_def)

lemma refProgress_keeps: "list_all2 refProgress xs ys \<Longrightarrow> list_all2 keepsRef xs ys"
  by (erule list_all2_mono) (simp add: refProgress_def keepsRef_def)

lemma keepsRef_intent: "list_all2 keepsRef xs ys \<Longrightarrow>
    list_all2 keepsRef xs (ys[i := (ys ! i)\<lparr> ref_RoutingWorkUID := u, ref_RoutingGeneration := g \<rparr>])"
  by (cases "i < length ys") (auto simp: list_all2_conv_all_nth nth_list_update list_update_beyond keepsRef_def ref_identity_def)

lemma migration_patch:
  assumes written: "statusWrite L req pre base new" and read: "readsHistory req pre (cur # h)"
    and locked: "om_ResourceVersion (mig_meta base) = om_ResourceVersion (mig_meta cur)"
    and versions: "inj_on (\<lambda>m. om_ResourceVersion (mig_meta m)) (set (cur # h))"
  shows "statusStep (mig_Status cur) (mig_Status (patched rv base new cur))"
proof -
  have is_cur: "m = cur" if "pre = (GetCall MigrationKind req, Object (MigrationObj m)) # rest" "mig_meta base = mig_meta m" for m rest
  proof -
    have "m \<in> set (cur # h)" using read that(1) by (simp add: readsHistory_def)
    with versions locked that(2) show ?thesis by (metis inj_onD list.set_intros(1))
  qed
  from written show ?thesis
  proof (cases rule: statusWrite_cases)
    case (phased m rest)
    with is_cur have m: "base = cur" by simp
    with phased migrationDone_open show ?thesis
      by (auto simp: m patched_def withVersion_def phaseWrite_def withPhase_def intro!: reported)
  next
    case (records m rest md works hash)
    with is_cur have m: "base = cur" by simp
    with records migrationDone_open show ?thesis
      by (auto simp: m patched_def withVersion_def recordPlan_def withPhase_def intro!: recorded)
  next
    case (intends m rest md works refs i w)
    with is_cur have m: "m = cur" by simp
    from intends have refs: "list_all2 keepsRef (mig_Works m) refs" "mig_Works m \<noteq> []"
      by (auto simp: refsProgress_def followed_def intro: refProgress_keeps)
    let ?s' = "mig_Status (patched rv base new cur)"
    have "mst_Phase ?s' = mig_Phase cur" "mst_PlanHash ?s' = mst_PlanHash (mig_Status cur)"
      using intends(6,7) by (simp_all add: m patched_def withVersion_def mergeStatus_def mergeField_def routingIntent_reads)
    moreover have "mst_Works ?s' = mig_Works cur \<or> mst_Works ?s' = mig_Works new"
      by (simp add: patched_def withVersion_def mergeStatus_def mergeField_def)
    moreover have "list_all2 keepsRef (mig_Works cur) (mig_Works new)"
      using intends(6,7) refs(1) by (simp add: m routingIntent_reads keepsRef_intent)
    moreover have "list_all2 keepsRef (mig_Works cur) (mig_Works cur)" by (simp add: keepsRef_def list.rel_refl)
    ultimately show ?thesis
      using intends(2) refs(2) m migrationDone_open by (intro progressed) auto
  next
    case (progresses m rest md works refs)
    with is_cur have m: "m = cur" "base = cur" by simp_all
    from progresses have refs: "list_all2 keepsRef (mig_Works m) refs" "mig_Works m \<noteq> []" "length works = length (mig_Works m)"
      "length refs = length (mig_Works m)"
      by (auto simp: refsProgress_def followed_def intro: refProgress_keeps dest: list_all2_lengthD)
    have st: "mig_Status (patched rv base new cur) = mig_Status new" by (simp add: patched_def withVersion_def m)
    from progresses(7) show ?thesis
    proof (elim disjE conjE)
      assume "new = withPhase (set_works refs m) ''Preparing'' ''Waiting for Applied Work and reflected Available/Bound PV''"
      then show ?thesis
        unfolding st using refs m progresses(2) migrationDone_open by (intro progressed) (auto simp: withPhase_reads)
    next
      assume new: "new = withPhase (set_works refs m) ''Ready'' ''PV application confirmed; cleanup may detach Works''"
        and ev: "readyEvidence L pre m works refs"
      have "list_all2 (\<lambda>old new. ref_Detached old \<or> ref_Applied new) (mig_Works m) refs"
        unfolding list_all2_conv_all_nth using readyEvidence_fields [OF ev] refs(3,4) by auto
      then show ?thesis
        unfolding st using refs m new progresses(2) migrationDone_open by (intro readied) (auto simp: withPhase_reads)
    qed
  qed
qed

lemma refDetach_detaches: "list_all2 (refDetach tr) xs ys \<Longrightarrow> list_all2 detachesRef xs ys"
  by (erule list_all2_mono) (auto simp: refDetach_def detachesRef_def markDetached_def)

lemma cleanup_patch:
  assumes run: "exec (CleanupReconcile L poll req) (pre @ (StatusPatchCall (MigrationObj base) (MigrationObj new), r) # post) x"
    and read: "readsHistory req pre (cur # h)"
    and locked: "om_ResourceVersion (mig_meta base) = om_ResourceVersion (mig_meta cur)"
    and versions: "inj_on (\<lambda>m. om_ResourceVersion (mig_meta m)) (set (cur # h))"
  shows "statusStep (mig_Status cur) (mig_Status (patched rv base new cur))"
proof (rule cleanup_write [OF run])
  fix m rest m' refs
  assume pre: "pre = (GetCall MigrationKind req, Object (MigrationObj m)) # rest" and ready: "currentReady m"
    and eq: "MigrationObj base = MigrationObj m" "MigrationObj new = MigrationObj m'"
    and refs: "list_all2 (refDetach pre) (mig_Works m) refs"
    and kinds: "m' = set_works refs m \<or>
      m' = completedStatus \<lparr> cl_m = set_works refs m, cl_all = True \<rparr> \<and> (\<forall>ref\<in>set refs. ref_Applied ref \<and> ref_Detached ref)"
  have "m \<in> set (cur # h)" using read pre by (simp add: readsHistory_def)
  with versions locked eq(1) have m: "m = cur" by (metis api_object.inject(1) inj_onD list.set_intros(1))
  then have st: "mig_Status (patched rv base new cur) = mig_Status m'" using eq by (simp add: patched_def withVersion_def)
  have det: "list_all2 detachesRef (mig_Works cur) refs" using refs m by (simp add: refDetach_detaches)
  have phase: "mig_Phase cur = ''Ready''" using ready m by (simp add: currentReady_def)
  from kinds show ?thesis
  proof (elim disjE conjE)
    assume "m' = set_works refs m"
    then show ?thesis unfolding st using det phase m by (intro detached) simp_all
  next
    assume "m' = completedStatus \<lparr> cl_m = set_works refs m, cl_all = True \<rparr>" "\<forall>ref\<in>set refs. ref_Applied ref \<and> ref_Detached ref"
    then show ?thesis unfolding st using det phase m by (intro completed) (simp_all add: completedStatus_reads list_all_iff)
  qed
qed

text \<open>The other two controllers never patch a request.\<close>

lemma no_other_patch:
  "\<not> exec (DiscoveryReconcile L poll req) (pre @ (StatusPatchCall base new, r) # post) x"
  "\<not> exec (MemberReconcile L clusterName poll req) (pre @ (StatusPatchCall (MigrationObj m) new, r) # post) x"
  using discovery.call_guard [of L poll req pre "StatusPatchCall base new" r post x]
    member.call_guard [of L clusterName poll req pre "StatusPatchCall (MigrationObj m) new" r post x]
  by (auto simp: discoveryGuard_def memberGuard_def)

lemma worldStep_status:
  assumes "worldStep L req h h'" and "inj_on (\<lambda>m. om_ResourceVersion (mig_meta m)) (set h)"
  obtains cur t new where "h = cur # t" "h' = new # cur # t" "om_ResourceVersion (mig_meta new) \<notin> versions h"
    "statusStep (mig_Status cur) (mig_Status new)"
  using assms
proof (induction rule: worldStep.induct)
  case (status_patch r pre base new obj post x cur h rv)
  have "statusStep (mig_Status cur) (mig_Status (patched rv base new cur))"
  proof (cases r)
    case (PVMigrationReconciler poll)
    with status_patch(1) have run: "exec (MigrationReconcile L poll req)
        (pre @ (StatusPatchCall (MigrationObj base) (MigrationObj new), Object obj) # post) x" by (simp add: reconcilerProgram_def)
    show ?thesis
    proof (rule status_write [OF run])
      fix mb mn
      assume "MigrationObj base = MigrationObj mb" "MigrationObj new = MigrationObj mn" "statusWrite L req pre mb mn"
      with status_patch show ?thesis by (intro migration_patch) simp_all
    qed
  next
    case (PVCleanupReconciler poll)
    with status_patch show ?thesis by (intro cleanup_patch) (simp_all add: reconcilerProgram_def)
  qed (use status_patch(1) no_other_patch in \<open>auto simp: reconcilerProgram_def\<close>)
  with status_patch show ?case by (simp add: patched_def withVersion_def)
next
  case (edit new cur h)
  then show ?case using statusStep.unchanged by metis
qed

lemma reachable_versions: "reachable L req h \<Longrightarrow> inj_on (\<lambda>m. om_ResourceVersion (mig_meta m)) (set h) \<and> h \<noteq> []"
proof (induction rule: reachable.induct)
  case (step h h')
  then have inj: "inj_on (\<lambda>m. om_ResourceVersion (mig_meta m)) (set h)" by simp
  from worldStep_status [OF step.hyps(2) this] obtain cur t new where
    "h = cur # t" "h' = new # cur # t" "om_ResourceVersion (mig_meta new) \<notin> versions h" .
  with inj show ?case by (auto simp: versions_def)
qed simp

text \<open>Rule induction over the versions of a reachable history.\<close>

lemma reachable_status_induct [consumes 1, case_names fresh step]:
  assumes "reachable L req h"
    and "\<And>m. mig_Status m = emptyMigrationStatus \<Longrightarrow> P [m]"
    and "\<And>cur t new. reachable L req (cur # t) \<Longrightarrow> P (cur # t) \<Longrightarrow> statusStep (mig_Status cur) (mig_Status new) \<Longrightarrow> P (new # cur # t)"
  shows "P h"
  using assms(1)
proof (induction rule: reachable.induct)
  case (fresh m)
  then show ?case by (rule assms(2))
next
  case (step h h')
  then have "inj_on (\<lambda>m. om_ResourceVersion (mig_meta m)) (set h)" using reachable_versions by blast
  from worldStep_status [OF step.hyps(2) this] obtain cur t new where
    "h = cur # t" "h' = new # cur # t" "statusStep (mig_Status cur) (mig_Status new)" .
  with step assms(3) show ?case by blast
qed

end
