(* ===== verification/WorldResults.thy ===== *)
theory WorldResults
  imports World
begin

text \<open>
  The properties of the system of controllers over the life of one request: what is recorded
  once never changes, the phases mean what they say at every moment, the controllers refine an
  abstract life cycle, and a detached Work is never created again.
\<close>

section \<open>One step\<close>

definition successorRef :: "WorkReference \<Rightarrow> WorkReference \<Rightarrow> bool" where
  "successorRef old new \<longleftrightarrow> ref_identity new = ref_identity old \<and> (ref_Detached old \<longrightarrow> ref_Detached new)"

lemma successorRef_steps:
  "list_all2 keepsRef xs ys \<Longrightarrow> list_all2 successorRef xs ys" "list_all2 detachesRef xs ys \<Longrightarrow> list_all2 successorRef xs ys"
  by (erule list_all2_mono; auto simp: keepsRef_def detachesRef_def markDetached_def successorRef_def)+

lemma successorRef_refl [simp]: "list_all2 successorRef xs xs"
  by (simp add: list.rel_refl successorRef_def)

text \<open>\<open>later old new\<close>: what a later version owes to an earlier one.\<close>

definition later :: "PVMigrationStatus \<Rightarrow> PVMigrationStatus \<Rightarrow> bool" where
  "later old new \<longleftrightarrow>
     (mst_Works old \<noteq> [] \<longrightarrow>
        mst_PlanHash new = mst_PlanHash old \<and>
        list_all2 successorRef (mst_Works old) (mst_Works new)) \<and>
     (\<not> open_phase old \<longrightarrow> \<not> open_phase new) \<and>
     (mst_Phase old = ''Completed'' \<longrightarrow> new = old)"

definition phaseMeans :: "PVMigrationStatus \<Rightarrow> bool" where
  "phaseMeans s \<longleftrightarrow>
     (if mst_Phase s = ''Completed'' then mst_Works s \<noteq> [] \<and> list_all (\<lambda>ref. ref_Applied ref \<and> ref_Detached ref) (mst_Works s)
      else if mst_Phase s = ''Ready'' then mst_Works s \<noteq> [] \<and> list_all ref_Applied (mst_Works s)
      else list_all (\<lambda>ref. \<not> ref_Detached ref) (mst_Works s))"

lemma keeps_Detached: "list_all2 keepsRef xs ys \<Longrightarrow> list_all (\<lambda>ref. \<not> ref_Detached ref) ys = list_all (\<lambda>ref. \<not> ref_Detached ref) xs"
  by (induction rule: list_all2_induct) (auto simp: keepsRef_def)

lemma detaches_Applied: "list_all2 detachesRef xs ys \<Longrightarrow> list_all ref_Applied ys = list_all ref_Applied xs"
  by (induction rule: list_all2_induct) (auto simp: detachesRef_def markDetached_def)

lemma step_phaseMeans:
  assumes "statusStep s s'" and "phaseMeans s"
  shows "phaseMeans s'"
  using assms
proof (induction rule: statusStep.induct)
  case (readied s s')
  have "list_all ref_Applied (mst_Works s')"
  proof -
    have "list_all (\<lambda>ref. \<not> ref_Detached ref) (mst_Works s)" using readied by (simp add: phaseMeans_def open_phase_def)
    with readied(6) show ?thesis by (induction rule: list_all2_induct) auto
  qed
  with readied show ?case by (auto simp: phaseMeans_def)
next
  case (detached s s')
  with detaches_Applied [OF detached(3)] show ?case by (auto simp: phaseMeans_def)
next
  case (completed s s')
  then show ?case by (auto simp: phaseMeans_def)
next
  case (progressed s s')
  with keeps_Detached [OF progressed(4)] show ?case by (auto simp: phaseMeans_def open_phase_def)
next
  case (recorded s s' works)
  then show ?case by (auto simp: phaseMeans_def workReference_def list_all_iff)
qed (auto simp: phaseMeans_def open_phase_def)

lemma later_refl: "later s s"
  by (simp add: later_def)

lemma step_later:
  assumes "statusStep s s'" shows "later s s'"
proof -
  have "mst_Phase s = ''Completed'' \<longrightarrow> s' = s" using completed_frozen [OF assms] by blast
  with assms show ?thesis
    by (cases rule: statusStep.cases) (auto simp: later_def open_phase_def successorRef_steps)
qed

lemma later_trans:
  assumes "later a b" "later b c" shows "later a c"
proof -
  have "list_all2 successorRef (mst_Works a) (mst_Works c)"
    if "mst_Works a \<noteq> []"
  proof (rule list_all2_trans)
    show "list_all2 successorRef (mst_Works a) (mst_Works b)"
      using assms(1) that by (simp add: later_def)
    then have "mst_Works b \<noteq> []" using that by auto
    then show "list_all2 successorRef (mst_Works b) (mst_Works c)"
      using assms(2) by (simp add: later_def)
  qed (auto simp: successorRef_def)
  moreover have "mst_Works a \<noteq> [] \<Longrightarrow> mst_Works b \<noteq> []" using assms(1) by (auto simp: later_def)
  ultimately show ?thesis using assms unfolding later_def by metis
qed

lemma phaseMeans_reachable: "reachable L req h \<Longrightarrow> \<forall>m\<in>set h. phaseMeans (mig_Status m)"
proof (induction rule: reachable_status_induct)
  case (fresh m')
  then show ?case by (simp add: phaseMeans_def emptyMigrationStatus_def)
next
  case (step cur t new)
  then show ?case using step_phaseMeans [OF step.hyps(2)] by simp
qed

lemma later_reachable:
  "reachable L req h \<Longrightarrow> sorted_wrt (\<lambda>new old. later (mig_Status old) (mig_Status new)) h"
proof (induction rule: reachable_status_induct)
  case (step cur t new)
  note one = step_later [OF step.hyps(2)]
  moreover have "later (mig_Status m) (mig_Status new)" if "m \<in> set t" for m
    using step.IH that one later_trans by auto
  ultimately show ?case using step.IH by auto
qed simp

section \<open>A history of the scenario\<close>

text \<open>
  The request of the scenario is created, its plan is recorded, and the Works found in order
  make it \<open>Ready\<close>.
\<close>

definition demoInitial :: PVMigration where
  "demoInitial = withVersion ''6'' demoMigration"

definition demoHistory :: history where
  "demoHistory = [withVersion ''8'' demoReady, demoRecorded, demoInitial]"

lemma demoInitial_spec: "mig_Spec demoInitial = demoSpec" "mig_Status demoInitial = mig_Status demoMigration"
    "om_ResourceVersion (mig_meta demoInitial) = ''6''" "\<not> migrationDone demoInitial" "mig_UID demoInitial = ''u''"
    "mig_Namespace demoInitial = mig_Namespace demoMigration"
  by (simp_all add: demoInitial_def withVersion_def demo_spec migrationDone_def)
    (simp_all add: demo_defs emptyMeta_def IsZero_def)

lemma demo_initial_plan:
  "BuildWorks demoLibraries demoInitial demoMetadata = Ok demoWorks"
  "planHash demoLibraries demoInitial demoMetadata demoWorks = Ok demoHash"
proof -
  show "BuildWorks demoLibraries demoInitial demoMetadata = Ok demoWorks"
    using BuildWorks_request_cong [of demoInitial demoMigration] demo_build by (simp add: demoInitial_def withVersion_def)
  have "mig_Spec demoInitial = mig_Spec demoMigration" by (simp add: demoInitial_def withVersion_def)
  then have "identityParts demoInitial demoMetadata = identityParts demoMigration demoMetadata"
    unfolding identityParts_def snapshotParts_def by (simp only:)
  from planHash_cong [OF this refl] demo_hash
  show "planHash demoLibraries demoInitial demoMetadata demoWorks = Ok demoHash" by simp
qed

lemma demo_initial_reachable: "reachable demoLibraries demoReq [demoInitial]"
  by (rule fresh) (simp add: demoInitial_spec emptyMigrationStatus_def demoMigration_def)

lemma demoRecorded_patched: "patched ''7'' demoInitial (recordPlan demoInitial demoHash demoWorks) demoInitial = demoRecorded"
  by (simp add: patched_def withVersion_def demoRecorded_def recordPlan_def withPhase_def demoInitial_def demo_defs emptyMeta_def)

lemma demo_record_step: "worldStep demoLibraries demoReq [demoInitial] [demoRecorded, demoInitial]"
proof -
  let ?new = "recordPlan demoInitial demoHash demoWorks"
  have gate: "exec (validateBinding demoLibraries demoInitial demoMetadata)
      (gateReads demoInitial demoBinding demoWorkload [demoMigration]) (Ok ())"
    by (intro demo_gate demo_peers demoInitial_spec)
  have empty: "mig_Works demoInitial = []" by (simp add: demoInitial_spec demoMigration_def)
  let ?pre = "(GetCall MigrationKind demoReq, Object (MigrationObj demoInitial)) #
     (GetCall MetadataKind (mig_Namespace demoInitial, ms_MetadataRef (mig_Spec demoInitial)), Object (MetadataObj demoMetadata)) #
     gateReads demoInitial demoBinding demoWorkload [demoMigration]"
  from pass_records [OF demoInitial_spec(4) gate demo_initial_plan empty, of 0 demoReq demoRecorded]
  have run: "exec (reconcilerProgram demoLibraries (PVMigrationReconciler 0) demoReq)
     (?pre @ (StatusPatchCall (MigrationObj demoInitial) (MigrationObj ?new), Object (MigrationObj demoRecorded)) # [])
     (Ok (delay 0, None))" by (simp add: reconcilerProgram_def)
  have "readsHistory demoReq ?pre [demoInitial]" by (auto simp: readsHistory_def gateReads_def)
  from status_patch [OF run this, of "''7''"] demoRecorded_patched show ?thesis
    by (simp add: versions_def demoInitial_spec)
qed

lemma demo_recorded_reachable: "reachable demoLibraries demoReq [demoRecorded, demoInitial]"
  by (rule step [OF demo_initial_reachable demo_record_step])

lemma demoRecorded_version: "om_ResourceVersion (mig_meta demoRecorded) = ''7''"
  using demoRecorded_reads(1) by (simp add: demoPlanned_def demo_defs)

lemma demo_ready_step: "worldStep demoLibraries demoReq [demoRecorded, demoInitial] demoHistory"
proof -
  let ?pre = "demoHead demoRecorded @ workReads demoRecorded demoServed"
  have run: "exec (reconcilerProgram demoLibraries (PVMigrationReconciler 0) demoReq)
     (?pre @ (StatusPatchCall (MigrationObj demoRecorded) (MigrationObj demoReady), Object (MigrationObj demoReady)) # [])
     (Ok (delay 0, None))"
    using demo_ready demo_ready_write by (simp add: reconcilerProgram_def)
  have "(GetCall MigrationKind demoReq, Object (MigrationObj m)) \<in> set (workReads demoRecorded demoServed) \<Longrightarrow> False" for m
    by (auto simp: workReads_def workRead_def)
  then have "readsHistory demoReq ?pre [demoRecorded, demoInitial]"
    by (auto simp: readsHistory_def demoHead_def demoGateReads_def gateReads_def)
  moreover have "patched ''8'' demoRecorded demoReady demoRecorded = withVersion ''8'' demoReady"
    by (simp add: patched_def demoReady_def readyMigration_def withPhase_def set_works_def)
  moreover have "''8'' \<notin> versions [demoRecorded, demoInitial]"
    by (simp add: versions_def demoRecorded_version demoInitial_spec)
  ultimately show ?thesis using status_patch [OF run, of demoRecorded "[demoInitial]" "''8''"] by (simp add: demoHistory_def)
qed

lemma demo_reachable: "reachable demoLibraries demoReq demoHistory"
  by (rule step [OF demo_recorded_reachable demo_ready_step])

section \<open>The properties\<close>

text \<open>
  C5: What is recorded stays: in every history, however passes with stale caches, edits and
  crashes interleave, once a version has recorded Works, every later version has the same plan
  hash and the same references by name, namespace and kind, a \<open>Detached\<close> flag never falls back,
  a request that has reached \<open>Ready\<close> never leaves it but for \<open>Completed\<close>, and the status of a
  completed request never changes again.
\<close>

theorem recorded_identity_immutable:
  assumes "reachable L req h" and "i < j" "j < length h"
  shows "later (mig_Status (h ! j)) (mig_Status (h ! i))"
  using sorted_wrt_nth_less [OF later_reachable [OF assms(1)] assms(2,3)] .

theorem recorded_identity_immutable_witness:
  "mst_PlanHash (mig_Status (demoHistory ! 0)) = mst_PlanHash (mig_Status (demoHistory ! 1)) \<and> length (mig_Works (demoHistory ! 1)) = 3"
  using recorded_identity_immutable [OF demo_reachable, of 0 1]
  by (auto simp: later_def demoHistory_def demoRecorded_reads demoWorks_length)

text \<open>
  C6: The phases mean what they say at every moment: a \<open>Ready\<close> request has recorded Works that
  are all applied, a \<open>Completed\<close> one has recorded Works that are all applied and detached, and in
  every other phase no Work is detached.
\<close>

theorem phases_mean_what_they_say:
  assumes "reachable L req h" and "m \<in> set h"
  shows "if mig_Phase m = ''Completed'' then mig_Works m \<noteq> [] \<and> list_all (\<lambda>ref. ref_Applied ref \<and> ref_Detached ref) (mig_Works m)
     else if mig_Phase m = ''Ready'' then mig_Works m \<noteq> [] \<and> list_all ref_Applied (mig_Works m)
     else list_all (\<lambda>ref. \<not> ref_Detached ref) (mig_Works m)"
  using phaseMeans_reachable [OF assms(1)] assms(2) by (simp add: phaseMeans_def)

theorem phases_mean_what_they_say_witness:
  "list_all ref_Applied (mig_Works (withVersion ''8'' demoReady))"
proof -
  have "mig_Phase (withVersion ''8'' demoReady) = ''Ready''" by (simp add: withVersion_def demoReady_reads)
  with phases_mean_what_they_say [OF demo_reachable, of "withVersion ''8'' demoReady"] show ?thesis
    by (simp add: demoHistory_def)
qed

section \<open>The abstract life cycle\<close>

text \<open>
  The life cycle of a request as a transition system of its own: the state holds, per Work, the
  identity and whether it is applied and detached.  Flags change one Work at a time; a change of
  phase is guarded by the flags of all Works.
\<close>

type_synonym work_state = "(string \<times> string \<times> bool) \<times> bool \<times> bool"

datatype lifecycle =
    Unplanned
  | Following "work_state list"
  | Detaching "work_state list"
  | Finished "work_state list"

inductive flagStep :: "lifecycle \<Rightarrow> lifecycle \<Rightarrow> bool" where
  observe: "i < length ws \<Longrightarrow> ws ! i = (w, a, d) \<Longrightarrow> flagStep (Following ws) (Following (ws[i := (w, a', d)]))"
| detach: "i < length ws \<Longrightarrow> ws ! i = (w, True, False) \<Longrightarrow> flagStep (Detaching ws) (Detaching (ws[i := (w, True, True)]))"

inductive phaseStep :: "lifecycle \<Rightarrow> lifecycle \<Rightarrow> bool" where
  plan: "ids \<noteq> [] \<Longrightarrow> phaseStep Unplanned (Following (map (\<lambda>w. (w, False, False)) ids))"
| apply_all: "\<forall>(w, applied, detached)\<in>set ws. applied \<and> \<not> detached \<Longrightarrow> phaseStep (Following ws) (Detaching ws)"
| finish: "\<forall>(w, applied, detached)\<in>set ws. applied \<and> detached \<Longrightarrow> phaseStep (Detaching ws) (Finished ws)"

definition workState :: "WorkReference \<Rightarrow> work_state" where
  "workState ref = (ref_identity ref, ref_Applied ref, ref_Detached ref)"

definition lifecycleOf :: "PVMigrationStatus \<Rightarrow> lifecycle" where
  "lifecycleOf s =
     (let ws = map workState (mst_Works s)
      in if mst_Phase s = ''Completed'' then Finished ws
         else if mst_Phase s = ''Ready'' then Detaching ws
         else if ws = [] then Unplanned else Following ws)"

text \<open>A change of every component of a list is a run of changes of one component.\<close>

lemma pointwise_run:
  assumes one: "\<And>zs i z. i < length zs \<Longrightarrow> R (zs ! i) z \<Longrightarrow> S\<^sup>*\<^sup>* (F zs) (F (zs[i := z]))"
    and all: "list_all2 R xs ys"
  shows "S\<^sup>*\<^sup>* (F xs) (F ys)"
proof -
  have "S\<^sup>*\<^sup>* (F xs) (F (take k ys @ drop k xs))" if "k \<le> length ys" for k
    using that
  proof (induction k)
    case (Suc k)
    let ?zs = "take k ys @ drop k xs"
    have len: "length xs = length ys" using all by (rule list_all2_lengthD)
    with Suc.prems have k: "k < length xs" "k < length ys" by simp_all
    then have "?zs ! k = xs ! k" "k < length ?zs" by (simp_all add: nth_append)
    moreover have "R (xs ! k) (ys ! k)" using all k by (simp add: list_all2_nthD)
    ultimately have "S\<^sup>*\<^sup>* (F ?zs) (F (?zs[k := ys ! k]))" using one by simp
    moreover have "?zs[k := ys ! k] = take (Suc k) ys @ drop (Suc k) xs"
      using k by (simp add: list_update_append take_Suc_conv_app_nth Cons_nth_drop_Suc [symmetric])
    ultimately show ?case using Suc by auto
  qed simp
  from this [of "length ys"] all show ?thesis by (simp add: list_all2_lengthD)
qed

lemma observes_run:
  assumes "list_all2 keepsRef xs ys"
  shows "flagStep\<^sup>*\<^sup>* (Following (map workState xs)) (Following (map workState ys))"
proof (rule pointwise_run [where R = "\<lambda>(s :: work_state) (t :: work_state). fst t = fst s \<and> snd (snd t) = snd (snd s)"])
  show "list_all2 (\<lambda>s t. fst t = fst s \<and> snd (snd t) = snd (snd s)) (map workState xs) (map workState ys)"
    using assms by (auto simp: list_all2_conv_all_nth workState_def keepsRef_def)
next
  fix zs :: "work_state list" and i and z :: work_state
  assume "i < length zs" "fst z = fst (zs ! i) \<and> snd (snd z) = snd (snd (zs ! i))"
  then show "flagStep\<^sup>*\<^sup>* (Following zs) (Following (zs[i := z]))"
    by (intro r_into_rtranclp) (cases z; cases "zs ! i"; auto intro: observe)
qed

lemma detaches_run:
  assumes "list_all2 detachesRef xs ys" and "list_all ref_Applied xs"
  shows "flagStep\<^sup>*\<^sup>* (Detaching (map workState xs)) (Detaching (map workState ys))"
proof (rule pointwise_run [where R = "\<lambda>(s :: work_state) t. t = s \<or> fst (snd s) \<and> t = (fst s, True, True)"])
  show "list_all2 (\<lambda>s t. t = s \<or> fst (snd s) \<and> t = (fst s, True, True)) (map workState xs) (map workState ys)"
    using assms by (auto simp: list_all2_conv_all_nth list_all_length workState_def detachesRef_def markDetached_def ref_identity_def)
next
  fix zs :: "work_state list" and i and z :: work_state
  assume i: "i < length zs" and z: "z = zs ! i \<or> fst (snd (zs ! i)) \<and> z = (fst (zs ! i), True, True)"
  obtain w a d where now: "zs ! i = (w, a, d)" by (cases "zs ! i")
  show "flagStep\<^sup>*\<^sup>* (Detaching zs) (Detaching (zs[i := z]))"
  proof (cases "z = zs ! i")
    case False
    with z now have "z = (w, True, True)" "a" "\<not> d" by auto
    with i now detach [of i zs w] show ?thesis by auto
  qed simp
qed

lemma step_refines:
  assumes "statusStep s s'" and "phaseMeans s"
  shows "(flagStep\<^sup>*\<^sup>* OO phaseStep\<^sup>=\<^sup>=) (lifecycleOf s) (lifecycleOf s')"
  using assms
proof (induction rule: statusStep.induct)
  case (recorded s s' works)
  then have "lifecycleOf s = Unplanned" by (simp add: lifecycleOf_def open_phase_def Let_def)
  moreover have "map workState (mst_Works s') = map (\<lambda>w. (w, False, False)) (map ref_identity (mst_Works s'))"
    using recorded by (simp add: workState_def workReference_def)
  then have "lifecycleOf s' = (if works = [] then Unplanned else Following (map (\<lambda>w. (w, False, False)) (map ref_identity (mst_Works s'))))"
    using recorded by (simp add: lifecycleOf_def Let_def del: map_map)
  ultimately show ?case using recorded plan [of "map ref_identity (mst_Works s')"] by (auto intro!: relcomppI simp del: map_map)
next
  case (progressed s s')
  then have "mst_Works s' \<noteq> []" by auto
  with progressed have "lifecycleOf s = Following (map workState (mst_Works s))" "lifecycleOf s' = Following (map workState (mst_Works s'))"
    by (auto simp: lifecycleOf_def open_phase_def Let_def)
  with observes_run [OF progressed(4)] show ?case by auto
next
  case (readied s s')
  have "list_all (\<lambda>ref. \<not> ref_Detached ref) (mst_Works s)" using readied by (simp add: phaseMeans_def open_phase_def)
  with keeps_Detached [OF readied(4)] have "list_all (\<lambda>ref. \<not> ref_Detached ref) (mst_Works s')" by simp
  moreover have "phaseMeans s'" by (rule step_phaseMeans [OF statusStep.readied [OF readied(1-6)] readied(7)])
  ultimately have "phaseStep (Following (map workState (mst_Works s'))) (Detaching (map workState (mst_Works s')))"
    using readied(5) by (intro apply_all) (auto simp: phaseMeans_def list_all_iff workState_def)
  moreover have "lifecycleOf s = Following (map workState (mst_Works s))" "lifecycleOf s' = Detaching (map workState (mst_Works s'))"
    using readied by (auto simp: lifecycleOf_def open_phase_def Let_def)
  ultimately show ?case using observes_run [OF readied(4)] by auto
next
  case (detached s s')
  then have "list_all ref_Applied (mst_Works s)" by (simp add: phaseMeans_def)
  with detaches_run [OF detached(3)] detached show ?case by (auto simp: lifecycleOf_def Let_def)
next
  case (completed s s')
  then have "list_all ref_Applied (mst_Works s)" by (simp add: phaseMeans_def)
  moreover have "phaseStep (Detaching (map workState (mst_Works s'))) (Finished (map workState (mst_Works s')))"
    using completed(5) by (intro finish) (auto simp: list_all_iff workState_def)
  ultimately show ?case using detaches_run [OF completed(3)] completed by (auto simp: lifecycleOf_def Let_def)
qed (auto simp: lifecycleOf_def open_phase_def Let_def)

lemma step_lifecycle:
  "(flagStep\<^sup>*\<^sup>* OO phaseStep\<^sup>=\<^sup>=) s t \<Longrightarrow> (sup flagStep phaseStep)\<^sup>*\<^sup>* s t"
proof (elim relcomppE)
  fix u
  assume "flagStep\<^sup>*\<^sup>* s u" and phase: "phaseStep\<^sup>=\<^sup>= u t"
  then have "(sup flagStep phaseStep)\<^sup>*\<^sup>* s u" by (metis rtranclp_mono predicate2D sup_ge1)
  with phase show "(sup flagStep phaseStep)\<^sup>*\<^sup>* s t" by (auto intro: rtranclp.rtrancl_into_rtrancl)
qed

lemma reachable_refines: "reachable L req h \<Longrightarrow> (sup flagStep phaseStep)\<^sup>*\<^sup>* Unplanned (lifecycleOf (mig_Status (hd h)))"
proof (induction rule: reachable_status_induct)
  case (fresh m)
  then show ?case by (simp add: lifecycleOf_def emptyMigrationStatus_def Let_def)
next
  case (step cur t new)
  have "phaseMeans (mig_Status cur)" using phaseMeans_reachable [OF step.hyps(1)] by simp
  from step_lifecycle [OF step_refines [OF step.hyps(2) this]] step.IH show ?case by (metis list.sel(1) rtranclp_trans)
qed

text \<open>
  C7: The controllers refine the abstract life cycle of a request.  A request is planned once,
  with no Work applied or detached; its Works are observed one by one; it is ready to detach
  only when every Work is applied and none is detached; a Work is detached once, and only when
  it is applied; and it is finished only when every Work is applied and detached.  Every step of
  the world, whichever controller or user takes it, changes flags of single Works and then at
  most the phase, and every reachable status is reached by the life cycle.
\<close>

theorem lifecycle_refinement:
  assumes "reachable L req h" and "worldStep L req h h'"
  shows "(flagStep\<^sup>*\<^sup>* OO phaseStep\<^sup>=\<^sup>=) (lifecycleOf (mig_Status (hd h))) (lifecycleOf (mig_Status (hd h'))) \<and>
     (sup flagStep phaseStep)\<^sup>*\<^sup>* Unplanned (lifecycleOf (mig_Status (hd h')))"
proof
  from worldStep_status [OF assms(2)] reachable_versions [OF assms(1)] obtain cur t new where
    h: "h = cur # t" "h' = new # cur # t" and st: "statusStep (mig_Status cur) (mig_Status new)" by blast
  have "phaseMeans (mig_Status cur)" using phaseMeans_reachable [OF assms(1)] h by simp
  from step_refines [OF st this] h
  show "(flagStep\<^sup>*\<^sup>* OO phaseStep\<^sup>=\<^sup>=) (lifecycleOf (mig_Status (hd h))) (lifecycleOf (mig_Status (hd h')))" by simp
  show "(sup flagStep phaseStep)\<^sup>*\<^sup>* Unplanned (lifecycleOf (mig_Status (hd h')))"
    by (rule reachable_refines) (rule reachable.step [OF assms])
qed

theorem lifecycle_refinement_witness:
  "(flagStep\<^sup>*\<^sup>* OO phaseStep\<^sup>=\<^sup>=) (Following (map workState (mig_Works demoRecorded))) (Detaching (map workState (mig_Works demoReady)))"
proof -
  have after: "lifecycleOf (mig_Status (hd demoHistory)) = Detaching (map workState (mig_Works demoReady))"
    by (simp add: demoHistory_def lifecycleOf_def Let_def withVersion_def demoReady_reads)
  have "mig_Works demoRecorded \<noteq> []" using demoRecorded_reads(2) demoWorks_length by auto
  then have before: "lifecycleOf (mig_Status (hd [demoRecorded, demoInitial])) = Following (map workState (mig_Works demoRecorded))"
    by (simp add: lifecycleOf_def Let_def demoRecorded_reads(3))
  show ?thesis
    using lifecycle_refinement [OF demo_recorded_reachable demo_ready_step, THEN conjunct1] unfolding before after .
qed

section \<open>No recreation\<close>

lemma open_history:
  assumes "reachable L req (cur # t)" and "open_phase (mig_Status cur)" and "m \<in> set (cur # t)"
  shows "open_phase (mig_Status m) \<and> list_all (\<lambda>ref. \<not> ref_Detached ref) (mig_Works m)"
proof -
  from later_reachable [OF assms(1)] assms(3) later_refl have "later (mig_Status m) (mig_Status cur)" by auto
  with assms(2) have "open_phase (mig_Status m)" by (auto simp: later_def)
  moreover have "phaseMeans (mig_Status m)" using phaseMeans_reachable [OF assms(1)] assms(3) by blast
  ultimately show ?thesis by (simp add: phaseMeans_def open_phase_def)
qed

text \<open>
  C14: A detached Work is never created again: when a pass of the migration controller that has
  read the current version of the request creates an object, no version of the request was ever
  \<open>Ready\<close> or \<open>Completed\<close> and none of its references was ever detached.
\<close>

theorem detached_never_recreated:
  assumes "reachable L req (cur # t)"
    and "exec (MigrationReconcile L poll req) ((GetCall MigrationKind req, Object (MigrationObj cur)) # pre @ (CreateCall obj, r) # post) x"
    and "m \<in> set (cur # t)"
  shows "mig_Phase m \<noteq> ''Ready'' \<and> mig_Phase m \<noteq> ''Completed'' \<and> list_all (\<lambda>ref. \<not> ref_Detached ref) (mig_Works m)"
proof -
  from assms(2) have "exec (MigrationReconcile L poll req)
      (((GetCall MigrationKind req, Object (MigrationObj cur)) # pre) @ (CreateCall obj, r) # post) x" by simp
  from migration.call_guard [OF this] have "\<not> migrationDone cur" by (auto simp: migrationGuard_def admittedTrace_def)
  then have "open_phase (mig_Status cur)" by (rule migrationDone_open)
  from open_history [OF assms(1) this assms(3)] show ?thesis by (simp add: open_phase_def)
qed

theorem detached_never_recreated_witness:
  "list_all (\<lambda>ref. \<not> ref_Detached ref) (mig_Works demoRecorded) \<and>
   (\<exists>pre r post. demoCreateRun = (GetCall MigrationKind demoReq, Object (MigrationObj demoRecorded)) # pre @
      (CreateCall (UnstructuredObj (demoWorks ! 0)), r) # post)"
proof -
  let ?pre = "(GetCall MetadataKind (mig_Namespace demoRecorded, ms_MetadataRef (mig_Spec demoRecorded)), Object (MetadataObj demoMetadata)) #
      demoGateReads @ [(GetCall (UnstructuredKind WorkGVK) (refKey (mig_Works demoRecorded ! 0)), Failed (NotFound ''not found''))]"
  let ?post = "concat (map (creation demoRecorded demoWorks demoWorks) [1..<3]) @
     [(StatusPatchCall (MigrationObj demoRecorded) (MigrationObj (waitingMigration demoRecorded)), Object (MigrationObj demoRecorded))]"
  have run: "demoCreateRun = (GetCall MigrationKind demoReq, Object (MigrationObj demoRecorded)) # ?pre @
      (CreateCall (UnstructuredObj (demoWorks ! 0)), Object (UnstructuredObj (demoWorks ! 0))) # ?post"
    unfolding demo_first_creation by (simp add: demoHead_def)
  have "list_all (\<lambda>ref. \<not> ref_Detached ref) (mig_Works demoRecorded)"
    using detached_never_recreated [OF demo_recorded_reachable demo_create [unfolded run], of demoRecorded] by simp
  moreover have "\<exists>pre r post. demoCreateRun = (GetCall MigrationKind demoReq, Object (MigrationObj demoRecorded)) # pre @
      (CreateCall (UnstructuredObj (demoWorks ! 0)), r) # post"
    by (rule exI [of _ ?pre], rule exI [of _ "Object (UnstructuredObj (demoWorks ! 0))"], rule exI [of _ ?post]) (rule run)
  ultimately show ?thesis by (rule conjI)
qed

end
