(* ===== verification/DiscoveryResults.thy ===== *)
theory DiscoveryResults
  imports ScenarioGate MigrationRuns
begin

text \<open>
  The properties of the discovery controller: what it creates, that it never changes or deletes
  what exists, and that a pass leaves every cluster of the binding provided for.
\<close>

section \<open>A pass over clusters nobody has provided for\<close>

lemma exec_discovery_callI:
  "exec (getStatefulSet nn) [(GetCall StatefulSetKind nn, Object (StatefulSetObj sts))] (Ok sts)"
  "exec (getMetadata nn) [(GetCall MetadataKind nn, Failed e)] (Err e)"
  "exec (createMetadata md) [(CreateCall (MetadataObj md), Object (MetadataObj md'))] (Ok md')"
  by (auto simp: getStatefulSet_def getMetadata_def createMetadata_def intro!: exec_callI)

definition provision :: "libraries \<Rightarrow> StatefulSet \<Rightarrow> string \<Rightarrow> PVMetadata \<Rightarrow> trace" where
  "provision L sts clusterName md =
     (let name = metadataNameOf L sts clusterName; new = newMetadata sts clusterName name;
          policy = newPolicy sts md clusterName name; key = discoveryKey L sts clusterName
      in [(GetCall MetadataKind key, Failed (NotFound ''not found'')), (CreateCall (MetadataObj new), Object (MetadataObj new)),
          (GetCall MetadataKind key, Object (MetadataObj md)),
          (GetCall (UnstructuredKind PolicyGVK) key, Failed (NotFound ''not found'')),
          (CreateCall (UnstructuredObj policy), Object (UnstructuredObj policy))])"

lemma discoverCluster_provisions:
  assumes "metadataOwned sts clusterName md"
  shows "exec (discoverCluster L sts clusterName) (provision L sts clusterName md) (Ok ())"
proof -
  let ?name = "metadataNameOf L sts clusterName"
  let ?key = "discoveryKey L sts clusterName"
  let ?new = "newMetadata sts clusterName ?name" and ?policy = "newPolicy sts md clusterName ?name"
  have "exec (obtainMetadata sts clusterName ?name)
      ([(GetCall MetadataKind ?key, Failed (NotFound ''not found''))] @ [(CreateCall (MetadataObj ?new), Object (MetadataObj ?new))] @
       [(GetCall MetadataKind ?key, Object (MetadataObj md))]) (Ok md)"
    unfolding obtainMetadata_def Let_def
    by (rule exec_tryI_Err, rule exec_discovery_callI, simp only: isNotFound.simps if_True,
        rule exec_tryI, rule exec_discovery_callI, rule exec_typed_callI)
  note md = this
  have "exec (ensurePolicy L sts md clusterName ?name)
      ([(GetCall (UnstructuredKind PolicyGVK) ?key, Failed (NotFound ''not found''))] @
       [(CreateCall (UnstructuredObj ?policy), Object (UnstructuredObj ?policy))] @ []) (Ok ())"
    unfolding ensurePolicy_def
    by (rule exec_tryI_Err, rule exec_typed_callI, simp only: isNotFound.simps if_False not_True_eq_False,
        rule exec_tryI, rule exec_typed_callI, simp)
  note policy = this
  have "exec (discoverCluster L sts clusterName)
      (([(GetCall MetadataKind ?key, Failed (NotFound ''not found''))] @ [(CreateCall (MetadataObj ?new), Object (MetadataObj ?new))] @
       [(GetCall MetadataKind ?key, Object (MetadataObj md))]) @
      ([(GetCall (UnstructuredKind PolicyGVK) ?key, Failed (NotFound ''not found''))] @
       [(CreateCall (UnstructuredObj ?policy), Object (UnstructuredObj ?policy))] @ [])) (Ok ())"
    unfolding discoverCluster_def Let_def
    by (rule exec_andThenI, rule md, rule exec_requireI [OF assms policy])
  then show ?thesis by (simp add: provision_def Let_def)
qed

text \<open>The name of an entry of \<open>spec.clusters\<close>, whatever else the entry holds; an entry without one is passed over.\<close>

definition entryName :: "jobj \<Rightarrow> string" where
  "entryName c = (case jget c ''name'' of JStr n \<Rightarrow> n | _ \<Rightarrow> [])"

definition entryNames :: "jobj list \<Rightarrow> string list" where
  "entryNames cs = filter (\<lambda>n. n \<noteq> []) (map entryName cs)"

lemma entryNames_set: "n \<in> set (entryNames cs) \<longleftrightarrow> n \<noteq> [] \<and> (\<exists>c\<in>set cs. entryName c = n)"
  by (auto simp: entryNames_def)

lemma str_of_entry: "(case str_of v of None \<Rightarrow> [] | Some n \<Rightarrow> n) = (case v of JStr n \<Rightarrow> n | _ \<Rightarrow> [])"
  by (cases v) simp_all

lemma discoverClusters_provisions:
  assumes "\<forall>n\<in>set (entryNames cs). metadataOwned sts n (mds n)"
  shows "exec (discoverClusters L sts (map JObj cs)) (concat (map (\<lambda>n. provision L sts n (mds n)) (entryNames cs))) (Ok ())"
  using assms
proof (induction cs)
  case (Cons c cs)
  then have rest: "exec (discoverClusters L sts (map JObj cs)) (concat (map (\<lambda>n. provision L sts n (mds n)) (entryNames cs))) (Ok ())"
    by (simp add: entryNames_def split: if_splits)
  have step: "discoverClusters L sts (map JObj (c # cs)) =
      (if entryName c = [] then discoverClusters L sts (map JObj cs)
       else andThen (discoverCluster L sts (entryName c)) (\<lambda>_. discoverClusters L sts (map JObj cs)))"
    by (simp add: str_of_entry entryName_def Let_def)
  show ?case
  proof (cases "entryName c = []")
    case True
    with rest step show ?thesis by (simp add: entryNames_def)
  next
    case False
    then have "metadataOwned sts (entryName c) (mds (entryName c))"
      using Cons.prems by (simp add: entryNames_def)
    from exec_andThenI [OF discoverCluster_provisions [OF this] rest] False step show ?thesis
      by (simp add: entryNames_def)
  qed
qed (simp add: entryNames_def)

definition statefulBinding :: "libraries \<Rightarrow> jobj \<Rightarrow> bool" where
  "statefulBinding L rb \<longleftrightarrow> strAt rb [''spec'', ''resource'', ''kind''] = ''StatefulSet'' \<and>
     strAt rb [''spec'', ''resource'', ''apiVersion''] = ''apps/v1'' \<and> IsZero (GetDeletionTimestamp L rb)"

definition discoveryReads :: "namespaced_name \<Rightarrow> jobj \<Rightarrow> StatefulSet \<Rightarrow> trace" where
  "discoveryReads req rb sts =
     [(GetCall (UnstructuredKind BindingGVK) req, Object (UnstructuredObj rb)),
      (GetCall StatefulSetKind (fst req, strAt rb [''spec'', ''resource'', ''name'']), Object (StatefulSetObj sts))]"

lemma pass_discovers:
  assumes "statefulBinding L rb" and "sget (om_Labels (sts_meta sts)) OptInLabel = ''enabled''"
    and "bindingClusters rb = Ok (map JObj cs)"
    and "\<forall>n\<in>set (entryNames cs). metadataOwned sts n (mds n)"
  shows "exec (DiscoveryReconcile L poll req)
     (discoveryReads req rb sts @ concat (map (\<lambda>n. provision L sts n (mds n)) (entryNames cs))) (Ok (discoveryDelay poll, None))"
proof -
  have "exec (andThen (Return (bindingClusters rb)) (discoverClusters L sts))
      ([] @ concat (map (\<lambda>n. provision L sts n (mds n)) (entryNames cs))) (Ok ())"
    by (rule exec_andThenI, simp add: assms(3), rule discoverClusters_provisions [OF assms(4)])
  note loop = this
  have "exec (DiscoveryReconcile L poll req)
     ([(GetCall (UnstructuredKind BindingGVK) req, Object (UnstructuredObj rb))] @
      [(GetCall StatefulSetKind (fst req, strAt rb [''spec'', ''resource'', ''name'']), Object (StatefulSetObj sts))] @
      ([] @ concat (map (\<lambda>n. provision L sts n (mds n)) (entryNames cs))) @ [])
     (Ok (discoveryDelay poll, None))"
    unfolding DiscoveryReconcile_def Let_def
    by (rule exec_tryI, rule exec_typed_callI,
        use assms(1) in \<open>simp only: statefulBinding_def if_False not_True_eq_False HOL.simp_thms\<close>,
        rule exec_tryI, rule exec_discovery_callI, simp only: assms(2) if_False HOL.simp_thms,
        rule exec_tryI [OF loop]) simp
  then show ?thesis by (simp add: discoveryReads_def)
qed

section \<open>The scenario\<close>

text \<open>The opted-in workload of the scenario, bound to its source cluster alone.\<close>

definition demoOptedIn :: StatefulSet where
  "demoOptedIn = demoWorkload\<lparr> sts_meta := (sts_meta demoWorkload)\<lparr> om_Labels := fmupd OptInLabel ''enabled'' fmempty \<rparr> \<rparr>"

definition demoEntry :: jobj where
  "demoEntry = fmupd ''name'' (JStr ''a'') (fmupd ''replicas'' (JInt 1) fmempty)"

lemma demoEntry_name: "entryNames [demoEntry] = [''a'']"
  by (simp add: entryNames_def entryName_def demoEntry_def jget_def)

definition demoPlaced :: jobj where
  "demoPlaced =
     fmupd ''spec'' (JObj
       (fmupd ''clusters'' (JArr [JObj demoEntry])
       (fmupd ''resource'' (JObj
         (fmupd ''apiVersion'' (JStr ''apps/v1'') (fmupd ''kind'' (JStr ''StatefulSet'')
         (fmupd ''name'' (JStr ''db'') fmempty))))
       fmempty)))
     fmempty"

lemma demoPlaced_reads:
  "statefulBinding demoLibraries demoPlaced" "bindingClusters demoPlaced = Ok (map JObj [demoEntry])"
  by (simp_all add: statefulBinding_def bindingClusters_def demoPlaced_def strAt_def NestedString_def NestedSlice_def
      NestedField_Cons GetDeletionTimestamp_def)

definition demoProvided :: PVMetadata where
  "demoProvided = (newMetadata demoOptedIn ''a'' (metadataNameOf demoLibraries demoOptedIn ''a''))
     \<lparr> md_meta := (md_meta (newMetadata demoOptedIn ''a'' (metadataNameOf demoLibraries demoOptedIn ''a'')))\<lparr> om_UID := ''mduid'' \<rparr> \<rparr>"

lemma demoProvided_owned: "metadataOwned demoOptedIn ''a'' demoProvided"
  by (simp add: metadataOwned_def demoProvided_def newMetadata_def managerLabels_def sget_def)

definition demoDiscovery :: trace where
  "demoDiscovery = discoveryReads (''n'', ''rb'') demoPlaced demoOptedIn @ provision demoLibraries demoOptedIn ''a'' demoProvided"

lemma demo_discovery: "exec (DiscoveryReconcile demoLibraries 0 (''n'', ''rb'')) demoDiscovery (Ok (discoveryDelay 0, None))"
proof -
  have "sget (om_Labels (sts_meta demoOptedIn)) OptInLabel = ''enabled''" by (simp add: demoOptedIn_def sget_def)
  from pass_discovers [OF demoPlaced_reads(1) this demoPlaced_reads(2), of "\<lambda>_. demoProvided"] demoProvided_owned
  show ?thesis by (simp add: demoDiscovery_def demoEntry_name)
qed

section \<open>The properties\<close>

text \<open>
  C36: Discovery is complete: for a live binding of an opted-in StatefulSet, whose entries may hold
  replicas and anything else beside their cluster name, the pass over a server that has neither
  metadata nor policy of any of these clusters creates both for every named entry, in the order
  of the binding, ends without error and comes back after the discovery delay.
\<close>

theorem discovery_provisions_every_cluster:
  assumes "statefulBinding L rb" and "sget (om_Labels (sts_meta sts)) OptInLabel = ''enabled''"
    and "bindingClusters rb = Ok (map JObj cs)"
    and "\<forall>n\<in>set (entryNames cs). metadataOwned sts n (mds n)"
  shows "\<exists>tr. exec (DiscoveryReconcile L poll req) (discoveryReads req rb sts @ tr) (Ok (discoveryDelay poll, None)) \<and>
     (\<forall>c\<in>set cs. entryName c \<noteq> [] \<longrightarrow> (\<exists>r r'.
        (CreateCall (MetadataObj (newMetadata sts (entryName c) (metadataNameOf L sts (entryName c)))), r) \<in> set tr \<and>
        (CreateCall (UnstructuredObj (newPolicy sts (mds (entryName c)) (entryName c) (metadataNameOf L sts (entryName c)))), r') \<in> set tr))"
proof (intro exI conjI)
  let ?tr = "concat (map (\<lambda>n. provision L sts n (mds n)) (entryNames cs))"
  show "exec (DiscoveryReconcile L poll req) (discoveryReads req rb sts @ ?tr) (Ok (discoveryDelay poll, None))"
    by (rule pass_discovers [OF assms])
  have "\<exists>r r'. (CreateCall (MetadataObj (newMetadata sts n (metadataNameOf L sts n))), r) \<in> set ?tr \<and>
        (CreateCall (UnstructuredObj (newPolicy sts (mds n) n (metadataNameOf L sts n))), r') \<in> set ?tr"
    if "n \<in> set (entryNames cs)" for n
    using that unfolding set_concat set_map by (fastforce simp: provision_def Let_def)
  then show "\<forall>c\<in>set cs. entryName c \<noteq> [] \<longrightarrow> (\<exists>r r'.
        (CreateCall (MetadataObj (newMetadata sts (entryName c) (metadataNameOf L sts (entryName c)))), r) \<in> set ?tr \<and>
        (CreateCall (UnstructuredObj (newPolicy sts (mds (entryName c)) (entryName c) (metadataNameOf L sts (entryName c)))), r') \<in> set ?tr)"
    unfolding entryNames_set by blast
qed

theorem discovery_provisions_every_cluster_witness:
  "\<exists>tr r. exec (DiscoveryReconcile demoLibraries 0 (''n'', ''rb''))
      (discoveryReads (''n'', ''rb'') demoPlaced demoOptedIn @ tr) (Ok (discoveryDelay 0, None)) \<and>
     (CreateCall (MetadataObj (newMetadata demoOptedIn ''a'' (metadataNameOf demoLibraries demoOptedIn ''a''))), r) \<in> set tr"
proof -
  have opted: "sget (om_Labels (sts_meta demoOptedIn)) OptInLabel = ''enabled''" by (simp add: demoOptedIn_def sget_def)
  have "\<forall>n\<in>set (entryNames [demoEntry]). metadataOwned demoOptedIn n demoProvided"
    using demoProvided_owned by (simp add: demoEntry_name)
  from discovery_provisions_every_cluster [OF demoPlaced_reads(1) opted demoPlaced_reads(2) this, of 0 "(''n'', ''rb'')"]
  show ?thesis by (auto simp: entryName_def demoEntry_def jget_def)
qed

text \<open>
  C35: Discovery never touches what exists: it deletes nothing and edits nothing, so an existing
  policy keeps the cluster it was made for; it creates only the metadata object or the policy of
  a cluster of the binding of an opted-in workload, right after the server has reported that
  object absent, and the policy only for a metadata object read before and found to be its own.
\<close>

theorem discovery_creates_only_missing:
  assumes "exec (DiscoveryReconcile L poll req) (pre @ (c, r) # post) x"
  shows "(\<exists>k nn. c = GetCall k nn) \<or>
     (\<exists>rb sts n t. discoveryHead req pre rb sts \<and> boundCluster rb n \<and>
        (c = CreateCall (MetadataObj (newMetadata sts n (metadataNameOf L sts n))) \<and>
         last pre = (GetCall MetadataKind (discoveryKey L sts n), Failed (NotFound t)) \<or>
         (\<exists>md. c = CreateCall (UnstructuredObj (newPolicy sts md n (metadataNameOf L sts n))) \<and>
            metadataRead L sts n md \<in> set pre \<and> metadataOwned sts n md \<and>
            last pre = (GetCall (UnstructuredKind PolicyGVK) (discoveryKey L sts n), Failed (NotFound t)))))"
  using discovery.call_guard [OF assms] by (cases c) (auto simp: discoveryGuard_def)

theorem discovery_creates_only_missing_witness:
  "\<exists>rb sts n. discoveryHead (''n'', ''rb'')
       (discoveryReads (''n'', ''rb'') demoPlaced demoOptedIn @
        [(GetCall MetadataKind (discoveryKey demoLibraries demoOptedIn ''a''), Failed (NotFound ''not found''))]) rb sts \<and>
     boundCluster rb n"
proof -
  let ?pre = "discoveryReads (''n'', ''rb'') demoPlaced demoOptedIn @
        [(GetCall MetadataKind (discoveryKey demoLibraries demoOptedIn ''a''), Failed (NotFound ''not found''))]"
  obtain new r post where "demoDiscovery = ?pre @ (CreateCall new, r) # post"
    by (simp add: demoDiscovery_def provision_def Let_def)
  from discovery_creates_only_missing [OF demo_discovery [unfolded this]] show ?thesis by blast
qed

text \<open>
  A pass without error has provided for every cluster of the binding: the metadata object
  of the cluster was read and is its own, and its policy was read, is owned by that object and
  names exactly that cluster, or has just been created so.
\<close>

lemma discovery_success_provides:
  assumes "exec (DiscoveryReconcile L poll req) tr (Ok (d, None))"
    and "discoveryHead req tr rb sts" and "boundCluster rb n"
  shows "provided L sts tr n"
  using discovery.outcome [OF assms(1)] assms(2,3) unfolding discoveryPost_def by blast

end
