(* ===== verification/MemberResults.thy ===== *)
theory MemberResults
  imports ScenarioRuns
begin

text \<open>
  The properties of the member controller: which claims it collects and how it knows that a
  claim and a volume belong together, what it writes and what it keeps when the collection
  fails, and when its \<open>int32\<close> ordinals visit the claims the StatefulSet has.
\<close>

section \<open>Ordinals and claims\<close>

text \<open>The claims of a StatefulSet as Kubernetes numbers them, over unbounded integers.\<close>

definition intendedRequests :: "libraries \<Rightarrow> StatefulSet \<Rightarrow> (string \<times> int \<times> string) list" where
  "intendedRequests L sts =
     concat (map (\<lambda>t. map (\<lambda>i. (t, i, claimName t (om_Name (sts_meta sts)) i))
         [sint (stsStart sts)..sint (stsStart sts) + sint (stsReplicas sts) - 1]) (sts_VolumeClaimTemplates sts)) @
     map (\<lambda>n. ([], 0, n)) (Standalone L sts)"

definition readRequest :: "string \<times> int32 \<times> string \<Rightarrow> string \<times> int \<times> string" where
  "readRequest q = (case q of (t, k, n) \<Rightarrow> (t, sint k, n))"

lemma map_readRequest:
  "map readRequest (ordinalRequests name ks t) = map (\<lambda>i. (t, i, claimName t name i)) (map sint ks)"
  by (simp add: ordinalRequests_def readRequest_def)

lemma requests_in_range:
  assumes "0 < sint (stsReplicas sts)" and "sint (stsStart sts) + sint (stsReplicas sts) < 2 ^ 31"
  shows "map readRequest (expectedRequests L sts) = intendedRequests L sts"
  using ordinals_in_range [OF assms]
  by (simp add: expectedRequests_def intendedRequests_def map_concat map_readRequest o_def readRequest_def)





text \<open>
  C34: The loop over the ordinals ends, and after exactly as many rounds as the signed distance
  of its bounds, for any two \<open>int32\<close> values.
\<close>

theorem ordinals_loop_length:
  "length (ordinalsUpTo a b) = nat (sint b - sint a) \<and> distinct (ordinalsUpTo a b)"
proof -
  have "inj_on (word_of_int :: int \<Rightarrow> int32) {sint a..sint b - 1}"
  proof (rule inj_on_inverseI)
    fix i
    assume "i \<in> {sint a..sint b - 1}"
    then have "- (2 ^ 31) \<le> i" "i < 2 ^ 31" using sint_ge [of a] sint_lt [of b] by auto
    then show "sint (word_of_int i :: int32) = i" by (simp add: sint_sbintrunc' signed_take_bit_int_eq_self)
  qed
  then show ?thesis by (simp add: ordinalsUpTo_eq distinct_map)
qed

section \<open>The scenario\<close>

definition demoPVC :: "string \<Rightarrow> string \<Rightarrow> string \<Rightarrow> PersistentVolumeClaim" where
  "demoPVC name uid pv = \<lparr> pvc_APIVersion = ''v1'', pvc_Kind = ''PersistentVolumeClaim'',
     pvc_meta = emptyMeta\<lparr> om_Name := name, om_Namespace := ''n'', om_UID := uid \<rparr>,
     pvc_Spec = demoClaimSpec pv, pvc_Phase = ''Bound'' \<rparr>"

definition demoPV :: "string \<Rightarrow> string \<Rightarrow> string \<Rightarrow> PersistentVolume" where
  "demoPV name uid pv = \<lparr> pv_APIVersion = ''v1'', pv_Kind = ''PersistentVolume'',
     pv_meta = emptyMeta\<lparr> om_Name := pv \<rparr>, pv_Spec = demoVolumeSpec name uid, pv_Phase = ''Bound'' \<rparr>"

definition demoObservation :: observation where
  "demoObservation = \<lparr> obs_WorkloadUID = ''w'', obs_Volumes = [demoData, demoCkpt], obs_CollectedAt = Some 5 \<rparr>"

definition demoCollection :: trace where
  "demoCollection =
     [(GetCall StatefulSetKind (''n'', ''db''), Object (StatefulSetObj demoWorkload))] @
     pairReads ''n'' ''data-db-0'' (demoPVC ''data-db-0'' ''u1'' ''pv1'') (demoPV ''data-db-0'' ''u1'' ''pv1'') @
     pairReads ''n'' ''ckpt'' (demoPVC ''ckpt'' ''u2'' ''pv2'') (demoPV ''ckpt'' ''u2'' ''pv2'') @
     [(NowCall, Clock 5)]"

lemma exec_getStatefulSet:
  "exec (getStatefulSet nn) [(GetCall StatefulSetKind nn, Object (StatefulSetObj sts))] (Ok sts)"
  by (auto simp: getStatefulSet_def intro!: exec_callI)

lemma demo_pairs:
  "exec (collectVolume ''n'' ''data'' 0 ''data-db-0'')
     (pairReads ''n'' ''data-db-0'' (demoPVC ''data-db-0'' ''u1'' ''pv1'') (demoPV ''data-db-0'' ''u1'' ''pv1'')) (Ok demoData)"
  "exec (collectVolume ''n'' [] 0 ''ckpt'')
     (pairReads ''n'' ''ckpt'' (demoPVC ''ckpt'' ''u2'' ''pv2'') (demoPV ''ckpt'' ''u2'' ''pv2'')) (Ok demoCkpt)"
  unfolding collectVolume_Ok
  by (rule exI, rule exI, rule conjI, rule refl, simp add: soundPair_def demoPVC_def demoPV_def volumeOf_def emptyMeta_def
      demo_defs)+

lemma demo_ordinals: "ordinalsUpTo (stsStart demoWorkload) (stsStart demoWorkload + stsReplicas demoWorkload) = [0]"
proof -
  have "stsStart demoWorkload = 0" "stsReplicas demoWorkload = 1"
    by (simp_all add: demoWorkload_def stsStart_def stsReplicas_def)
  then show ?thesis by (simp add: ordinalsUpTo_eq)
qed

lemma demo_collects: "exec (collect demoLibraries demoMetadata) demoCollection (Ok demoObservation)"
proof -
  let ?data = "pairReads ''n'' ''data-db-0'' (demoPVC ''data-db-0'' ''u1'' ''pv1'') (demoPV ''data-db-0'' ''u1'' ''pv1'')"
  let ?ckpt = "pairReads ''n'' ''ckpt'' (demoPVC ''ckpt'' ''u2'' ''pv2'') (demoPV ''ckpt'' ''u2'' ''pv2'')"
  have claim: "claimName ''data'' ''db'' (sint (0 :: int32)) = ''data-db-0''"
    by (simp add: claimName_def showInt_def showNat_zero)
  have "exec (collectOrdinals ''n'' ''db'' ''data'' [0] [] []) (?data @ []) (Ok ([demoData], [''data-db-0'']))"
    unfolding collectOrdinals.simps Let_def claim by (rule exec_andThenI, rule demo_pairs) simp
  note ordinals = this
  have "exec (collectTemplates demoWorkload [0] [''data''] [] []) ((?data @ []) @ []) (Ok ([demoData], [''data-db-0'']))"
    unfolding collectTemplates.simps
    by (rule exec_requireI, simp, rule exec_andThenI, simp add: demoWorkload_def, rule ordinals [simplified]) simp
  note templates = this
  have "exec (collectStandalone ''n'' [''ckpt''] [demoData] [''data-db-0'']) (?ckpt @ []) (Ok [demoData, demoCkpt])"
    using exec_andThenI [OF demo_pairs(2), of "\<lambda>volume. ret [demoData, volume]" "[]"] by simp
  note standalone = this
  have "exec now [(NowCall, Clock 5)] (Ok 5)" by (simp add: exec_rules)
  note clock = this
  have fits: "volumesFit demoLibraries demoWorkload"
    by (simp add: volumesFit_def volumesCapacity_def demo_template stsReplicas_def) (simp add: demoWorkload_def)
  have "exec (observeWorkload demoLibraries demoWorkload) (((?data @ []) @ []) @ (?ckpt @ []) @ [(NowCall, Clock 5)] @ [])
     (Ok demoObservation)"
    unfolding observeWorkload_def Let_def demo_ordinals demo_template(2) demo_standalone
    by (simp only: fits not_True_eq_False if_False, rule exec_andThenI, rule templates, simp only: prod.case, rule exec_andThenI,
        simp add: demoWorkload_def, rule standalone [simplified], rule exec_andThenI, rule clock)
      (simp add: demoObservation_def demoWorkload_def)
  note observe = this
  have "exec (collect demoLibraries demoMetadata)
      ([(GetCall StatefulSetKind (''n'', ''db''), Object (StatefulSetObj demoWorkload))] @
       (((?data @ []) @ []) @ (?ckpt @ []) @ [(NowCall, Clock 5)] @ [])) (Ok demoObservation)"
  proof -
    have reads: "om_Namespace (md_meta demoMetadata) = ''n''" "wr_Name (mds_WorkloadRef (md_Spec demoMetadata)) = ''db''"
      by (simp_all add: demo_defs)
    show ?thesis
      unfolding collect_def Let_def reads
      by (rule exec_requireI, simp, rule exec_tryI, rule exec_getStatefulSet, rule exec_requireI,
          simp add: demoWorkload_def stsReplicas_def, rule exec_requireI, simp add: demo_template, rule observe)
  qed
  then show ?thesis by (simp add: demoCollection_def)
qed

definition demoUncollected :: PVMetadata where
  "demoUncollected = demoMetadata\<lparr> md_Status := emptyMetadataStatus \<rparr>"

definition demoCollected :: PVMetadata where
  "demoCollected = demoUncollected\<lparr> md_Status := successfulStatus emptyMetadataStatus demoUncollected demoObservation \<rparr>"

definition demoCollectRun :: trace where
  "demoCollectRun = ((GetCall MetadataKind (''n'', ''md''), Object (MetadataObj demoUncollected)) # demoCollection) @
     (StatusPatchCall (MetadataObj demoUncollected) (MetadataObj demoCollected), Object (MetadataObj demoCollected)) # []"

lemma publish_writes:
  assumes "md_Status md \<noteq> status"
  shows "exec (publish poll md status) [(StatusPatchCall (MetadataObj md) (MetadataObj (md\<lparr> md_Status := status \<rparr>)),
     Object (MetadataObj x))] (Ok (pollInterval poll, None))"
proof -
  have "exec (patchMetadataStatus md (md\<lparr> md_Status := status \<rparr>))
     [(StatusPatchCall (MetadataObj md) (MetadataObj (md\<lparr> md_Status := status \<rparr>)), Object (MetadataObj x))] (Ok ())"
    by (auto simp: patchMetadataStatus_def intro!: exec_callI)
  from exec_tryI [OF this, of "\<lambda>_. ret (pollInterval poll, None)" "[]" "Ok (pollInterval poll, None)" "\<lambda>e. ret (0, Some e)"] assms
  show ?thesis by (simp add: publish_def)
qed

lemma member_pass:
  assumes "mds_SourceCluster (md_Spec md) = clusterName" and "exec (collect L md) tr (Ok obs)"
    and "exec (publish poll md (successfulStatus (md_Status md) md obs)) tr' y"
  shows "exec (MemberReconcile L clusterName poll req) ((GetCall MetadataKind req, Object (MetadataObj md)) # tr @ tr') y"
proof -
  have "exec (MemberReconcile L clusterName poll req) ([(GetCall MetadataKind req, Object (MetadataObj md))] @ tr @ tr') y"
    unfolding MemberReconcile_def
    by (rule exec_tryI, rule exec_typed_callI, simp only: assms(1) HOL.simp_thms if_False, rule exec_tryI,
        rule assms(2), rule assms(3))
  then show ?thesis by simp
qed

lemma collect_reads_spec:
  "md_meta md = md_meta md' \<Longrightarrow> md_Spec md = md_Spec md' \<Longrightarrow> collect L md = collect L md'"
  by (simp add: collect_def)

lemma demo_collect_run: "exec (MemberReconcile demoLibraries ''a'' 0 (''n'', ''md'')) demoCollectRun (Ok (minute, None))"
proof -
  have same: "collect demoLibraries demoUncollected = collect demoLibraries demoMetadata"
    by (rule collect_reads_spec) (simp_all add: demoUncollected_def)
  have st: "md_Status demoUncollected = emptyMetadataStatus" by (simp add: demoUncollected_def)
  have "successfulStatus emptyMetadataStatus demoUncollected demoObservation \<noteq> emptyMetadataStatus"
    by (auto simp: successfulStatus_def emptyMetadataStatus_def)
  then have pub: "exec (publish 0 demoUncollected (successfulStatus (md_Status demoUncollected) demoUncollected demoObservation))
      [(StatusPatchCall (MetadataObj demoUncollected) (MetadataObj demoCollected), Object (MetadataObj demoCollected))] (Ok (minute, None))"
    using publish_writes [of demoUncollected "successfulStatus emptyMetadataStatus demoUncollected demoObservation" 0 demoCollected]
    by (simp add: st pollInterval_def demoCollected_def)
  have "mds_SourceCluster (md_Spec demoUncollected) = ''a''" by (simp add: demoUncollected_def demo_defs)
  from member_pass [OF this demo_collects [folded same] pub] show ?thesis by (simp add: demoCollectRun_def)
qed

section \<open>Status writes\<close>

lemma member_write:
  assumes "exec (MemberReconcile L clusterName poll req) (pre @ (StatusPatchCall base new, r) # post) x"
  obtains md rest status where "pre = (GetCall MetadataKind req, Object (MetadataObj md)) # rest"
    "mds_SourceCluster (md_Spec md) = clusterName" "base = MetadataObj md" "new = MetadataObj (md\<lparr> md_Status := status \<rparr>)"
    "memberWrite L rest md status"
  using member.call_guard [OF assms] unfolding memberGuard_def by auto

text \<open>
  A request over unbounded ordinals, and the volume that answers it: it comes from a claim and a
  volume read in this pass that are sound together, and carries the template and the ordinal.
\<close>

definition collectedFor :: "string \<Rightarrow> trace \<Rightarrow> string \<times> int \<times> string \<Rightarrow> VolumeMetadata \<Rightarrow> bool" where
  "collectedFor ns tr q v \<longleftrightarrow>
     (case q of (t, i, name) \<Rightarrow>
        vm_TemplateName v = t \<and> sint (vm_Ordinal v) = i \<and>
        (\<exists>pvc pv. set (pairReads ns name pvc pv) \<subseteq> set tr \<and> soundPair pvc pv \<and> v = volumeOf t (vm_Ordinal v) pvc pv))"

lemma collectedAs_For:
  assumes "collectedAs ns tr q v"
  shows "collectedFor ns tr (readRequest q) v"
proof -
  obtain t k name where q: "q = (t, k, name)" by (cases q)
  with assms obtain pvc pv where "set (pairReads ns name pvc pv) \<subseteq> set tr" "soundPair pvc pv" "v = volumeOf t k pvc pv"
    by (auto simp: collectedAs_def)
  moreover from this(3) have "vm_TemplateName v = t" "vm_Ordinal v = k" by (simp_all add: volumeOf_def)
  ultimately show ?thesis
    unfolding q collectedFor_def readRequest_def prod.case by (intro conjI exI [of _ pvc] exI [of _ pv]) simp_all
qed

text \<open>
  C30: \<open>Ready\<close> metadata is a true picture: when a pass publishes it for a workload whose last
  ordinal is in the range of \<open>int32\<close>, the workload was read in that pass, and the volumes are, in
  order, exactly one for every claim template and every ordinal from the start of the workload
  to its start plus replicas, counted over unbounded integers, and one for every standalone
  claim; each comes from a claim and a volume read in that pass, both bound and not being
  deleted, with the volume's claim reference naming the claim and its UID.
\<close>

theorem ready_metadata_is_collected:
  assumes "documented_libraries L"
    and "exec (MemberReconcile L clusterName poll req) (pre @ (StatusPatchCall base (MetadataObj new), r) # post) x"
    and "mdst_Ready (md_Status new)"
    and "\<forall>k nn sts. (GetCall k nn, Object (StatefulSetObj sts)) \<in> set pre \<longrightarrow>
      sint (stsStart sts) + sint (stsReplicas sts) < 2 ^ 31"
  shows "\<exists>md sts. base = MetadataObj md \<and> mds_SourceCluster (md_Spec md) = clusterName \<and> md_Spec new = md_Spec md \<and>
     mdst_ObservedGeneration (md_Status new) = om_Generation (md_meta md) \<and>
     (GetCall StatefulSetKind (om_Namespace (md_meta md), wr_Name (mds_WorkloadRef (md_Spec md))), Object (StatefulSetObj sts)) \<in> set pre \<and>
     mdst_WorkloadUID (md_Status new) = om_UID (sts_meta sts) \<and>
     list_all2 (collectedFor (om_Namespace (sts_meta sts)) pre) (intendedRequests L sts) (mdst_Volumes (md_Status new))"
proof (rule member_write [OF assms(2)])
  fix md rest status
  assume head: "pre = (GetCall MetadataKind req, Object (MetadataObj md)) # rest"
    and src: "mds_SourceCluster (md_Spec md) = clusterName" and eq: "base = MetadataObj md"
      "MetadataObj new = MetadataObj (md\<lparr> md_Status := status \<rparr>)" and wr: "memberWrite L rest md status"
  from wr assms(3) eq(2) obtain obs where run: "exec (collect L md) rest (Ok obs)"
      and status: "status = successfulStatus (md_Status md) md obs"
    by (auto simp: memberWrite_def failedStatus_def)
  have perm: "mset (lib_RangeOrder L ks) = mset ks" for ks
    using documented_libraries.range_order [OF assms(1)] by simp
  from collect_Ok [OF run perm] obtain sts where sts:
    "(GetCall StatefulSetKind (om_Namespace (md_meta md), wr_Name (mds_WorkloadRef (md_Spec md))), Object (StatefulSetObj sts)) \<in> set rest"
    "0 < sint (stsReplicas sts)" "obs_WorkloadUID obs = om_UID (sts_meta sts)"
    "list_all2 (collectedAs (om_Namespace (sts_meta sts)) rest) (expectedRequests L sts) (obs_Volumes obs)" by blast
  have "sint (stsStart sts) + sint (stsReplicas sts) < 2 ^ 31"
    using assms(4) sts(1) head by simp
  note exact = requests_in_range [OF sts(2) this, of L]
  have "list_all2 (\<lambda>q. collectedFor (om_Namespace (sts_meta sts)) pre (readRequest q)) (expectedRequests L sts) (obs_Volumes obs)"
    by (rule list_all2_mono [OF sts(4)]) (rule collectedAs_For, erule collectedAs_mono, auto simp: head)
  then have "list_all2 (collectedFor (om_Namespace (sts_meta sts)) pre) (intendedRequests L sts) (obs_Volumes obs)"
    unfolding exact [symmetric] list_all2_map1 .
  with sts(1,3) src eq status show ?thesis
    by (intro exI [of _ md] exI [of _ sts]) (simp add: head successfulStatus_def)
qed

theorem ready_metadata_is_collected_witness:
  "\<exists>sts. (GetCall StatefulSetKind (''n'', ''db''), Object (StatefulSetObj sts)) \<in> set demoCollectRun \<and>
     list_all2 (collectedFor (om_Namespace (sts_meta sts))
        ((GetCall MetadataKind (''n'', ''md''), Object (MetadataObj demoUncollected)) # demoCollection))
       (intendedRequests demoLibraries sts) [demoData, demoCkpt]"
proof -
  let ?pre = "(GetCall MetadataKind (''n'', ''md''), Object (MetadataObj demoUncollected)) # demoCollection"
  have ready: "mdst_Ready (md_Status demoCollected)" by (simp add: demoCollected_def successfulStatus_def)
  have "sint (stsStart demoWorkload) + sint (stsReplicas demoWorkload) < 2 ^ 31"
    by (simp add: demoWorkload_def stsStart_def stsReplicas_def)
  then have near: "\<forall>k nn sts. (GetCall k nn, Object (StatefulSetObj sts)) \<in> set ?pre \<longrightarrow>
      sint (stsStart sts) + sint (stsReplicas sts) < 2 ^ 31"
    by (auto simp: demoCollection_def pairReads_def)
  from ready_metadata_is_collected [OF demo_documented demo_collect_run [unfolded demoCollectRun_def] ready near]
  obtain md sts where facts: "MetadataObj demoUncollected = MetadataObj md"
    "(GetCall StatefulSetKind (om_Namespace (md_meta md), wr_Name (mds_WorkloadRef (md_Spec md))), Object (StatefulSetObj sts)) \<in> set ?pre"
    "list_all2 (collectedFor (om_Namespace (sts_meta sts)) ?pre) (intendedRequests demoLibraries sts) (mdst_Volumes (md_Status demoCollected))"
    by blast
  have reads: "om_Namespace (md_meta demoUncollected) = ''n''" "wr_Name (mds_WorkloadRef (md_Spec demoUncollected)) = ''db''"
    "mdst_Volumes (md_Status demoCollected) = [demoData, demoCkpt]"
    by (simp_all add: demoCollected_def demoUncollected_def demo_defs successfulStatus_def demoObservation_def)
  from facts show ?thesis by (auto simp: demoCollectRun_def reads)
qed

text \<open>
  C31: A failed collection keeps the last picture: when a pass publishes that the metadata is not
  ready, the volumes, the collection time, the workload UID and the observed generation are
  those of the object it read; only the flag and the message, the reason of the failure, change.
\<close>

theorem failed_collection_keeps_snapshot:
  assumes "exec (MemberReconcile L clusterName poll req) (pre @ (StatusPatchCall base (MetadataObj new), r) # post) x"
    and "\<not> mdst_Ready (md_Status new)"
  shows "\<exists>md rest e. base = MetadataObj md \<and> pre = (GetCall MetadataKind req, Object (MetadataObj md)) # rest \<and>
     exec (collect L md) rest (Err e) \<and>
     new = md\<lparr> md_Status := (md_Status md)\<lparr> mdst_Ready := False, mdst_Message := error_text e \<rparr> \<rparr>"
proof (rule member_write [OF assms(1)])
  fix md rest status
  assume head: "pre = (GetCall MetadataKind req, Object (MetadataObj md)) # rest" and eq: "base = MetadataObj md"
      "MetadataObj new = MetadataObj (md\<lparr> md_Status := status \<rparr>)" and wr: "memberWrite L rest md status"
  from wr assms(2) eq(2) obtain e where "exec (collect L md) rest (Err e)" "status = failedStatus (md_Status md) (error_text e)"
    by (auto simp: memberWrite_def successfulStatus_def)
  with head eq show ?thesis by (intro exI [of _ md] exI [of _ rest] exI [of _ e]) (simp add: failedStatus_def)
qed

text \<open>The workload has gone after the collection.\<close>

definition demoLost :: PVMetadata where
  "demoLost = demoCollected\<lparr> md_Status := (md_Status demoCollected)\<lparr> mdst_Ready := False,
     mdst_Message := ''statefulset n/db not found'' \<rparr> \<rparr>"

lemma demo_lost_run:
  "exec (MemberReconcile demoLibraries ''a'' 0 (''n'', ''md''))
     (((GetCall MetadataKind (''n'', ''md''), Object (MetadataObj demoCollected)) #
       [(GetCall StatefulSetKind (''n'', ''db''), Failed (NotFound ''gone''))]) @
      (StatusPatchCall (MetadataObj demoCollected) (MetadataObj demoLost), Object (MetadataObj demoLost)) # [])
     (Ok (minute, None))"
proof -
  have reads: "om_Namespace (md_meta demoCollected) = ''n''" "wr_Name (mds_WorkloadRef (md_Spec demoCollected)) = ''db''"
    "mds_SourceCluster (md_Spec demoCollected) = ''a''"
    by (simp_all add: demoCollected_def demoUncollected_def demo_defs)
  have "exec (getStatefulSet (''n'', ''db'')) [(GetCall StatefulSetKind (''n'', ''db''), Failed (NotFound ''gone''))] (Err (NotFound ''gone''))"
    by (auto simp: getStatefulSet_def intro!: exec_callI)
  note missing = this
  have "exec (collect demoLibraries demoCollected) ([(GetCall StatefulSetKind (''n'', ''db''), Failed (NotFound ''gone''))] @ [])
     (Err (GoError ''statefulset n/db not found''))"
    unfolding collect_def Let_def reads
    by (rule exec_requireI, simp, rule exec_tryI_Err, rule missing) (simp add: slashed_def)
  note failed = this
  have lost: "demoLost = demoCollected\<lparr> md_Status := failedStatus (md_Status demoCollected) ''statefulset n/db not found'' \<rparr>"
    by (simp add: demoLost_def failedStatus_def)
  have "mdst_Ready (md_Status demoCollected)" by (simp add: demoCollected_def successfulStatus_def)
  then have "md_Status demoCollected \<noteq> failedStatus (md_Status demoCollected) ''statefulset n/db not found''"
    by (auto simp: failedStatus_def dest: arg_cong [where f = mdst_Ready])
  from publish_writes [OF this, of 0 demoLost]
  have pub: "exec (publish 0 demoCollected (failedStatus (md_Status demoCollected) (error_text (GoError ''statefulset n/db not found''))))
     [(StatusPatchCall (MetadataObj demoCollected) (MetadataObj demoLost), Object (MetadataObj demoLost))] (Ok (minute, None))"
    by (simp add: lost pollInterval_def)
  have "exec (MemberReconcile demoLibraries ''a'' 0 (''n'', ''md''))
     ([(GetCall MetadataKind (''n'', ''md''), Object (MetadataObj demoCollected))] @
      ([(GetCall StatefulSetKind (''n'', ''db''), Failed (NotFound ''gone''))] @ []) @
      [(StatusPatchCall (MetadataObj demoCollected) (MetadataObj demoLost), Object (MetadataObj demoLost))]) (Ok (minute, None))"
    unfolding MemberReconcile_def
    by (rule exec_tryI, rule exec_typed_callI, simp only: reads HOL.simp_thms if_False, rule exec_tryI_Err,
        rule failed, rule pub)
  then show ?thesis by simp
qed

theorem failed_collection_keeps_snapshot_witness:
  "\<exists>md. MetadataObj demoCollected = MetadataObj md \<and> mdst_Volumes (md_Status demoLost) = mdst_Volumes (md_Status md)"
proof -
  have "\<not> mdst_Ready (md_Status demoLost)" by (simp add: demoLost_def)
  from failed_collection_keeps_snapshot [OF demo_lost_run this] obtain md e where "MetadataObj demoCollected = MetadataObj md"
    and eq: "demoLost = md\<lparr> md_Status := (md_Status md)\<lparr> mdst_Ready := False, mdst_Message := error_text e \<rparr> \<rparr>" by blast
  moreover have "mdst_Volumes (md_Status demoLost) = mdst_Volumes (md_Status md)" by (subst eq) simp
  ultimately show ?thesis by blast
qed

text \<open>
  The member controller writes nothing but the status of the metadata object it was called
  for, and that only in the cluster the object names as its source.
\<close>

lemma member_writes_own_status:
  assumes "exec (MemberReconcile L clusterName poll req) (pre @ (c, r) # post) x"
  shows "(\<exists>k nn. c = GetCall k nn) \<or> c = NowCall \<or>
     (\<exists>md status. hd pre = (GetCall MetadataKind req, Object (MetadataObj md)) \<and> mds_SourceCluster (md_Spec md) = clusterName \<and>
        c = StatusPatchCall (MetadataObj md) (MetadataObj (md\<lparr> md_Status := status \<rparr>)) \<and> status \<noteq> md_Status md)"
  using member.call_guard [OF assms] by (cases c) (auto simp: memberGuard_def memberWrite_def)

section \<open>From the member cluster to the plan\<close>

text \<open>
  C32: What a member cluster collects is what the planner asks for: when the collection of one
  claim of the namespace of the request succeeds and yields a portable NFS volume with the
  supported policy \<open>Retain\<close>, the planner accepts it for any target claim, and the planned volume
  has the collected spec, unchanged but for the claim reference, which names the target claim
  and no UID.
\<close>

theorem collected_volumes_plannable:
  assumes "exec (collectVolume (mig_Namespace m) t ordinal name) tr (Ok v)"
    and "\<forall>nn pvc. (GetCall ClaimKind nn, Object (ClaimObj pvc)) \<in> set tr \<longrightarrow> om_Namespace (pvc_meta pvc) = fst nn"
    and "pvsp_Source (vm_PVSpec v) = \<lparr> pvs_NFS = Some nfs, pvs_others = fmempty \<rparr>" "nfs_Server nfs \<noteq> []" "nfs_Path nfs \<noteq> []"
    and "pvsp_NodeAffinity (vm_PVSpec v) = None" "pvsp_ReclaimPolicy (vm_PVSpec v) = ''Retain''"
  shows "retainedSpec m v mapping = Ok ((vm_PVSpec v)\<lparr> pvsp_ClaimRef :=
     Some \<lparr> or_APIVersion = ''v1'', or_Kind = ''PersistentVolumeClaim'', or_Namespace = mig_Namespace m,
       or_Name = vmap_TargetPVC mapping, or_UID = [], or_others = fmempty \<rparr> \<rparr>)"
proof -
  from assms(1) obtain pvc pv where tr: "tr = pairReads (mig_Namespace m) name pvc pv" and sound: "soundPair pvc pv"
    and v: "v = volumeOf t ordinal pvc pv" unfolding collectVolume_Ok by blast
  have ns: "om_Namespace (pvc_meta pvc) = mig_Namespace m"
    using assms(2) by (simp add: tr pairReads_def)
  from sound obtain ref where "om_UID (pvc_meta pvc) \<noteq> []" "pvsp_ClaimRef (pv_Spec pv) = Some ref"
    "or_Name ref = om_Name (pvc_meta pvc)" "or_Namespace ref = mig_Namespace m" "or_UID ref = om_UID (pvc_meta pvc)"
    using ns by (auto simp: soundPair_def)
  with assms(3-7) show ?thesis by (simp add: v volumeOf_def retainedSpec_def Let_def)
qed

definition demoKept :: PersistentVolume where
  "demoKept = (demoPV ''ckpt'' ''u2'' ''pv2'')\<lparr> pv_Spec := (demoVolumeSpec ''ckpt'' ''u2'')\<lparr> pvsp_ReclaimPolicy := ''Retain'' \<rparr> \<rparr>"

theorem collected_volumes_plannable_witness:
  "\<exists>spec. retainedSpec demoMigration (volumeOf [] 0 (demoPVC ''ckpt'' ''u2'' ''pv2'') demoKept) demoCkptMapping = Ok spec \<and>
     pvsp_Source spec = \<lparr> pvs_NFS = Some demoNFS, pvs_others = fmempty \<rparr>"
proof -
  let ?pvc = "demoPVC ''ckpt'' ''u2'' ''pv2''"
  let ?tr = "pairReads (mig_Namespace demoMigration) ''ckpt'' ?pvc demoKept"
  have "soundPair ?pvc demoKept"
    by (simp add: soundPair_def demoKept_def demoPVC_def demoPV_def emptyMeta_def demo_defs)
  then have run: "exec (collectVolume (mig_Namespace demoMigration) [] 0 ''ckpt'') ?tr (Ok (volumeOf [] 0 ?pvc demoKept))"
    unfolding collectVolume_Ok by blast
  have served: "\<forall>nn pvc. (GetCall ClaimKind nn, Object (ClaimObj pvc)) \<in> set ?tr \<longrightarrow> om_Namespace (pvc_meta pvc) = fst nn"
    by (auto simp: pairReads_def demoPVC_def demo_defs)
  have spec: "vm_PVSpec (volumeOf [] 0 ?pvc demoKept) = pv_Spec demoKept"
    by (simp add: volumeOf_def)
  have source: "pvsp_Source (vm_PVSpec (volumeOf [] 0 ?pvc demoKept)) = \<lparr> pvs_NFS = Some demoNFS, pvs_others = fmempty \<rparr>"
    "nfs_Server demoNFS \<noteq> []" "nfs_Path demoNFS \<noteq> []" "pvsp_NodeAffinity (vm_PVSpec (volumeOf [] 0 ?pvc demoKept)) = None"
    "pvsp_ReclaimPolicy (vm_PVSpec (volumeOf [] 0 ?pvc demoKept)) = ''Retain''"
    unfolding spec by (simp_all add: demoKept_def demo_defs)
  from collected_volumes_plannable [OF run served this, of demoCkptMapping] source(1) show ?thesis by simp
qed

text \<open>
  The documents support only the policy \<open>Retain\<close> in the source; the planner does not ask for it
  and sets \<open>Retain\<close> on the copy.
\<close>

lemma reclaim_policy_not_checked:
  "retainedSpec m (v\<lparr> vm_PVSpec := (vm_PVSpec v)\<lparr> pvsp_ReclaimPolicy := policy \<rparr> \<rparr>) mapping = retainedSpec m v mapping"
  by (simp add: retainedSpec_def Let_def split: option.split)

end
