(* ===== verification/Store.thy ===== *)
theory Store
  imports Prelude "HOL-Library.Monad_Syntax"
begin

text \<open>
  Go's memory, as far as the code that copies objects sees it.  A store is the list of the
  arrays allocated so far: an address is a position of the list, allocation appends, a write
  through a pointer replaces an array in place.  A pointer to a variable of type \<open>T\<close> is an
  address with an index, because \<open>&xs[i]\<close> and \<open>new(T)\<close> are pointers of the same type;
  a slice is its header.  A \<open>nil\<close> pointer or slice is \<open>None\<close>, a dangling or ill-typed access and
  an index out of range yield \<open>None\<close>.

  The locale \<open>deep_copier\<close> says what a deep copy promises.  Each combinator of the
  generated code (an optional pointer, a fresh variable, a slice copied element by element) is
  shown to keep the promise.
\<close>

type_synonym addr = nat
type_synonym ptr = "addr \<times> nat"
type_synonym ('x, 'c) copier = "'x \<Rightarrow> 'c list \<Rightarrow> ('x \<times> 'c list) option"

record slice =
  sl_Array :: addr
  sl_Offset :: nat
  sl_Len :: nat
  sl_Cap :: nat

text \<open>How the arrays of one Go type are kept in a cell of the store, and its zero value.\<close>

record ('c, 'x) gotype =
  k_array :: "'x list \<Rightarrow> 'c"
  k_elems :: "'c \<Rightarrow> 'x list option"
  k_zero :: 'x

section \<open>Access\<close>

definition arrayAt :: "('c, 'x) gotype \<Rightarrow> addr \<Rightarrow> 'c list \<Rightarrow> 'x list option" where
  "arrayAt k a s = (if a < length s then k_elems k (s ! a) else None)"

definition load :: "('c, 'x) gotype \<Rightarrow> ptr \<Rightarrow> 'c list \<Rightarrow> 'x option" where
  "load k p s = do {
     xs \<leftarrow> arrayAt k (fst p) s;
     if snd p < length xs then Some (xs ! snd p) else None }"

definition save :: "('c, 'x) gotype \<Rightarrow> ptr \<Rightarrow> 'x \<Rightarrow> 'c list \<Rightarrow> 'c list option" where
  "save k p x s = do {
     xs \<leftarrow> arrayAt k (fst p) s;
     if snd p < length xs then Some (s[fst p := k_array k (xs[snd p := x])]) else None }"

text \<open>\<open>new(T)\<close> and \<open>make([]T, n)\<close>.\<close>

definition new :: "('c, 'x) gotype \<Rightarrow> 'c list \<Rightarrow> ptr \<times> 'c list" where
  "new k s = ((length s, 0), s @ [k_array k [k_zero k]])"

definition make :: "('c, 'x) gotype \<Rightarrow> nat \<Rightarrow> 'c list \<Rightarrow> slice \<times> 'c list" where
  "make k n s = (\<lparr> sl_Array = length s, sl_Offset = 0, sl_Len = n, sl_Cap = n \<rparr>,
                 s @ [k_array k (replicate n (k_zero k))])"

text \<open>\<open>&xs[i]\<close>, and the elements a slice shows.\<close>

definition elemPtr :: "slice \<Rightarrow> nat \<Rightarrow> ptr option" where
  "elemPtr sl i = (if i < sl_Len sl then Some (sl_Array sl, sl_Offset sl + i) else None)"

definition view :: "('c, 'x) gotype \<Rightarrow> slice \<Rightarrow> 'c list \<Rightarrow> 'x list option" where
  "view k sl s = do {
     xs \<leftarrow> arrayAt k (sl_Array sl) s;
     if sl_Offset sl + sl_Len sl \<le> length xs
     then Some (take (sl_Len sl) (drop (sl_Offset sl) xs)) else None }"

section \<open>The copying statements of the generated code\<close>

text \<open>\<open>if in.P != nil { out.P = in.P.DeepCopy() }\<close>, after \<open>*out = *in\<close> has set a nil one.\<close>

fun copyPointer :: "('p, 'c) copier \<Rightarrow> ('p option, 'c) copier" where
  "copyPointer deepCopy None s = Some (None, s)"
| "copyPointer deepCopy (Some p) s = do { (q, t) \<leftarrow> deepCopy p s; Some (Some q, t) }"

text \<open>\<open>out := new(T); in.DeepCopyInto(out); return out\<close>.\<close>

definition copyToNew :: "('c, 'x) gotype \<Rightarrow> ('x, 'c) copier \<Rightarrow> (ptr, 'c) copier" where
  "copyToNew k into p s = (let (q, s0) = new k s in do {
     x \<leftarrow> load k p s0;
     (y, s1) \<leftarrow> into x s0;
     s2 \<leftarrow> save k q y s1;
     Some (q, s2) })"

text \<open>\<open>for i := range src { src[i].DeepCopyInto(&dst[i]) }\<close>.\<close>

primrec copyElems ::
  "('c, 'x) gotype \<Rightarrow> ('x, 'c) copier \<Rightarrow> slice \<Rightarrow> slice \<Rightarrow> nat list \<Rightarrow> 'c list \<Rightarrow> 'c list option" where
  "copyElems k into src dst [] s = Some s"
| "copyElems k into src dst (i # is) s = do {
     p \<leftarrow> elemPtr src i;
     x \<leftarrow> load k p s;
     (y, s1) \<leftarrow> into x s;
     q \<leftarrow> elemPtr dst i;
     s2 \<leftarrow> save k q y s1;
     copyElems k into src dst is s2 }"

text \<open>\<open>if in != nil { out = make([]T, len(in)); for i := range in { ... } }\<close>.\<close>

fun copySlice :: "('c, 'x) gotype \<Rightarrow> ('x, 'c) copier \<Rightarrow> (slice option, 'c) copier" where
  "copySlice k into None s = Some (None, s)"
| "copySlice k into (Some src) s = (let (dst, s0) = make k (sl_Len src) s in do {
     s1 \<leftarrow> copyElems k into src dst [0..<sl_Len src] s0;
     Some (Some dst, s1) })"

text \<open>Go's \<open>copy(dst, src)\<close>: as many elements as both slices have.\<close>

definition copyBuiltin :: "('c, 'x) gotype \<Rightarrow> slice \<Rightarrow> slice \<Rightarrow> 'c list \<Rightarrow> 'c list option" where
  "copyBuiltin k dst src s = do {
     xs \<leftarrow> view k src s;
     ys \<leftarrow> arrayAt k (sl_Array dst) s;
     let n = min (sl_Len dst) (length xs);
     Some (s[sl_Array dst := k_array k
       (take (sl_Offset dst) ys @ take n xs @ drop (sl_Offset dst + n) ys)]) }"

fun copyFlatSlice :: "('c, 'x) gotype \<Rightarrow> (slice option, 'c) copier" where
  "copyFlatSlice k None s = Some (None, s)"
| "copyFlatSlice k (Some src) s = (let (dst, s0) = make k (sl_Len src) s in do {
     s1 \<leftarrow> copyBuiltin k dst src s0;
     Some (Some dst, s1) })"

section \<open>What a reference denotes, and where it reaches\<close>

text \<open>
  A denotation reads the value behind a piece of Go data (\<open>None\<close> if a part of it dangles);
  the reach is the set of the addresses that the value is read from.
\<close>

fun denAll :: "('a \<Rightarrow> 'b option) \<Rightarrow> 'a list \<Rightarrow> 'b list option" where
  "denAll f [] = Some []"
| "denAll f (x # xs) = do { y \<leftarrow> f x; ys \<leftarrow> denAll f xs; Some (y # ys) }"

fun denPointer :: "('c list \<Rightarrow> 'p \<Rightarrow> 'v option) \<Rightarrow> 'c list \<Rightarrow> 'p option \<Rightarrow> 'v option option" where
  "denPointer den s None = Some None"
| "denPointer den s (Some p) = do { v \<leftarrow> den s p; Some (Some v) }"

fun reachPointer :: "('c list \<Rightarrow> 'p \<Rightarrow> addr set) \<Rightarrow> 'c list \<Rightarrow> 'p option \<Rightarrow> addr set" where
  "reachPointer reach s None = {}"
| "reachPointer reach s (Some p) = reach s p"

definition denVar :: "('c, 'x) gotype \<Rightarrow> ('c list \<Rightarrow> 'x \<Rightarrow> 'v option) \<Rightarrow> 'c list \<Rightarrow> ptr \<Rightarrow> 'v option" where
  "denVar k den s p = do { x \<leftarrow> load k p s; den s x }"

definition reachVar :: "('c, 'x) gotype \<Rightarrow> ('c list \<Rightarrow> 'x \<Rightarrow> addr set) \<Rightarrow> 'c list \<Rightarrow> ptr \<Rightarrow> addr set" where
  "reachVar k reach s p =
     insert (fst p) (case load k p s of None \<Rightarrow> {} | Some x \<Rightarrow> reach s x)"

text \<open>The list behind a slice; a nil slice is an empty one, as for every reader of it.\<close>

fun denSlice ::
  "('c, 'x) gotype \<Rightarrow> ('c list \<Rightarrow> 'x \<Rightarrow> 'v option) \<Rightarrow> 'c list \<Rightarrow> slice option \<Rightarrow> 'v list option" where
  "denSlice k den s None = Some []"
| "denSlice k den s (Some sl) = do { xs \<leftarrow> view k sl s; denAll (den s) xs }"

fun reachSlice ::
  "('c, 'x) gotype \<Rightarrow> ('c list \<Rightarrow> 'x \<Rightarrow> addr set) \<Rightarrow> 'c list \<Rightarrow> slice option \<Rightarrow> addr set" where
  "reachSlice k reach s None = {}"
| "reachSlice k reach s (Some sl) =
     insert (sl_Array sl) (case view k sl s of None \<Rightarrow> {} | Some xs \<Rightarrow> \<Union> (reach s ` set xs))"

definition denFlat :: "'c list \<Rightarrow> 'x \<Rightarrow> 'x option" where
  "denFlat s x = Some x"

definition reachFlat :: "'c list \<Rightarrow> 'x \<Rightarrow> addr set" where
  "reachFlat s x = {}"

definition copyFlat :: "('x, 'c) copier" where
  "copyFlat x s = Some (x, s)"

lemmas flat_defs = denFlat_def reachFlat_def copyFlat_def

section \<open>The contract of a deep copy\<close>

text \<open>
  \<open>same_on A s t\<close>: the arrays at the addresses \<open>A\<close> are the same in both stores.  A deep copy
  always returns; it only allocates; the copy has the value of the original and is made
  of new arrays alone.
\<close>

definition same_on :: "addr set \<Rightarrow> 'c list \<Rightarrow> 'c list \<Rightarrow> bool" where
  "same_on A s t \<longleftrightarrow> (\<forall>a\<in>A. a < length t \<and> t ! a = s ! a)"

lemma same_on_mono: "same_on A s t \<Longrightarrow> B \<subseteq> A \<Longrightarrow> same_on B s t"
  by (auto simp: same_on_def)

lemma same_on_empty [simp]: "same_on {} s t"
  by (simp add: same_on_def)

lemma same_on_Un [simp]: "same_on (A \<union> B) s t \<longleftrightarrow> same_on A s t \<and> same_on B s t"
  by (auto simp: same_on_def)

lemma same_on_insert [simp]:
  "same_on (insert a A) s t \<longleftrightarrow> a < length t \<and> t ! a = s ! a \<and> same_on A s t"
  by (auto simp: same_on_def)

lemma same_on_append: "A \<subseteq> {..<length s} \<Longrightarrow> same_on A s (s @ e)"
  by (auto simp: same_on_def nth_append)

lemma same_on_update: "A \<subseteq> {..<length s} \<Longrightarrow> a \<notin> A \<Longrightarrow> same_on A s (s[a := c])"
  unfolding same_on_def by (metis length_list_update lessThan_iff nth_list_update_neq subsetD)

lemma same_on_trans: "same_on A s t \<Longrightarrow> same_on A t u \<Longrightarrow> same_on A s u"
  by (auto simp: same_on_def)

locale deep_copier =
  fixes den :: "'c list \<Rightarrow> 'x \<Rightarrow> 'v option"
    and reach :: "'c list \<Rightarrow> 'x \<Rightarrow> addr set"
    and deepCopy :: "('x, 'c) copier"
  assumes bounded: "den s x = Some v \<Longrightarrow> reach s x \<subseteq> {..<length s}"
    and framed: "den s x = Some v \<Longrightarrow> same_on (reach s x) s t \<Longrightarrow> den t x = Some v \<and> reach t x = reach s x"
    and copied: "den s x = Some v \<Longrightarrow> \<exists>y e. deepCopy x s = Some (y, s @ e) \<and> den (s @ e) y = Some v
      \<and> reach (s @ e) y \<subseteq> {length s..<length (s @ e)}"
begin

lemma grown: "den s x = Some v \<Longrightarrow> den (s @ e) x = Some v \<and> reach (s @ e) x = reach s x"
  using framed [of s x v "s @ e"] bounded [of s x v] by (simp add: same_on_append)

text \<open>What a caller sees: the copy shares no array with the original, which is unchanged.\<close>

lemma copy_apart:
  assumes "den s x = Some v"
  obtains y e where "deepCopy x s = Some (y, s @ e)" "den (s @ e) y = Some v" "den (s @ e) x = Some v"
    "reach (s @ e) y \<subseteq> {length s..<length (s @ e)}" "reach (s @ e) x \<inter> reach (s @ e) y = {}"
proof -
  obtain y e where copy: "deepCopy x s = Some (y, s @ e)" "den (s @ e) y = Some v"
    "reach (s @ e) y \<subseteq> {length s..<length (s @ e)}"
    using copied [OF assms] by blast
  moreover have "reach (s @ e) x \<inter> reach (s @ e) y = {}"
    using grown [OF assms, of e] bounded [OF assms] copy(3) by fastforce
  ultimately show thesis
    using grown [OF assms, of e] that by blast
qed

text \<open>Nothing that is written outside a value changes it.\<close>

lemma unwritten: "den s x = Some v \<Longrightarrow> a \<notin> reach s x \<Longrightarrow> den (s[a := c]) x = Some v"
  using framed [of s x v "s[a := c]"] bounded [of s x v] by (simp add: same_on_update)

end

locale stored_type =
  fixes k :: "('c, 'x) gotype"
  assumes array_elems [simp]: "k_elems k (k_array k xs) = Some xs"

end
