(* ===== verification/StoreFacts.thy ===== *)
theory StoreFacts
  imports Store
begin

text \<open>
  The combinators of theory \<open>Store\<close> keep the contract \<open>deep_copier\<close>: each statement of the
  generated code copies deeply when the routines it calls do.
\<close>

section \<open>Access\<close>

lemma arrayAt_bound: "arrayAt k a s = Some xs \<Longrightarrow> a < length s"
  by (simp add: arrayAt_def split: if_splits)

lemma arrayAt_same: "arrayAt k a s = Some xs \<Longrightarrow> same_on {a} s t \<Longrightarrow> arrayAt k a t = Some xs"
  by (simp add: arrayAt_def split: if_splits)

lemma load_Some: "load k p s = Some x \<longleftrightarrow> (\<exists>xs. arrayAt k (fst p) s = Some xs \<and> snd p < length xs \<and> x = xs ! snd p)"
  by (auto simp: load_def split: bind_splits)

lemma load_same: "load k p s = Some x \<Longrightarrow> same_on {fst p} s t \<Longrightarrow> load k p t = Some x"
  by (auto simp: load_Some dest: arrayAt_same)

lemma load_bound: "load k p s = Some x \<Longrightarrow> fst p < length s"
  by (auto simp: load_Some dest: arrayAt_bound)

lemma view_Some: "view k sl s = Some xs \<longleftrightarrow> (\<exists>ys. arrayAt k (sl_Array sl) s = Some ys
    \<and> sl_Offset sl + sl_Len sl \<le> length ys \<and> xs = take (sl_Len sl) (drop (sl_Offset sl) ys))"
  by (auto simp: view_def split: bind_splits)

lemma view_same: "view k sl s = Some xs \<Longrightarrow> same_on {sl_Array sl} s t \<Longrightarrow> view k sl t = Some xs"
  by (auto simp: view_Some dest: arrayAt_same)

lemma view_bound: "view k sl s = Some xs \<Longrightarrow> sl_Array sl < length s"
  by (auto simp: view_Some dest: arrayAt_bound)

lemma load_grown: "load k p s = Some x \<Longrightarrow> load k p (s @ e) = Some x"
  by (rule load_same) (auto simp: nth_append dest: load_bound)

lemma view_grown: "view k sl s = Some xs \<Longrightarrow> view k sl (s @ e) = Some xs"
  by (rule view_same) (auto simp: nth_append dest: view_bound)

lemma view_length: "view k sl s = Some xs \<Longrightarrow> length xs = sl_Len sl"
  by (auto simp: view_Some)

lemma view_load:
  assumes "view k sl s = Some xs" "i < length xs"
  shows "\<exists>p. elemPtr sl i = Some p \<and> fst p = sl_Array sl \<and> load k p s = Some (xs ! i)"
  using assms by (auto simp: view_Some elemPtr_def load_Some)

lemma denAll_iff: "denAll f xs = Some vs \<longleftrightarrow> list_all2 (\<lambda>x v. f x = Some v) xs vs"
  by (induction xs arbitrary: vs) (auto simp: list_all2_Cons1 bind_eq_Some_conv)

lemma denAll_cong: "(\<And>x. x \<in> set xs \<Longrightarrow> f x = g x) \<Longrightarrow> denAll f xs = denAll g xs"
  by (induction xs) auto

lemma denAll_member: "denAll f xs = Some vs \<Longrightarrow> x \<in> set xs \<Longrightarrow> \<exists>v. f x = Some v"
  by (induction xs arbitrary: vs) (auto simp: bind_eq_Some_conv)

lemma denAll_Some [simp]: "denAll Some xs = Some xs"
  by (induction xs) auto

lemma denAll_denFlat [simp]: "denAll (denFlat s) xs = Some xs"
  by (induction xs) (auto simp: denFlat_def)

lemma reachSlice_flat [simp]:
  "reachSlice k reachFlat s sl = (case sl of None \<Rightarrow> {} | Some sl \<Rightarrow> {sl_Array sl})"
  by (cases sl) (auto simp: reachFlat_def split: option.splits)

section \<open>Flat values, pointers, structs\<close>

lemma flat_copier: "deep_copier denFlat reachFlat copyFlat"
  by unfold_locales (auto simp: flat_defs)

context deep_copier
begin

lemma pointer_copier: "deep_copier (denPointer den) (reachPointer reach) (copyPointer deepCopy)"
proof
  fix s x v
  assume den: "denPointer den s x = Some v"
  show "reachPointer reach s x \<subseteq> {..<length s}"
    using den by (cases x) (auto simp: bind_eq_Some_conv dest!: bounded)
  show "\<exists>y e. copyPointer deepCopy x s = Some (y, s @ e) \<and> denPointer den (s @ e) y = Some v
      \<and> reachPointer reach (s @ e) y \<subseteq> {length s..<length (s @ e)}"
  proof (cases x)
    case (Some p)
    then obtain w where "den s p = Some w" "v = Some w"
      using den by (auto simp: bind_eq_Some_conv)
    with copied [of s p w] Some show ?thesis
      by force
  qed (use den in \<open>auto\<close>)
next
  fix s x v t
  assume "denPointer den s x = Some v" "same_on (reachPointer reach s x) s t"
  then show "denPointer den t x = Some v \<and> reachPointer reach t x = reachPointer reach s x"
    by (cases x) (auto simp: bind_eq_Some_conv dest: framed)
qed

end

text \<open>Two parts of a struct, copied one after the other.\<close>

fun denPair where
  "denPair d1 d2 s (x, y) = do { v \<leftarrow> d1 s x; w \<leftarrow> d2 s y; Some (v, w) }"

fun reachPair where
  "reachPair r1 r2 s (x, y) = (r1 s x \<union> r2 s y)"

fun copyPair :: "('x, 'c) copier \<Rightarrow> ('y, 'c) copier \<Rightarrow> ('x \<times> 'y, 'c) copier" where
  "copyPair c1 c2 (x, y) s = do {
     (x', s1) \<leftarrow> c1 x s;
     (y', s2) \<leftarrow> c2 y s1;
     Some ((x', y'), s2) }"

lemma pair_copier:
  assumes "deep_copier d1 r1 c1" "deep_copier d2 r2 c2"
  shows "deep_copier (denPair d1 d2) (reachPair r1 r2) (copyPair c1 c2)"
proof
  fix s x v
  assume den: "denPair d1 d2 s x = Some v"
  obtain x1 x2 v1 v2 where parts: "x = (x1, x2)" "v = (v1, v2)" "d1 s x1 = Some v1" "d2 s x2 = Some v2"
    using den by (cases x) (auto simp: bind_eq_Some_conv)
  show "reachPair r1 r2 s x \<subseteq> {..<length s}"
    using parts(1) deep_copier.bounded [OF assms(1) parts(3)] deep_copier.bounded [OF assms(2) parts(4)] by simp
  obtain y1 e1 where one: "c1 x1 s = Some (y1, s @ e1)" "d1 (s @ e1) y1 = Some v1"
      "r1 (s @ e1) y1 \<subseteq> {length s..<length (s @ e1)}"
    using deep_copier.copied [OF assms(1) parts(3)] by blast
  have "d2 (s @ e1) x2 = Some v2"
    using deep_copier.grown [OF assms(2) parts(4)] by blast
  then obtain y2 e2 where two: "c2 x2 (s @ e1) = Some (y2, (s @ e1) @ e2)" "d2 ((s @ e1) @ e2) y2 = Some v2"
      "r2 ((s @ e1) @ e2) y2 \<subseteq> {length (s @ e1)..<length ((s @ e1) @ e2)}"
    using deep_copier.copied [OF assms(2)] by blast
  have "d1 ((s @ e1) @ e2) y1 = Some v1 \<and> r1 ((s @ e1) @ e2) y1 = r1 (s @ e1) y1"
    using deep_copier.grown [OF assms(1) one(2)] by blast
  with one two have "copyPair c1 c2 x s = Some ((y1, y2), s @ e1 @ e2)
      \<and> denPair d1 d2 (s @ e1 @ e2) (y1, y2) = Some v
      \<and> reachPair r1 r2 (s @ e1 @ e2) (y1, y2) \<subseteq> {length s..<length (s @ e1 @ e2)}"
    using parts by auto
  then show "\<exists>y e. copyPair c1 c2 x s = Some (y, s @ e) \<and> denPair d1 d2 (s @ e) y = Some v
      \<and> reachPair r1 r2 (s @ e) y \<subseteq> {length s..<length (s @ e)}"
    by blast
next
  fix s x v t
  assume "denPair d1 d2 s x = Some v" "same_on (reachPair r1 r2 s x) s t"
  then show "denPair d1 d2 t x = Some v \<and> reachPair r1 r2 t x = reachPair r1 r2 s x"
    by (cases x) (auto simp: bind_eq_Some_conv dest: deep_copier.framed [OF assms(1)] deep_copier.framed [OF assms(2)])
qed

text \<open>A struct whose other fields are flat: \<open>*out = *in\<close>, then a part of it copied.\<close>

lemma struct_copier:
  assumes "deep_copier d r c"
    and den: "\<And>s x. den s x = do { v \<leftarrow> d s (part x); Some (build x v) }"
    and reach: "\<And>s x. reach s x = r s (part x)"
    and deepCopy: "\<And>x s. deepCopy x s = do { (p, t) \<leftarrow> c (part x) s; Some (put p x, t) }"
    and laws: "\<And>x p. part (put p x) = p" "\<And>x p. build (put p x) = build x"
  shows "deep_copier den reach deepCopy"
proof
  fix s x v
  assume v: "den s x = Some v"
  then obtain w where w: "d s (part x) = Some w" "v = build x w"
    by (auto simp: den bind_eq_Some_conv)
  show "reach s x \<subseteq> {..<length s}"
    using deep_copier.bounded [OF assms(1) w(1)] by (simp add: reach)
  obtain p e where "c (part x) s = Some (p, s @ e)" "d (s @ e) p = Some w"
      "r (s @ e) p \<subseteq> {length s..<length (s @ e)}"
    using deep_copier.copied [OF assms(1) w(1)] by blast
  then have "deepCopy x s = Some (put p x, s @ e) \<and> den (s @ e) (put p x) = Some v
      \<and> reach (s @ e) (put p x) \<subseteq> {length s..<length (s @ e)}"
    by (simp add: deepCopy den reach laws w)
  then show "\<exists>y e. deepCopy x s = Some (y, s @ e) \<and> den (s @ e) y = Some v
      \<and> reach (s @ e) y \<subseteq> {length s..<length (s @ e)}"
    by blast
next
  fix s x v t
  assume v: "den s x = Some v" and same: "same_on (reach s x) s t"
  obtain w where w: "d s (part x) = Some w" "v = build x w"
    using v by (auto simp: den bind_eq_Some_conv)
  have "d t (part x) = Some w \<and> r t (part x) = r s (part x)"
    using deep_copier.framed [OF assms(1) w(1)] same unfolding reach by blast
  then show "den t x = Some v \<and> reach t x = reach s x"
    unfolding den reach w(2) by simp
qed

text \<open>The statements of a struct's copy in the form of the rule above.\<close>

lemmas struct_simps = case_prod_unfold bind_assoc denPair.simps reachPair.simps copyPair.simps

section \<open>Variables and slices\<close>

locale element_copier = deep_copier den reach deepCopy + stored_type k
  for den :: "'c list \<Rightarrow> 'x \<Rightarrow> 'v option"
    and reach :: "'c list \<Rightarrow> 'x \<Rightarrow> addr set"
    and deepCopy :: "('x, 'c) copier"
    and k :: "('c, 'x) gotype"
begin

lemma denVar_Some: "denVar k den s p = Some v \<longleftrightarrow> (\<exists>x. load k p s = Some x \<and> den s x = Some v)"
  by (auto simp: denVar_def bind_eq_Some_conv)

lemma denSlice_Some:
  "denSlice k den s (Some sl) = Some vs \<longleftrightarrow> (\<exists>xs. view k sl s = Some xs \<and> denAll (den s) xs = Some vs)"
  by (auto simp: bind_eq_Some_conv)

text \<open>
  The state of a copy in progress: the new array holds copies of the first elements, made of
  arrays allocated after it.
\<close>

definition filled :: "'c list \<Rightarrow> 'x list \<Rightarrow> 'x list \<Rightarrow> 'c list \<Rightarrow> 'v list \<Rightarrow> bool" where
  "filled s ys zs e vs \<longleftrightarrow>
     denAll (den (s @ k_array k (ys @ zs) # e)) ys = Some vs
     \<and> (\<forall>y\<in>set ys. reach (s @ k_array k (ys @ zs) # e) y \<subseteq> {Suc (length s)..<Suc (length s) + length e})"

lemma same_on_rewrite:
  "A \<subseteq> {Suc (length s)..<Suc (length s) + length e} \<Longrightarrow> same_on A (s @ c # e) (s @ c' # e @ e')"
proof -
  assume A: "A \<subseteq> {Suc (length s)..<Suc (length s) + length e}"
  have "a < length (s @ c' # e @ e') \<and> (s @ c' # e @ e') ! a = (s @ c # e) ! a" if "a \<in> A" for a
  proof -
    have "Suc (length s) \<le> a" "a < Suc (length s) + length e"
      using A that by auto
    then obtain j where "a = length s + Suc j" "j < length e"
      by (auto simp: le_iff_add)
    then show ?thesis
      by (simp only: nth_append_length_plus nth_Cons_Suc) (simp add: nth_append)
  qed
  then show ?thesis
    by (simp add: same_on_def)
qed

lemma filled_step:
  assumes "filled s ys (z # zs) e vs" "den (s @ k_array k (ys @ z # zs) # e @ e') y = Some v"
    and "reach (s @ k_array k (ys @ z # zs) # e @ e') y
           \<subseteq> {Suc (length s) + length e..<Suc (length s) + length e + length e'}"
  shows "filled s (ys @ [y]) zs (e @ e') (vs @ [v])"
proof -
  let ?s = "s @ k_array k (ys @ z # zs) # e" and ?u = "s @ k_array k (ys @ z # zs) # e @ e'"
  let ?t = "s @ k_array k ((ys @ [y]) @ zs) # e @ e'"
  have old: "den ?t x = den ?s x \<and> reach ?t x = reach ?s x" if x: "x \<in> set ys" for x
  proof -
    obtain w where "den ?s x = Some w"
      using assms(1) denAll_member x unfolding filled_def by metis
    moreover have "same_on (reach ?s x) ?s ?t"
      by (rule same_on_rewrite) (use assms(1) x in \<open>simp add: filled_def\<close>)
    ultimately show ?thesis
      using framed by metis
  qed
  have new: "den ?t y = Some v \<and> reach ?t y = reach ?u y"
  proof (rule framed [OF assms(2)])
    show "same_on (reach ?u y) ?u ?t"
      by (rule same_on_rewrite [where e' = "[]", simplified]) (use assms(3) in force)
  qed
  have "denAll (den ?t) ys = Some vs"
    using assms(1) denAll_cong [of ys "den ?t" "den ?s"] old by (simp add: filled_def)
  then have "denAll (den ?t) (ys @ [y]) = Some (vs @ [v])"
    using new by (simp add: denAll_iff list_all2_appendI)
  moreover have "reach ?t x \<subseteq> {Suc (length s)..<Suc (length s) + length (e @ e')}" if "x \<in> set (ys @ [y])" for x
  proof (cases "x \<in> set ys")
    case True
    then have "reach ?s x \<subseteq> {Suc (length s)..<Suc (length s) + length e}"
      using assms(1) by (simp add: filled_def)
    then show ?thesis
      using old [OF True] by fastforce
  next
    case False
    with that assms(3) new show ?thesis
      by fastforce
  qed
  ultimately show ?thesis
    unfolding filled_def by blast
qed

text \<open>The loop: it copies the rest of the elements into the rest of the new array.\<close>

lemma copyElems_fills:
  assumes "view k src s = Some xs" "denAll (den s) xs = Some vs"
    and "dst = \<lparr> sl_Array = length s, sl_Offset = 0, sl_Len = length xs, sl_Cap = length xs \<rparr>"
    and "filled s ys zs e (take (length ys) vs)" "length ys + length zs = length xs"
  shows "\<exists>ys' e'. copyElems k deepCopy src dst [length ys..<length xs] (s @ k_array k (ys @ zs) # e)
      = Some (s @ k_array k ys' # e') \<and> length ys' = length xs \<and> filled s ys' [] e' vs"
  using assms(4,5)
proof (induction zs arbitrary: ys e)
  case Nil
  have "length vs = length xs"
    using assms(2) by (simp add: denAll_iff list_all2_lengthD)
  with Nil show ?case
    by auto
next
  case (Cons z zs)
  let ?i = "length ys" and ?t = "s @ k_array k (ys @ z # zs) # e"
  have i: "?i < length xs" and vs: "length vs = length xs"
    using Cons.prems(2) assms(2) by (auto simp: denAll_iff dest: list_all2_lengthD)
  obtain p where p: "elemPtr src ?i = Some p" "fst p = sl_Array src" "load k p s = Some (xs ! ?i)"
    using view_load [OF assms(1) i] by blast
  have load: "load k p ?t = Some (xs ! ?i)"
    using p(3) by (rule load_grown)
  have "den s (xs ! ?i) = Some (vs ! ?i)"
    using assms(2) i by (auto simp: denAll_iff dest: list_all2_nthD)
  then have "den ?t (xs ! ?i) = Some (vs ! ?i)"
    using grown by blast
  then obtain y e' where y: "deepCopy (xs ! ?i) ?t = Some (y, ?t @ e')" "den (?t @ e') y = Some (vs ! ?i)"
      "reach (?t @ e') y \<subseteq> {length ?t..<length (?t @ e')}"
    using copied by blast
  have q: "elemPtr dst ?i = Some (length s, ?i)"
    using i assms(3) by (simp add: elemPtr_def)
  have save: "save k (length s, ?i) y (?t @ e') = Some (s @ k_array k ((ys @ [y]) @ zs) # e @ e')"
    by (simp add: save_def arrayAt_def nth_append list_update_append)
  have "filled s (ys @ [y]) zs (e @ e') (take ?i vs @ [vs ! ?i])"
    by (rule filled_step [OF Cons.prems(1)]) (use y in \<open>simp_all add: add.assoc\<close>)
  then have "filled s (ys @ [y]) zs (e @ e') (take (length (ys @ [y])) vs)"
    using i vs by (simp add: take_Suc_conv_app_nth)
  from Cons.IH [OF this] Cons.prems(2) obtain ys' e'' where
    "copyElems k deepCopy src dst [length (ys @ [y])..<length xs] (s @ k_array k ((ys @ [y]) @ zs) # e @ e')
       = Some (s @ k_array k ys' # e'')" "length ys' = length xs" "filled s ys' [] e'' vs"
    by auto
  moreover have "copyElems k deepCopy src dst [length ys..<length xs] ?t
      = copyElems k deepCopy src dst [length (ys @ [y])..<length xs] (s @ k_array k ((ys @ [y]) @ zs) # e @ e')"
    using i p(1) load y(1) q save by (simp add: upt_conv_Cons)
  ultimately show ?case
    by metis
qed

lemma slice_copied:
  assumes "denSlice k den s sl = Some vs"
  shows "\<exists>y e. copySlice k deepCopy sl s = Some (y, s @ e) \<and> denSlice k den (s @ e) y = Some vs
      \<and> reachSlice k reach (s @ e) y \<subseteq> {length s..<length (s @ e)}"
proof (cases sl)
  case (Some src)
  obtain xs where xs: "view k src s = Some xs" "denAll (den s) xs = Some vs"
    using assms Some denSlice_Some by auto
  let ?dst = "\<lparr> sl_Array = length s, sl_Offset = 0, sl_Len = length xs, sl_Cap = length xs \<rparr>"
  have start: "filled s [] (replicate (length xs) (k_zero k)) [] (take (length []) vs)"
    by (simp add: filled_def)
  obtain ys e where loop: "copyElems k deepCopy src ?dst [0..<length xs] (s @ [k_array k (replicate (length xs) (k_zero k))])
      = Some (s @ k_array k ys # e)" "length ys = length xs" "filled s ys [] e vs"
    using copyElems_fills [OF xs refl start] by auto
  have view: "view k ?dst (s @ k_array k ys # e) = Some ys"
    using loop(2) by (simp add: view_def arrayAt_def)
  have "copySlice k deepCopy sl s = Some (Some ?dst, s @ k_array k ys # e)"
    using loop(1) view_length [OF xs(1)] Some by (simp add: make_def)
  moreover have "denSlice k den (s @ k_array k ys # e) (Some ?dst) = Some vs"
    using loop(3) view denSlice_Some by (simp add: filled_def)
  moreover have "reachSlice k reach (s @ k_array k ys # e) (Some ?dst) \<subseteq> {length s..<length (s @ k_array k ys # e)}"
    using loop(3) view by (fastforce simp: filled_def)
  ultimately show ?thesis
    by blast
qed (use assms in \<open>auto\<close>)

lemma slice_bounded: "denSlice k den s sl = Some vs \<Longrightarrow> reachSlice k reach s sl \<subseteq> {..<length s}"
proof (cases sl)
  case (Some src)
  assume "denSlice k den s sl = Some vs"
  then obtain xs where xs: "view k src s = Some xs" "denAll (den s) xs = Some vs"
    using Some denSlice_Some by auto
  have "reach s x \<subseteq> {..<length s}" if "x \<in> set xs" for x
    using denAll_member [OF xs(2) that] bounded by blast
  then show ?thesis
    using Some xs(1) view_bound [OF xs(1)] by auto
qed auto

lemma slice_framed:
  assumes "denSlice k den s sl = Some vs" "same_on (reachSlice k reach s sl) s t"
  shows "denSlice k den t sl = Some vs \<and> reachSlice k reach t sl = reachSlice k reach s sl"
proof (cases sl)
  case (Some src)
  obtain xs where xs: "view k src s = Some xs" "denAll (den s) xs = Some vs"
    using assms(1) Some denSlice_Some by auto
  have same: "same_on {sl_Array src} s t" "\<And>x. x \<in> set xs \<Longrightarrow> same_on (reach s x) s t"
    using assms(2) Some xs(1) by (auto simp: same_on_def)
  have "den t x = den s x \<and> reach t x = reach s x" if "x \<in> set xs" for x
    using denAll_member [OF xs(2) that] framed same(2) [OF that] by metis
  then have "denAll (den t) xs = Some vs" "(reach t ` set xs) = (reach s ` set xs)"
    using denAll_cong [of xs "den t" "den s"] xs(2) by auto
  then show ?thesis
    using Some xs(1) view_same [OF xs(1) same(1)] by (simp add: bind_eq_Some_conv)
qed (use assms in \<open>auto\<close>)

lemma slice_copier: "deep_copier (denSlice k den) (reachSlice k reach) (copySlice k deepCopy)"
  by unfold_locales (use slice_bounded slice_framed slice_copied in \<open>blast+\<close>)

text \<open>The same for one variable: \<open>new\<close>, copy, write.\<close>

lemma variable_copied:
  assumes "denVar k den s p = Some v"
  shows "\<exists>q e. copyToNew k deepCopy p s = Some (q, s @ e) \<and> denVar k den (s @ e) q = Some v
      \<and> reachVar k reach (s @ e) q \<subseteq> {length s..<length (s @ e)}"
proof -
  obtain x where x: "load k p s = Some x" "den s x = Some v"
    using assms denVar_Some by blast
  let ?z = "k_zero k" and ?s = "s @ [k_array k [k_zero k]]"
  have load: "load k p ?s = Some x"
    using x(1) by (rule load_grown)
  obtain y e where y: "deepCopy x ?s = Some (y, ?s @ e)" "den (?s @ e) y = Some v"
      "reach (?s @ e) y \<subseteq> {length ?s..<length (?s @ e)}"
    using copied grown [OF x(2)] by blast
  have start: "filled s [] [?z] [] []"
    by (simp add: filled_def)
  have filled: "filled s [y] [] e [v]"
    using filled_step [OF start, of e y v] y by simp
  have "copyToNew k deepCopy p s = Some ((length s, 0), s @ k_array k [y] # e)"
    using load y(1) by (simp add: copyToNew_def new_def save_def arrayAt_def nth_append list_update_append)
  moreover have "load k (length s, 0) (s @ k_array k [y] # e) = Some y"
    by (simp add: load_def arrayAt_def)
  ultimately show ?thesis
    using filled denVar_Some [of "s @ k_array k [y] # e" "(length s, 0)" v]
    by (fastforce simp: filled_def reachVar_def bind_eq_Some_conv)
qed

lemma variable_copier: "deep_copier (denVar k den) (reachVar k reach) (copyToNew k deepCopy)"
proof
  fix s p v
  assume "denVar k den s p = Some v"
  then obtain x where x: "load k p s = Some x" "den s x = Some v"
    using denVar_Some by blast
  show "reachVar k reach s p \<subseteq> {..<length s}"
    using bounded [OF x(2)] load_bound [OF x(1)] x(1) by (simp add: reachVar_def)
next
  fix s p v t
  assume "denVar k den s p = Some v" and same: "same_on (reachVar k reach s p) s t"
  then obtain x where x: "load k p s = Some x" "den s x = Some v"
    using denVar_Some by blast
  have "same_on {fst p} s t" "same_on (reach s x) s t"
    using same x(1) by (auto simp: reachVar_def same_on_def)
  then show "denVar k den t p = Some v \<and> reachVar k reach t p = reachVar k reach s p"
    using framed [OF x(2)] load_same [OF x(1)] x(1) by (simp add: denVar_def reachVar_def)
qed (rule variable_copied)

end

text \<open>Go's \<open>copy\<close> on a slice of flat values is the loop without inner copies.\<close>

context stored_type
begin

lemma flat_slice_copied:
  assumes "denSlice k denFlat s sl = Some vs"
  shows "\<exists>y e. copyFlatSlice k sl s = Some (y, s @ e) \<and> denSlice k denFlat (s @ e) y = Some vs
      \<and> reachSlice k reachFlat (s @ e) y \<subseteq> {length s..<length (s @ e)}"
proof (cases sl)
  case (Some src)
  have xs: "view k src s = Some vs"
    using assms Some by (auto simp: bind_eq_Some_conv)
  let ?dst = "\<lparr> sl_Array = length s, sl_Offset = 0, sl_Len = length vs, sl_Cap = length vs \<rparr>"
  have "view k src (s @ [k_array k (replicate (length vs) (k_zero k))]) = Some vs"
    using xs by (rule view_grown)
  then have "copyFlatSlice k sl s = Some (Some ?dst, s @ [k_array k vs])"
    using view_length [OF xs] Some by (simp add: make_def copyBuiltin_def arrayAt_def)
  moreover have "view k ?dst (s @ [k_array k vs]) = Some vs"
    by (simp add: view_def arrayAt_def)
  ultimately show ?thesis
    by fastforce
qed (use assms in \<open>auto\<close>)

lemma flat_slice_copier: "deep_copier (denSlice k denFlat) (reachSlice k reachFlat) (copyFlatSlice k)"
proof -
  have "element_copier denFlat reachFlat copyFlat k"
    using flat_copier stored_type_axioms by (rule element_copier.intro)
  then have flat: "deep_copier (denSlice k denFlat) (reachSlice k reachFlat) (copySlice k copyFlat)"
    by (rule element_copier.slice_copier)
  show ?thesis
    by unfold_locales
      (use deep_copier.bounded [OF flat] deep_copier.framed [OF flat] flat_slice_copied in \<open>blast+\<close>)
qed

end

end
