(* ===== verification/DeepCopy.thy ===== *)
theory DeepCopy
  imports StoreFacts ApiTypes
begin

text \<open>
  The generated copies of \<open>api/v1alpha1/zz_generated.deepcopy.go\<close>, over the store of theory
  \<open>Store\<close>.  Here the structs of the API package are as they lie in memory: a pointer field is
  a pointer, a slice field a slice header.  A struct type whose fields are all flat is the record
  of theory \<open>ApiTypes\<close>.  The structs of the Kubernetes packages are opaque: a value of type \<open>'l\<close>,
  with cells of their own in the store, copied by the functions of the record \<open>copy_library\<close>,
  which also says how to read them.

  A \<open>DeepCopyInto\<close> takes the value of \<open>*in\<close> and returns the value that it leaves in \<open>*out\<close>,
  because every call in the program passes as \<open>out\<close> a variable that was just allocated: the
  callers write the result there.
\<close>

section \<open>Structs in memory\<close>

record TypeMeta =
  tm_APIVersion :: string
  tm_Kind :: string

record ListMeta =
  lm_ResourceVersion :: string
  lm_Continue :: string
  lm_RemainingItemCount :: "int option"

record 'l VolumeMetadataMem =
  vmM_Standalone :: bool
  vmM_PVCSpec :: "ptr option"
  vmM_PVCName :: string
  vmM_PVCUID :: string
  vmM_TemplateName :: string
  vmM_Ordinal :: int32
  vmM_PVName :: string
  vmM_PVSpec :: 'l

record ClusterSnapshotMem =
  csM_ClusterName :: string
  csM_ObservedGeneration :: int
  csM_Ready :: bool
  csM_Message :: string
  csM_CollectedAt :: "ptr option"
  csM_WorkloadUID :: string
  csM_Volumes :: "slice option"

record PVMetadataStatusMem =
  mdstM_ObservedGeneration :: int
  mdstM_Ready :: bool
  mdstM_Message :: string
  mdstM_CollectedAt :: "ptr option"
  mdstM_WorkloadUID :: string
  mdstM_Volumes :: "slice option"
  mdstM_Clusters :: "slice option"

record 'l PVMetadataMem =
  mdM_TypeMeta :: TypeMeta
  mdM_ObjectMeta :: 'l
  mdM_Spec :: PVMetadataSpec
  mdM_Status :: PVMetadataStatusMem

record 'l PVMetadataListMem =
  mdlM_TypeMeta :: TypeMeta
  mdlM_ListMeta :: 'l
  mdlM_Items :: "slice option"

record PVMigrationSpecMem =
  msM_MetadataRef :: string
  msM_SourceCluster :: string
  msM_TargetCluster :: string
  msM_ResourceBinding :: string
  msM_SourceFenced :: bool
  msM_Volumes :: "slice option"

record PVMigrationStatusMem =
  mstM_ObservedGeneration :: int
  mstM_Phase :: string
  mstM_Message :: string
  mstM_PlanHash :: string
  mstM_Works :: "slice option"

record 'l PVMigrationMem =
  migM_TypeMeta :: TypeMeta
  migM_ObjectMeta :: 'l
  migM_Spec :: PVMigrationSpecMem
  migM_Status :: PVMigrationStatusMem

record 'l PVMigrationListMem =
  miglM_TypeMeta :: TypeMeta
  miglM_ListMeta :: 'l
  miglM_Items :: "slice option"

text \<open>A cell of the store is an array of one of these types, or belongs to a Kubernetes package.\<close>

datatype 'l cell =
    LibraryCell 'l
  | ClusterSnapshotCell "ClusterSnapshotMem list"
  | PVMetadataCell "'l PVMetadataMem list"
  | PVMetadataListCell "'l PVMetadataListMem list"
  | PVMetadataSpecCell "PVMetadataSpec list"
  | PVMetadataStatusCell "PVMetadataStatusMem list"
  | PVMigrationCell "'l PVMigrationMem list"
  | PVMigrationListCell "'l PVMigrationListMem list"
  | PVMigrationSpecCell "PVMigrationSpecMem list"
  | PVMigrationStatusCell "PVMigrationStatusMem list"
  | VolumeMetadataCell "'l VolumeMetadataMem list"
  | VolumeMappingCell "VolumeMapping list"
  | WorkReferenceCell "WorkReference list"
  | WorkloadRefCell "WorkloadRef list"

type_synonym 'l store = "'l cell list"
type_synonym ('x, 'l) copies = "('x, 'l cell) copier"

text \<open>
  The Kubernetes packages: the zero value of each struct that is embedded, its deep copy, and
  how its value and its arrays are found.
\<close>

record 'l copy_library =
  zeroObjectMeta :: 'l
  zeroListMeta :: 'l
  zeroVolumeSpec :: 'l
  denObjectMeta :: "'l store \<Rightarrow> 'l \<Rightarrow> ObjectMeta option"
  reachObjectMeta :: "'l store \<Rightarrow> 'l \<Rightarrow> addr set"
  ObjectMeta_DeepCopyInto :: "('l, 'l) copies"
  denListMeta :: "'l store \<Rightarrow> 'l \<Rightarrow> ListMeta option"
  reachListMeta :: "'l store \<Rightarrow> 'l \<Rightarrow> addr set"
  ListMeta_DeepCopyInto :: "('l, 'l) copies"
  denTime :: "'l store \<Rightarrow> ptr \<Rightarrow> time option"
  reachTime :: "'l store \<Rightarrow> ptr \<Rightarrow> addr set"
  Time_DeepCopy :: "(ptr, 'l) copies"
  denClaimSpec :: "'l store \<Rightarrow> ptr \<Rightarrow> PersistentVolumeClaimSpec option"
  reachClaimSpec :: "'l store \<Rightarrow> ptr \<Rightarrow> addr set"
  ClaimSpec_DeepCopy :: "(ptr, 'l) copies"
  denVolumeSpec :: "'l store \<Rightarrow> 'l \<Rightarrow> PersistentVolumeSpec option"
  reachVolumeSpec :: "'l store \<Rightarrow> 'l \<Rightarrow> addr set"
  VolumeSpec_DeepCopyInto :: "('l, 'l) copies"

section \<open>Zero values and arrays\<close>

definition zeroTypeMeta :: TypeMeta where
  "zeroTypeMeta = \<lparr> tm_APIVersion = [], tm_Kind = [] \<rparr>"

definition zeroMetadataSpec :: PVMetadataSpec where
  "zeroMetadataSpec = \<lparr> mds_WorkloadRef = \<lparr> wr_Name = [], wr_UID = [] \<rparr>, mds_SourceCluster = [] \<rparr>"

definition zeroMetadataStatus :: PVMetadataStatusMem where
  "zeroMetadataStatus = \<lparr> mdstM_ObservedGeneration = 0, mdstM_Ready = False, mdstM_Message = [],
     mdstM_CollectedAt = None, mdstM_WorkloadUID = [], mdstM_Volumes = None, mdstM_Clusters = None \<rparr>"

definition zeroMigrationSpec :: PVMigrationSpecMem where
  "zeroMigrationSpec = \<lparr> msM_MetadataRef = [], msM_SourceCluster = [], msM_TargetCluster = [],
     msM_ResourceBinding = [], msM_SourceFenced = False, msM_Volumes = None \<rparr>"

definition zeroMigrationStatus :: PVMigrationStatusMem where
  "zeroMigrationStatus = \<lparr> mstM_ObservedGeneration = 0, mstM_Phase = [], mstM_Message = [],
     mstM_PlanHash = [], mstM_Works = None \<rparr>"

definition ClusterSnapshotKind :: "('l cell, ClusterSnapshotMem) gotype" where
  "ClusterSnapshotKind = \<lparr> k_array = ClusterSnapshotCell,
     k_elems = (\<lambda>c. case c of ClusterSnapshotCell xs \<Rightarrow> Some xs | _ \<Rightarrow> None),
     k_zero = \<lparr> csM_ClusterName = [], csM_ObservedGeneration = 0, csM_Ready = False,
       csM_Message = [], csM_CollectedAt = None, csM_WorkloadUID = [], csM_Volumes = None \<rparr> \<rparr>"

definition PVMetadataKind :: "'l copy_library \<Rightarrow> ('l cell, 'l PVMetadataMem) gotype" where
  "PVMetadataKind L = \<lparr> k_array = PVMetadataCell,
     k_elems = (\<lambda>c. case c of PVMetadataCell xs \<Rightarrow> Some xs | _ \<Rightarrow> None),
     k_zero = \<lparr> mdM_TypeMeta = zeroTypeMeta, mdM_ObjectMeta = zeroObjectMeta L,
       mdM_Spec = zeroMetadataSpec, mdM_Status = zeroMetadataStatus \<rparr> \<rparr>"

definition PVMetadataListKind :: "'l copy_library \<Rightarrow> ('l cell, 'l PVMetadataListMem) gotype" where
  "PVMetadataListKind L = \<lparr> k_array = PVMetadataListCell,
     k_elems = (\<lambda>c. case c of PVMetadataListCell xs \<Rightarrow> Some xs | _ \<Rightarrow> None),
     k_zero = \<lparr> mdlM_TypeMeta = zeroTypeMeta, mdlM_ListMeta = zeroListMeta L, mdlM_Items = None \<rparr> \<rparr>"

definition PVMetadataSpecKind :: "('l cell, PVMetadataSpec) gotype" where
  "PVMetadataSpecKind = \<lparr> k_array = PVMetadataSpecCell,
     k_elems = (\<lambda>c. case c of PVMetadataSpecCell xs \<Rightarrow> Some xs | _ \<Rightarrow> None),
     k_zero = zeroMetadataSpec \<rparr>"

definition PVMetadataStatusKind :: "('l cell, PVMetadataStatusMem) gotype" where
  "PVMetadataStatusKind = \<lparr> k_array = PVMetadataStatusCell,
     k_elems = (\<lambda>c. case c of PVMetadataStatusCell xs \<Rightarrow> Some xs | _ \<Rightarrow> None),
     k_zero = zeroMetadataStatus \<rparr>"

definition PVMigrationKind :: "'l copy_library \<Rightarrow> ('l cell, 'l PVMigrationMem) gotype" where
  "PVMigrationKind L = \<lparr> k_array = PVMigrationCell,
     k_elems = (\<lambda>c. case c of PVMigrationCell xs \<Rightarrow> Some xs | _ \<Rightarrow> None),
     k_zero = \<lparr> migM_TypeMeta = zeroTypeMeta, migM_ObjectMeta = zeroObjectMeta L,
       migM_Spec = zeroMigrationSpec, migM_Status = zeroMigrationStatus \<rparr> \<rparr>"

definition PVMigrationListKind :: "'l copy_library \<Rightarrow> ('l cell, 'l PVMigrationListMem) gotype" where
  "PVMigrationListKind L = \<lparr> k_array = PVMigrationListCell,
     k_elems = (\<lambda>c. case c of PVMigrationListCell xs \<Rightarrow> Some xs | _ \<Rightarrow> None),
     k_zero = \<lparr> miglM_TypeMeta = zeroTypeMeta, miglM_ListMeta = zeroListMeta L, miglM_Items = None \<rparr> \<rparr>"

definition PVMigrationSpecKind :: "('l cell, PVMigrationSpecMem) gotype" where
  "PVMigrationSpecKind = \<lparr> k_array = PVMigrationSpecCell,
     k_elems = (\<lambda>c. case c of PVMigrationSpecCell xs \<Rightarrow> Some xs | _ \<Rightarrow> None),
     k_zero = zeroMigrationSpec \<rparr>"

definition PVMigrationStatusKind :: "('l cell, PVMigrationStatusMem) gotype" where
  "PVMigrationStatusKind = \<lparr> k_array = PVMigrationStatusCell,
     k_elems = (\<lambda>c. case c of PVMigrationStatusCell xs \<Rightarrow> Some xs | _ \<Rightarrow> None),
     k_zero = zeroMigrationStatus \<rparr>"

definition VolumeMetadataKind :: "'l copy_library \<Rightarrow> ('l cell, 'l VolumeMetadataMem) gotype" where
  "VolumeMetadataKind L = \<lparr> k_array = VolumeMetadataCell,
     k_elems = (\<lambda>c. case c of VolumeMetadataCell xs \<Rightarrow> Some xs | _ \<Rightarrow> None),
     k_zero = \<lparr> vmM_Standalone = False, vmM_PVCSpec = None, vmM_PVCName = [], vmM_PVCUID = [],
       vmM_TemplateName = [], vmM_Ordinal = 0, vmM_PVName = [], vmM_PVSpec = zeroVolumeSpec L \<rparr> \<rparr>"

definition VolumeMappingKind :: "('l cell, VolumeMapping) gotype" where
  "VolumeMappingKind = \<lparr> k_array = VolumeMappingCell,
     k_elems = (\<lambda>c. case c of VolumeMappingCell xs \<Rightarrow> Some xs | _ \<Rightarrow> None),
     k_zero = \<lparr> vmap_SourcePVC = [], vmap_TargetPVC = [] \<rparr> \<rparr>"

definition WorkReferenceKind :: "('l cell, WorkReference) gotype" where
  "WorkReferenceKind = \<lparr> k_array = WorkReferenceCell,
     k_elems = (\<lambda>c. case c of WorkReferenceCell xs \<Rightarrow> Some xs | _ \<Rightarrow> None),
     k_zero = \<lparr> ref_PVUID = [], ref_PVCUID = [], ref_Standalone = False, ref_RoutingWorkUID = [],
       ref_RoutingGeneration = 0, ref_Name = [], ref_Namespace = [], ref_Applied = False, ref_Detached = False \<rparr> \<rparr>"

definition WorkloadRefKind :: "('l cell, WorkloadRef) gotype" where
  "WorkloadRefKind = \<lparr> k_array = WorkloadRefCell,
     k_elems = (\<lambda>c. case c of WorkloadRefCell xs \<Rightarrow> Some xs | _ \<Rightarrow> None),
     k_zero = \<lparr> wr_Name = [], wr_UID = [] \<rparr> \<rparr>"

lemmas kind_defs =
  ClusterSnapshotKind_def
  PVMetadataKind_def
  PVMetadataListKind_def
  PVMetadataSpecKind_def
  PVMetadataStatusKind_def
  PVMigrationKind_def
  PVMigrationListKind_def
  PVMigrationSpecKind_def
  PVMigrationStatusKind_def
  VolumeMetadataKind_def
  VolumeMappingKind_def
  WorkReferenceKind_def
  WorkloadRefKind_def

section \<open>Flat structs\<close>

definition VolumeMapping_DeepCopyInto :: "(VolumeMapping, 'l) copies" where
  "VolumeMapping_DeepCopyInto x s = Some (x, s)"

definition VolumeMapping_DeepCopy :: "(ptr option, 'l) copies" where
  "VolumeMapping_DeepCopy = copyPointer (copyToNew VolumeMappingKind VolumeMapping_DeepCopyInto)"

definition WorkReference_DeepCopyInto :: "(WorkReference, 'l) copies" where
  "WorkReference_DeepCopyInto x s = Some (x, s)"

definition WorkReference_DeepCopy :: "(ptr option, 'l) copies" where
  "WorkReference_DeepCopy = copyPointer (copyToNew WorkReferenceKind WorkReference_DeepCopyInto)"

definition WorkloadRef_DeepCopyInto :: "(WorkloadRef, 'l) copies" where
  "WorkloadRef_DeepCopyInto x s = Some (x, s)"

definition WorkloadRef_DeepCopy :: "(ptr option, 'l) copies" where
  "WorkloadRef_DeepCopy = copyPointer (copyToNew WorkloadRefKind WorkloadRef_DeepCopyInto)"

definition PVMetadataSpec_DeepCopyInto :: "(PVMetadataSpec, 'l) copies" where
  "PVMetadataSpec_DeepCopyInto x s = Some (x\<lparr> mds_WorkloadRef := mds_WorkloadRef x \<rparr>, s)"

definition PVMetadataSpec_DeepCopy :: "(ptr option, 'l) copies" where
  "PVMetadataSpec_DeepCopy = copyPointer (copyToNew PVMetadataSpecKind PVMetadataSpec_DeepCopyInto)"

section \<open>PVMigration\<close>

definition PVMigrationSpec_DeepCopyInto :: "(PVMigrationSpecMem, 'l) copies" where
  "PVMigrationSpec_DeepCopyInto x s = do {
     (vs, t) \<leftarrow> copyFlatSlice VolumeMappingKind (msM_Volumes x) s;
     Some (x\<lparr> msM_Volumes := vs \<rparr>, t) }"

definition PVMigrationSpec_DeepCopy :: "(ptr option, 'l) copies" where
  "PVMigrationSpec_DeepCopy = copyPointer (copyToNew PVMigrationSpecKind PVMigrationSpec_DeepCopyInto)"

definition PVMigrationStatus_DeepCopyInto :: "(PVMigrationStatusMem, 'l) copies" where
  "PVMigrationStatus_DeepCopyInto x s = do {
     (ws, t) \<leftarrow> copyFlatSlice WorkReferenceKind (mstM_Works x) s;
     Some (x\<lparr> mstM_Works := ws \<rparr>, t) }"

definition PVMigrationStatus_DeepCopy :: "(ptr option, 'l) copies" where
  "PVMigrationStatus_DeepCopy = copyPointer (copyToNew PVMigrationStatusKind PVMigrationStatus_DeepCopyInto)"

text \<open>
  A \<open>runtime.Object\<close> is an interface: \<open>nil\<close>, or a pointer together with its type.  The second may hold
  a nil pointer, and is then not the nil interface.
\<close>

datatype runtimeObject =
    PVMetadataObject "ptr option"
  | PVMetadataListObject "ptr option"
  | PVMigrationObject "ptr option"
  | PVMigrationListObject "ptr option"

type_synonym 'l object_copy = "ptr option \<Rightarrow> 'l store \<Rightarrow> (runtimeObject option \<times> 'l store) option"

definition PVMigration_DeepCopyInto :: "'l copy_library \<Rightarrow> ('l PVMigrationMem, 'l) copies" where
  "PVMigration_DeepCopyInto L x s = do {
     (m, s1) \<leftarrow> ObjectMeta_DeepCopyInto L (migM_ObjectMeta x) s;
     (sp, s2) \<leftarrow> PVMigrationSpec_DeepCopyInto (migM_Spec x) s1;
     (st, s3) \<leftarrow> PVMigrationStatus_DeepCopyInto (migM_Status x) s2;
     Some (x\<lparr> migM_TypeMeta := migM_TypeMeta x, migM_ObjectMeta := m, migM_Spec := sp, migM_Status := st \<rparr>, s3) }"

definition PVMigration_DeepCopy :: "'l copy_library \<Rightarrow> (ptr option, 'l) copies" where
  "PVMigration_DeepCopy L = copyPointer (copyToNew (PVMigrationKind L) (PVMigration_DeepCopyInto L))"

definition PVMigration_DeepCopyObject :: "'l copy_library \<Rightarrow> 'l object_copy" where
  "PVMigration_DeepCopyObject L p s = do {
     (c, t) \<leftarrow> PVMigration_DeepCopy L p s;
     Some (if c \<noteq> None then Some (PVMigrationObject c) else None, t) }"

definition PVMigrationList_DeepCopyInto :: "'l copy_library \<Rightarrow> ('l PVMigrationListMem, 'l) copies" where
  "PVMigrationList_DeepCopyInto L x s = do {
     (m, s1) \<leftarrow> ListMeta_DeepCopyInto L (miglM_ListMeta x) s;
     (is, s2) \<leftarrow> copySlice (PVMigrationKind L) (PVMigration_DeepCopyInto L) (miglM_Items x) s1;
     Some (x\<lparr> miglM_TypeMeta := miglM_TypeMeta x, miglM_ListMeta := m, miglM_Items := is \<rparr>, s2) }"

definition PVMigrationList_DeepCopy :: "'l copy_library \<Rightarrow> (ptr option, 'l) copies" where
  "PVMigrationList_DeepCopy L = copyPointer (copyToNew (PVMigrationListKind L) (PVMigrationList_DeepCopyInto L))"

definition PVMigrationList_DeepCopyObject :: "'l copy_library \<Rightarrow> 'l object_copy" where
  "PVMigrationList_DeepCopyObject L p s = do {
     (c, t) \<leftarrow> PVMigrationList_DeepCopy L p s;
     Some (if c \<noteq> None then Some (PVMigrationListObject c) else None, t) }"

section \<open>PVMetadata\<close>

definition VolumeMetadata_DeepCopyInto :: "'l copy_library \<Rightarrow> ('l VolumeMetadataMem, 'l) copies" where
  "VolumeMetadata_DeepCopyInto L x s = do {
     (c, s1) \<leftarrow> copyPointer (ClaimSpec_DeepCopy L) (vmM_PVCSpec x) s;
     (p, s2) \<leftarrow> VolumeSpec_DeepCopyInto L (vmM_PVSpec x) s1;
     Some (x\<lparr> vmM_PVCSpec := c, vmM_PVSpec := p \<rparr>, s2) }"

definition VolumeMetadata_DeepCopy :: "'l copy_library \<Rightarrow> (ptr option, 'l) copies" where
  "VolumeMetadata_DeepCopy L = copyPointer (copyToNew (VolumeMetadataKind L) (VolumeMetadata_DeepCopyInto L))"

text \<open>\<open>cloneVolumes\<close> of \<open>pvsync_controller.go\<close> is the same loop over a slice of its caller.\<close>

definition cloneVolumes :: "'l copy_library \<Rightarrow> (slice option, 'l) copies" where
  "cloneVolumes L = copySlice (VolumeMetadataKind L) (VolumeMetadata_DeepCopyInto L)"

definition ClusterSnapshot_DeepCopyInto :: "'l copy_library \<Rightarrow> (ClusterSnapshotMem, 'l) copies" where
  "ClusterSnapshot_DeepCopyInto L x s = do {
     (t, s1) \<leftarrow> copyPointer (Time_DeepCopy L) (csM_CollectedAt x) s;
     (vs, s2) \<leftarrow> copySlice (VolumeMetadataKind L) (VolumeMetadata_DeepCopyInto L) (csM_Volumes x) s1;
     Some (x\<lparr> csM_CollectedAt := t, csM_Volumes := vs \<rparr>, s2) }"

definition ClusterSnapshot_DeepCopy :: "'l copy_library \<Rightarrow> (ptr option, 'l) copies" where
  "ClusterSnapshot_DeepCopy L = copyPointer (copyToNew ClusterSnapshotKind (ClusterSnapshot_DeepCopyInto L))"

definition PVMetadataStatus_DeepCopyInto :: "'l copy_library \<Rightarrow> (PVMetadataStatusMem, 'l) copies" where
  "PVMetadataStatus_DeepCopyInto L x s = do {
     (t, s1) \<leftarrow> copyPointer (Time_DeepCopy L) (mdstM_CollectedAt x) s;
     (vs, s2) \<leftarrow> copySlice (VolumeMetadataKind L) (VolumeMetadata_DeepCopyInto L) (mdstM_Volumes x) s1;
     (cs, s3) \<leftarrow> copySlice ClusterSnapshotKind (ClusterSnapshot_DeepCopyInto L) (mdstM_Clusters x) s2;
     Some (x\<lparr> mdstM_CollectedAt := t, mdstM_Volumes := vs, mdstM_Clusters := cs \<rparr>, s3) }"

definition PVMetadataStatus_DeepCopy :: "'l copy_library \<Rightarrow> (ptr option, 'l) copies" where
  "PVMetadataStatus_DeepCopy L = copyPointer (copyToNew PVMetadataStatusKind (PVMetadataStatus_DeepCopyInto L))"

definition PVMetadata_DeepCopyInto :: "'l copy_library \<Rightarrow> ('l PVMetadataMem, 'l) copies" where
  "PVMetadata_DeepCopyInto L x s = do {
     (m, s1) \<leftarrow> ObjectMeta_DeepCopyInto L (mdM_ObjectMeta x) s;
     (sp, s2) \<leftarrow> PVMetadataSpec_DeepCopyInto (mdM_Spec x) s1;
     (st, s3) \<leftarrow> PVMetadataStatus_DeepCopyInto L (mdM_Status x) s2;
     Some (x\<lparr> mdM_TypeMeta := mdM_TypeMeta x, mdM_ObjectMeta := m, mdM_Spec := sp, mdM_Status := st \<rparr>, s3) }"

definition PVMetadata_DeepCopy :: "'l copy_library \<Rightarrow> (ptr option, 'l) copies" where
  "PVMetadata_DeepCopy L = copyPointer (copyToNew (PVMetadataKind L) (PVMetadata_DeepCopyInto L))"

definition PVMetadata_DeepCopyObject :: "'l copy_library \<Rightarrow> 'l object_copy" where
  "PVMetadata_DeepCopyObject L p s = do {
     (c, t) \<leftarrow> PVMetadata_DeepCopy L p s;
     Some (if c \<noteq> None then Some (PVMetadataObject c) else None, t) }"

definition PVMetadataList_DeepCopyInto :: "'l copy_library \<Rightarrow> ('l PVMetadataListMem, 'l) copies" where
  "PVMetadataList_DeepCopyInto L x s = do {
     (m, s1) \<leftarrow> ListMeta_DeepCopyInto L (mdlM_ListMeta x) s;
     (is, s2) \<leftarrow> copySlice (PVMetadataKind L) (PVMetadata_DeepCopyInto L) (mdlM_Items x) s1;
     Some (x\<lparr> mdlM_TypeMeta := mdlM_TypeMeta x, mdlM_ListMeta := m, mdlM_Items := is \<rparr>, s2) }"

definition PVMetadataList_DeepCopy :: "'l copy_library \<Rightarrow> (ptr option, 'l) copies" where
  "PVMetadataList_DeepCopy L = copyPointer (copyToNew (PVMetadataListKind L) (PVMetadataList_DeepCopyInto L))"

definition PVMetadataList_DeepCopyObject :: "'l copy_library \<Rightarrow> 'l object_copy" where
  "PVMetadataList_DeepCopyObject L p s = do {
     (c, t) \<leftarrow> PVMetadataList_DeepCopy L p s;
     Some (if c \<noteq> None then Some (PVMetadataListObject c) else None, t) }"

lemmas copy_defs =
  ClusterSnapshot_DeepCopy_def
  PVMetadata_DeepCopy_def
  PVMetadataList_DeepCopy_def
  PVMetadataSpec_DeepCopy_def
  PVMetadataStatus_DeepCopy_def
  PVMigration_DeepCopy_def
  PVMigrationList_DeepCopy_def
  PVMigrationSpec_DeepCopy_def
  PVMigrationStatus_DeepCopy_def
  VolumeMetadata_DeepCopy_def
  VolumeMapping_DeepCopy_def
  WorkReference_DeepCopy_def
  WorkloadRef_DeepCopy_def
  cloneVolumes_def

lemmas object_defs =
  PVMigration_DeepCopyObject_def
  PVMigrationList_DeepCopyObject_def
  PVMetadata_DeepCopyObject_def
  PVMetadataList_DeepCopyObject_def

end
