(* ===== verification/DeepCopyFacts.thy ===== *)
theory DeepCopyFacts
  imports DeepCopy
begin

text \<open>
  What the structs in memory denote, and that every generated copy keeps the contract
  \<open>deep_copier\<close> when the copies of the Kubernetes packages do (locale \<open>documented_copies\<close>).  A
  reference instance, in which the label and annotation maps of an object and the capacity of
  a volume lie in arrays of their own, interprets the locale.
\<close>

section \<open>Denotations\<close>

definition denVolumeMetadata :: "'l copy_library \<Rightarrow> 'l store \<Rightarrow> 'l VolumeMetadataMem \<Rightarrow> VolumeMetadata option" where
  "denVolumeMetadata L s x = do {
     c \<leftarrow> denPointer (denClaimSpec L) s (vmM_PVCSpec x);
     p \<leftarrow> denVolumeSpec L s (vmM_PVSpec x);
     Some \<lparr> vm_Standalone = vmM_Standalone x, vm_PVCSpec = c, vm_PVCName = vmM_PVCName x,
       vm_PVCUID = vmM_PVCUID x, vm_TemplateName = vmM_TemplateName x, vm_Ordinal = vmM_Ordinal x,
       vm_PVName = vmM_PVName x, vm_PVSpec = p \<rparr> }"

definition reachVolumeMetadata :: "'l copy_library \<Rightarrow> 'l store \<Rightarrow> 'l VolumeMetadataMem \<Rightarrow> addr set" where
  "reachVolumeMetadata L s x =
     reachPointer (reachClaimSpec L) s (vmM_PVCSpec x) \<union> reachVolumeSpec L s (vmM_PVSpec x)"

abbreviation "denVolumes L \<equiv> denSlice (VolumeMetadataKind L) (denVolumeMetadata L)"
abbreviation "reachVolumes L \<equiv> reachSlice (VolumeMetadataKind L) (reachVolumeMetadata L)"

definition denClusterSnapshot :: "'l copy_library \<Rightarrow> 'l store \<Rightarrow> ClusterSnapshotMem \<Rightarrow> ClusterSnapshot option" where
  "denClusterSnapshot L s x = do {
     t \<leftarrow> denPointer (denTime L) s (csM_CollectedAt x);
     vs \<leftarrow> denVolumes L s (csM_Volumes x);
     Some \<lparr> cs_ClusterName = csM_ClusterName x, cs_ObservedGeneration = csM_ObservedGeneration x,
       cs_Ready = csM_Ready x, cs_Message = csM_Message x, cs_CollectedAt = t,
       cs_WorkloadUID = csM_WorkloadUID x, cs_Volumes = vs \<rparr> }"

definition reachClusterSnapshot :: "'l copy_library \<Rightarrow> 'l store \<Rightarrow> ClusterSnapshotMem \<Rightarrow> addr set" where
  "reachClusterSnapshot L s x =
     reachPointer (reachTime L) s (csM_CollectedAt x) \<union> reachVolumes L s (csM_Volumes x)"

abbreviation "denClusters L \<equiv> denSlice ClusterSnapshotKind (denClusterSnapshot L)"
abbreviation "reachClusters L \<equiv> reachSlice ClusterSnapshotKind (reachClusterSnapshot L)"

definition denPVMetadataStatus :: "'l copy_library \<Rightarrow> 'l store \<Rightarrow> PVMetadataStatusMem \<Rightarrow> PVMetadataStatus option" where
  "denPVMetadataStatus L s x = do {
     t \<leftarrow> denPointer (denTime L) s (mdstM_CollectedAt x);
     vs \<leftarrow> denVolumes L s (mdstM_Volumes x);
     cs \<leftarrow> denClusters L s (mdstM_Clusters x);
     Some \<lparr> mdst_ObservedGeneration = mdstM_ObservedGeneration x, mdst_Ready = mdstM_Ready x,
       mdst_Message = mdstM_Message x, mdst_CollectedAt = t, mdst_WorkloadUID = mdstM_WorkloadUID x,
       mdst_Volumes = vs, mdst_Clusters = cs \<rparr> }"

definition reachPVMetadataStatus :: "'l copy_library \<Rightarrow> 'l store \<Rightarrow> PVMetadataStatusMem \<Rightarrow> addr set" where
  "reachPVMetadataStatus L s x = reachPointer (reachTime L) s (mdstM_CollectedAt x)
     \<union> (reachVolumes L s (mdstM_Volumes x) \<union> reachClusters L s (mdstM_Clusters x))"

definition denPVMetadata :: "'l copy_library \<Rightarrow> 'l store \<Rightarrow> 'l PVMetadataMem \<Rightarrow> (TypeMeta \<times> PVMetadata) option" where
  "denPVMetadata L s x = do {
     m \<leftarrow> denObjectMeta L s (mdM_ObjectMeta x);
     st \<leftarrow> denPVMetadataStatus L s (mdM_Status x);
     Some (mdM_TypeMeta x, \<lparr> md_meta = m, md_Spec = mdM_Spec x, md_Status = st \<rparr>) }"

definition reachPVMetadata :: "'l copy_library \<Rightarrow> 'l store \<Rightarrow> 'l PVMetadataMem \<Rightarrow> addr set" where
  "reachPVMetadata L s x =
     reachObjectMeta L s (mdM_ObjectMeta x) \<union> reachPVMetadataStatus L s (mdM_Status x)"

definition denPVMetadataList ::
  "'l copy_library \<Rightarrow> 'l store \<Rightarrow> 'l PVMetadataListMem \<Rightarrow> (TypeMeta \<times> ListMeta \<times> (TypeMeta \<times> PVMetadata) list) option" where
  "denPVMetadataList L s x = do {
     m \<leftarrow> denListMeta L s (mdlM_ListMeta x);
     is \<leftarrow> denSlice (PVMetadataKind L) (denPVMetadata L) s (mdlM_Items x);
     Some (mdlM_TypeMeta x, m, is) }"

definition reachPVMetadataList :: "'l copy_library \<Rightarrow> 'l store \<Rightarrow> 'l PVMetadataListMem \<Rightarrow> addr set" where
  "reachPVMetadataList L s x = reachListMeta L s (mdlM_ListMeta x)
     \<union> reachSlice (PVMetadataKind L) (reachPVMetadata L) s (mdlM_Items x)"

definition denPVMigrationSpec :: "'l store \<Rightarrow> PVMigrationSpecMem \<Rightarrow> PVMigrationSpec option" where
  "denPVMigrationSpec s x = do {
     vs \<leftarrow> denSlice VolumeMappingKind denFlat s (msM_Volumes x);
     Some \<lparr> ms_MetadataRef = msM_MetadataRef x, ms_SourceCluster = msM_SourceCluster x,
       ms_TargetCluster = msM_TargetCluster x, ms_ResourceBinding = msM_ResourceBinding x,
       ms_SourceFenced = msM_SourceFenced x, ms_Volumes = vs \<rparr> }"

definition reachPVMigrationSpec :: "'l store \<Rightarrow> PVMigrationSpecMem \<Rightarrow> addr set" where
  "reachPVMigrationSpec s x = reachSlice VolumeMappingKind reachFlat s (msM_Volumes x)"

definition denPVMigrationStatus :: "'l store \<Rightarrow> PVMigrationStatusMem \<Rightarrow> PVMigrationStatus option" where
  "denPVMigrationStatus s x = do {
     ws \<leftarrow> denSlice WorkReferenceKind denFlat s (mstM_Works x);
     Some \<lparr> mst_ObservedGeneration = mstM_ObservedGeneration x, mst_Phase = mstM_Phase x,
       mst_Message = mstM_Message x, mst_PlanHash = mstM_PlanHash x, mst_Works = ws \<rparr> }"

definition reachPVMigrationStatus :: "'l store \<Rightarrow> PVMigrationStatusMem \<Rightarrow> addr set" where
  "reachPVMigrationStatus s x = reachSlice WorkReferenceKind reachFlat s (mstM_Works x)"

definition denPVMigration :: "'l copy_library \<Rightarrow> 'l store \<Rightarrow> 'l PVMigrationMem \<Rightarrow> (TypeMeta \<times> PVMigration) option" where
  "denPVMigration L s x = do {
     m \<leftarrow> denObjectMeta L s (migM_ObjectMeta x);
     sp \<leftarrow> denPVMigrationSpec s (migM_Spec x);
     st \<leftarrow> denPVMigrationStatus s (migM_Status x);
     Some (migM_TypeMeta x, \<lparr> mig_meta = m, mig_Spec = sp, mig_Status = st \<rparr>) }"

definition reachPVMigration :: "'l copy_library \<Rightarrow> 'l store \<Rightarrow> 'l PVMigrationMem \<Rightarrow> addr set" where
  "reachPVMigration L s x = reachObjectMeta L s (migM_ObjectMeta x)
     \<union> (reachPVMigrationSpec s (migM_Spec x) \<union> reachPVMigrationStatus s (migM_Status x))"

definition denPVMigrationList ::
  "'l copy_library \<Rightarrow> 'l store \<Rightarrow> 'l PVMigrationListMem \<Rightarrow> (TypeMeta \<times> ListMeta \<times> (TypeMeta \<times> PVMigration) list) option" where
  "denPVMigrationList L s x = do {
     m \<leftarrow> denListMeta L s (miglM_ListMeta x);
     is \<leftarrow> denSlice (PVMigrationKind L) (denPVMigration L) s (miglM_Items x);
     Some (miglM_TypeMeta x, m, is) }"

definition reachPVMigrationList :: "'l copy_library \<Rightarrow> 'l store \<Rightarrow> 'l PVMigrationListMem \<Rightarrow> addr set" where
  "reachPVMigrationList L s x = reachListMeta L s (miglM_ListMeta x)
     \<union> reachSlice (PVMigrationKind L) (reachPVMigration L) s (miglM_Items x)"

section \<open>Arrays of the API types\<close>

lemma stored_types:
  "stored_type ClusterSnapshotKind"
  "stored_type (PVMetadataKind L)"
  "stored_type (PVMetadataListKind L)"
  "stored_type PVMetadataSpecKind"
  "stored_type PVMetadataStatusKind"
  "stored_type (PVMigrationKind L)"
  "stored_type (PVMigrationListKind L)"
  "stored_type PVMigrationSpecKind"
  "stored_type PVMigrationStatusKind"
  "stored_type (VolumeMetadataKind L)"
  "stored_type VolumeMappingKind"
  "stored_type WorkReferenceKind"
  "stored_type WorkloadRefKind"
  by (simp_all add: stored_type_def kind_defs)

section \<open>The contracts\<close>

text \<open>
  What the copies of the Kubernetes packages are documented to do.  The last law is Go's typing:
  the metadata of an object is made of values of its own package, never of arrays of the API package.
\<close>

locale documented_copies =
  fixes L :: "'l copy_library"
  assumes ObjectMeta_copier: "deep_copier (denObjectMeta L) (reachObjectMeta L) (ObjectMeta_DeepCopyInto L)"
    and ListMeta_copier: "deep_copier (denListMeta L) (reachListMeta L) (ListMeta_DeepCopyInto L)"
    and Time_copier: "deep_copier (denTime L) (reachTime L) (Time_DeepCopy L)"
    and ClaimSpec_copier: "deep_copier (denClaimSpec L) (reachClaimSpec L) (ClaimSpec_DeepCopy L)"
    and VolumeSpec_copier: "deep_copier (denVolumeSpec L) (reachVolumeSpec L) (VolumeSpec_DeepCopyInto L)"
    and ObjectMeta_cells: "denObjectMeta L s x = Some m \<Longrightarrow> a \<in> reachObjectMeta L s x \<Longrightarrow> \<exists>l. s ! a = LibraryCell l"

lemma flat_struct_copiers:
  "deep_copier denFlat reachFlat VolumeMapping_DeepCopyInto"
  "deep_copier denFlat reachFlat WorkReference_DeepCopyInto"
  "deep_copier denFlat reachFlat WorkloadRef_DeepCopyInto"
  "deep_copier denFlat reachFlat PVMetadataSpec_DeepCopyInto"
  by (rule deep_copier.intro; simp add: flat_defs VolumeMapping_DeepCopyInto_def WorkReference_DeepCopyInto_def
      WorkloadRef_DeepCopyInto_def PVMetadataSpec_DeepCopyInto_def)+

interpretation mappings: stored_type VolumeMappingKind
  by (rule stored_types)

interpretation works: stored_type WorkReferenceKind
  by (rule stored_types)

lemma PVMigrationSpec_copier: "deep_copier denPVMigrationSpec reachPVMigrationSpec PVMigrationSpec_DeepCopyInto"
  by (rule struct_copier [OF mappings.flat_slice_copier,
        where part = "msM_Volumes" and put = "\<lambda>v x. x\<lparr> msM_Volumes := v \<rparr>"
        and build = "\<lambda>x vs. \<lparr> ms_MetadataRef = msM_MetadataRef x, ms_SourceCluster = msM_SourceCluster x,
          ms_TargetCluster = msM_TargetCluster x, ms_ResourceBinding = msM_ResourceBinding x,
          ms_SourceFenced = msM_SourceFenced x, ms_Volumes = vs \<rparr>"])
    (simp_all add: denPVMigrationSpec_def reachPVMigrationSpec_def PVMigrationSpec_DeepCopyInto_def struct_simps)

lemma PVMigrationStatus_copier: "deep_copier denPVMigrationStatus reachPVMigrationStatus PVMigrationStatus_DeepCopyInto"
  by (rule struct_copier [OF works.flat_slice_copier,
        where part = "mstM_Works" and put = "\<lambda>v x. x\<lparr> mstM_Works := v \<rparr>"
        and build = "\<lambda>x ws. \<lparr> mst_ObservedGeneration = mstM_ObservedGeneration x, mst_Phase = mstM_Phase x,
          mst_Message = mstM_Message x, mst_PlanHash = mstM_PlanHash x, mst_Works = ws \<rparr>"])
    (simp_all add: denPVMigrationStatus_def reachPVMigrationStatus_def PVMigrationStatus_DeepCopyInto_def struct_simps)

context documented_copies
begin

lemma VolumeMetadata_copier: "deep_copier (denVolumeMetadata L) (reachVolumeMetadata L) (VolumeMetadata_DeepCopyInto L)"
  by (rule struct_copier [OF pair_copier [OF deep_copier.pointer_copier [OF ClaimSpec_copier] VolumeSpec_copier],
        where part = "\<lambda>x. (vmM_PVCSpec x, vmM_PVSpec x)" and put = "\<lambda>(c, p) x. x\<lparr> vmM_PVCSpec := c, vmM_PVSpec := p \<rparr>"
        and build = "\<lambda>x (c, p). \<lparr> vm_Standalone = vmM_Standalone x, vm_PVCSpec = c, vm_PVCName = vmM_PVCName x,
          vm_PVCUID = vmM_PVCUID x, vm_TemplateName = vmM_TemplateName x, vm_Ordinal = vmM_Ordinal x,
          vm_PVName = vmM_PVName x, vm_PVSpec = p \<rparr>"])
    (simp_all add: denVolumeMetadata_def reachVolumeMetadata_def VolumeMetadata_DeepCopyInto_def struct_simps)

sublocale volumes: element_copier "denVolumeMetadata L" "reachVolumeMetadata L"
    "VolumeMetadata_DeepCopyInto L" "VolumeMetadataKind L"
  by (intro element_copier.intro VolumeMetadata_copier stored_types)

lemma ClusterSnapshot_copier: "deep_copier (denClusterSnapshot L) (reachClusterSnapshot L) (ClusterSnapshot_DeepCopyInto L)"
  by (rule struct_copier [OF pair_copier [OF deep_copier.pointer_copier [OF Time_copier] volumes.slice_copier],
        where part = "\<lambda>x. (csM_CollectedAt x, csM_Volumes x)" and put = "\<lambda>(t, vs) x. x\<lparr> csM_CollectedAt := t, csM_Volumes := vs \<rparr>"
        and build = "\<lambda>x (t, vs). \<lparr> cs_ClusterName = csM_ClusterName x, cs_ObservedGeneration = csM_ObservedGeneration x,
          cs_Ready = csM_Ready x, cs_Message = csM_Message x, cs_CollectedAt = t,
          cs_WorkloadUID = csM_WorkloadUID x, cs_Volumes = vs \<rparr>"])
    (simp_all add: denClusterSnapshot_def reachClusterSnapshot_def ClusterSnapshot_DeepCopyInto_def struct_simps)

sublocale clusters: element_copier "denClusterSnapshot L" "reachClusterSnapshot L"
    "ClusterSnapshot_DeepCopyInto L" ClusterSnapshotKind
  by (intro element_copier.intro ClusterSnapshot_copier stored_types)

lemma PVMetadataStatus_copier: "deep_copier (denPVMetadataStatus L) (reachPVMetadataStatus L) (PVMetadataStatus_DeepCopyInto L)"
  by (rule struct_copier [OF pair_copier [OF deep_copier.pointer_copier [OF Time_copier]
          pair_copier [OF volumes.slice_copier clusters.slice_copier]],
        where part = "\<lambda>x. (mdstM_CollectedAt x, mdstM_Volumes x, mdstM_Clusters x)" and put = "\<lambda>(t, vs, cs) x. x\<lparr> mdstM_CollectedAt := t, mdstM_Volumes := vs, mdstM_Clusters := cs \<rparr>"
        and build = "\<lambda>x (t, vs, cs). \<lparr> mdst_ObservedGeneration = mdstM_ObservedGeneration x, mdst_Ready = mdstM_Ready x,
          mdst_Message = mdstM_Message x, mdst_CollectedAt = t, mdst_WorkloadUID = mdstM_WorkloadUID x,
          mdst_Volumes = vs, mdst_Clusters = cs \<rparr>"])
    (simp_all add: denPVMetadataStatus_def reachPVMetadataStatus_def PVMetadataStatus_DeepCopyInto_def struct_simps)

lemma PVMetadata_copier: "deep_copier (denPVMetadata L) (reachPVMetadata L) (PVMetadata_DeepCopyInto L)"
  by (rule struct_copier [OF pair_copier [OF ObjectMeta_copier PVMetadataStatus_copier],
        where part = "\<lambda>x. (mdM_ObjectMeta x, mdM_Status x)" and put = "\<lambda>(m, st) x. x\<lparr> mdM_ObjectMeta := m, mdM_Status := st \<rparr>"
        and build = "\<lambda>x (m, st). (mdM_TypeMeta x, \<lparr> md_meta = m, md_Spec = mdM_Spec x, md_Status = st \<rparr>)"])
    (simp_all add: denPVMetadata_def reachPVMetadata_def PVMetadata_DeepCopyInto_def
      PVMetadataSpec_DeepCopyInto_def struct_simps)

lemma PVMigration_copier: "deep_copier (denPVMigration L) (reachPVMigration L) (PVMigration_DeepCopyInto L)"
  by (rule struct_copier [OF pair_copier [OF ObjectMeta_copier pair_copier [OF PVMigrationSpec_copier PVMigrationStatus_copier]],
        where part = "\<lambda>x. (migM_ObjectMeta x, migM_Spec x, migM_Status x)" and put = "\<lambda>(m, sp, st) x. x\<lparr> migM_ObjectMeta := m, migM_Spec := sp, migM_Status := st \<rparr>"
        and build = "\<lambda>x (m, sp, st). (migM_TypeMeta x, \<lparr> mig_meta = m, mig_Spec = sp, mig_Status = st \<rparr>)"])
    (simp_all add: denPVMigration_def reachPVMigration_def PVMigration_DeepCopyInto_def struct_simps)

sublocale statuses: element_copier "denPVMetadataStatus L" "reachPVMetadataStatus L"
    "PVMetadataStatus_DeepCopyInto L" PVMetadataStatusKind
  by (intro element_copier.intro PVMetadataStatus_copier stored_types)

sublocale metadatas: element_copier "denPVMetadata L" "reachPVMetadata L"
    "PVMetadata_DeepCopyInto L" "PVMetadataKind L"
  by (intro element_copier.intro PVMetadata_copier stored_types)

sublocale requests: element_copier "denPVMigration L" "reachPVMigration L"
    "PVMigration_DeepCopyInto L" "PVMigrationKind L"
  by (intro element_copier.intro PVMigration_copier stored_types)

lemma PVMetadataList_copier:
  "deep_copier (denPVMetadataList L) (reachPVMetadataList L) (PVMetadataList_DeepCopyInto L)"
  by (rule struct_copier [OF pair_copier [OF ListMeta_copier metadatas.slice_copier],
        where part = "\<lambda>x. (mdlM_ListMeta x, mdlM_Items x)"
        and put = "\<lambda>(m, is) x. x\<lparr> mdlM_ListMeta := m, mdlM_Items := is \<rparr>"
        and build = "\<lambda>x (m, is). (mdlM_TypeMeta x, m, is)"])
    (simp_all add: denPVMetadataList_def reachPVMetadataList_def PVMetadataList_DeepCopyInto_def struct_simps)

lemma PVMigrationList_copier:
  "deep_copier (denPVMigrationList L) (reachPVMigrationList L) (PVMigrationList_DeepCopyInto L)"
  by (rule struct_copier [OF pair_copier [OF ListMeta_copier requests.slice_copier],
        where part = "\<lambda>x. (miglM_ListMeta x, miglM_Items x)"
        and put = "\<lambda>(m, is) x. x\<lparr> miglM_ListMeta := m, miglM_Items := is \<rparr>"
        and build = "\<lambda>x (m, is). (miglM_TypeMeta x, m, is)"])
    (simp_all add: denPVMigrationList_def reachPVMigrationList_def PVMigrationList_DeepCopyInto_def struct_simps)

text \<open>The deep copies of the pointers that the controllers hold.\<close>

lemmas request_copier = requests.variable_copier
lemmas metadata_copier = metadatas.variable_copier
lemmas struct_copiers = VolumeMetadata_copier ClusterSnapshot_copier PVMetadataStatus_copier PVMetadata_copier
  PVMigration_copier PVMetadataList_copier PVMigrationList_copier
lemmas clone_copier = volumes.slice_copier [folded cloneVolumes_def]

end

section \<open>A reference instance\<close>

text \<open>
  One record holds every library struct.  The label and annotation maps of an object, times and
  claim specifications are variables of their own in the store, reached through pointers; a volume
  specification is flat.
\<close>

record library_value =
  lv_meta :: ObjectMeta
  lv_labels :: "ptr option"
  lv_annotations :: "ptr option"
  lv_list :: ListMeta
  lv_volume :: PersistentVolumeSpec
  lv_maps :: "(string, string) fmap list"
  lv_times :: "time list"
  lv_claims :: "PersistentVolumeClaimSpec list"

definition emptyVolumeSpec :: PersistentVolumeSpec where
  "emptyVolumeSpec = \<lparr> pvsp_Capacity = fmempty, pvsp_Source = \<lparr> pvs_NFS = None, pvs_others = fmempty \<rparr>,
     pvsp_AccessModes = [], pvsp_ClaimRef = None, pvsp_ReclaimPolicy = [], pvsp_StorageClassName = [],
     pvsp_VolumeMode = None, pvsp_NodeAffinity = None, pvsp_others = fmempty \<rparr>"

definition emptyClaimSpec :: PersistentVolumeClaimSpec where
  "emptyClaimSpec = \<lparr> pcs_AccessModes = [], pcs_Selector = None, pcs_Requests = fmempty,
     pcs_VolumeName = [], pcs_StorageClassName = None, pcs_VolumeMode = None, pcs_DataSource = None,
     pcs_DataSourceRef = None, pcs_VolumeAttributesClassName = None, pcs_others = fmempty \<rparr>"

definition zeroValue :: library_value where
  "zeroValue = \<lparr> lv_meta = emptyMeta, lv_labels = None, lv_annotations = None,
     lv_list = \<lparr> lm_ResourceVersion = [], lm_Continue = [], lm_RemainingItemCount = None \<rparr>,
     lv_volume = emptyVolumeSpec, lv_maps = [], lv_times = [], lv_claims = [] \<rparr>"

definition libraryKind :: "('x list \<Rightarrow> library_value) \<Rightarrow> (library_value \<Rightarrow> 'x list) \<Rightarrow> 'x \<Rightarrow> (library_value cell, 'x) gotype" where
  "libraryKind mk get z = \<lparr> k_array = (\<lambda>xs. LibraryCell (mk xs)),
     k_elems = (\<lambda>c. case c of LibraryCell x \<Rightarrow> Some (get x) | _ \<Rightarrow> None), k_zero = z \<rparr>"

definition mapKind :: "(library_value cell, (string, string) fmap) gotype" where
  "mapKind = libraryKind (\<lambda>xs. zeroValue\<lparr> lv_maps := xs \<rparr>) lv_maps fmempty"

definition timeKind :: "(library_value cell, time) gotype" where
  "timeKind = libraryKind (\<lambda>xs. zeroValue\<lparr> lv_times := xs \<rparr>) lv_times 0"

definition claimKind :: "(library_value cell, PersistentVolumeClaimSpec) gotype" where
  "claimKind = libraryKind (\<lambda>xs. zeroValue\<lparr> lv_claims := xs \<rparr>) lv_claims emptyClaimSpec"

lemma flat_variable_copier:
  "stored_type k \<Longrightarrow> deep_copier (denVar k denFlat) (reachVar k reachFlat) (copyToNew k copyFlat)"
  by (rule element_copier.variable_copier) (simp add: element_copier_def flat_copier)

lemma library_types: "stored_type mapKind" "stored_type timeKind" "stored_type claimKind"
  by (simp_all add: stored_type_def mapKind_def timeKind_def claimKind_def libraryKind_def)

abbreviation "denMap \<equiv> denPointer (denVar mapKind denFlat)"
abbreviation "reachMap \<equiv> reachPointer (reachVar mapKind reachFlat)"
abbreviation "copyMap \<equiv> copyPointer (copyToNew mapKind copyFlat)"

lemma maps_copier: "deep_copier (denPair denMap denMap) (reachPair reachMap reachMap) (copyPair copyMap copyMap)"
  by (intro pair_copier deep_copier.pointer_copier flat_variable_copier library_types)

lemma map_cells: "denMap s p = Some m \<Longrightarrow> a \<in> reachMap s p \<Longrightarrow> \<exists>l. s ! a = LibraryCell l"
  by (cases p) (auto simp: denVar_def reachVar_def reachFlat_def load_Some arrayAt_def mapKind_def
      libraryKind_def bind_eq_Some_conv split: if_splits cell.splits option.splits)

definition mapOf :: "(string, string) fmap option \<Rightarrow> (string, string) fmap" where
  "mapOf m = (case m of None \<Rightarrow> fmempty | Some m \<Rightarrow> m)"

definition referenceCopies :: "library_value copy_library" where
  "referenceCopies = \<lparr>
     zeroObjectMeta = zeroValue, zeroListMeta = zeroValue, zeroVolumeSpec = zeroValue,
     denObjectMeta = (\<lambda>s x. do {
       v \<leftarrow> denPair denMap denMap s (lv_labels x, lv_annotations x);
       Some ((lv_meta x)\<lparr> om_Labels := mapOf (fst v), om_Annotations := mapOf (snd v) \<rparr>) }),
     reachObjectMeta = (\<lambda>s x. reachPair reachMap reachMap s (lv_labels x, lv_annotations x)),
     ObjectMeta_DeepCopyInto = (\<lambda>x s. do {
       (p, t) \<leftarrow> copyPair copyMap copyMap (lv_labels x, lv_annotations x) s;
       Some (x\<lparr> lv_labels := fst p, lv_annotations := snd p \<rparr>, t) }),
     denListMeta = (\<lambda>s x. do { v \<leftarrow> denFlat s x; Some (lv_list v) }),
     reachListMeta = reachFlat,
     ListMeta_DeepCopyInto = copyFlat,
     denTime = denVar timeKind denFlat,
     reachTime = reachVar timeKind reachFlat,
     Time_DeepCopy = copyToNew timeKind copyFlat,
     denClaimSpec = denVar claimKind denFlat,
     reachClaimSpec = reachVar claimKind reachFlat,
     ClaimSpec_DeepCopy = copyToNew claimKind copyFlat,
     denVolumeSpec = (\<lambda>s x. do { v \<leftarrow> denFlat s x; Some (lv_volume v) }),
     reachVolumeSpec = reachFlat,
     VolumeSpec_DeepCopyInto = copyFlat \<rparr>"

interpretation flat: deep_copier denFlat reachFlat copyFlat
  by (rule flat_copier)

lemma projected_copier: "deep_copier (\<lambda>s x. do { v \<leftarrow> denFlat s x; Some (f v) }) reachFlat copyFlat"
  by unfold_locales (auto simp: flat_defs)

interpretation reference_copies: documented_copies referenceCopies
proof (rule documented_copies.intro)
  show "deep_copier (denObjectMeta referenceCopies) (reachObjectMeta referenceCopies)
      (ObjectMeta_DeepCopyInto referenceCopies)"
    by (rule struct_copier [OF maps_copier, where part = "\<lambda>x. (lv_labels x, lv_annotations x)"
          and put = "\<lambda>p x. x\<lparr> lv_labels := fst p, lv_annotations := snd p \<rparr>"
          and build = "\<lambda>x v. (lv_meta x)\<lparr> om_Labels := mapOf (fst v), om_Annotations := mapOf (snd v) \<rparr>"])
      (simp_all add: referenceCopies_def)
next
  fix s x m a
  assume "denObjectMeta referenceCopies s x = Some m" "a \<in> reachObjectMeta referenceCopies s x"
  then show "\<exists>l. s ! a = LibraryCell l"
    by (auto simp: referenceCopies_def bind_eq_Some_conv dest: map_cells)
qed (simp_all add: referenceCopies_def projected_copier flat_variable_copier library_types)

end
