(* ===== verification/DeepCopyResults.thy ===== *)
theory DeepCopyResults
  imports DeepCopyFacts Migration
begin

text \<open>
  What the deep copies are for.  A pass of a controller copies the request it read, edits the
  original in place (\<open>ref := &m.Status.Works[i]\<close>, then assignments through \<open>ref\<close>) and sends the
  difference of the two as a patch.  The theory shows that the copies have the value of
  their originals and share nothing with them, and that editing in place is the pure update that
  the model of the controllers uses while the copy stays as it was.
\<close>

abbreviation "denRequest L \<equiv> denVar (PVMigrationKind L) (denPVMigration L)"
abbreviation "reachRequest L \<equiv> reachVar (PVMigrationKind L) (reachPVMigration L)"
abbreviation "denMetadata L \<equiv> denVar (PVMetadataKind L) (denPVMetadata L)"
abbreviation "reachMetadata L \<equiv> reachVar (PVMetadataKind L) (reachPVMetadata L)"

section \<open>Editing a request in place\<close>

text \<open>\<open>ref := &m.Status.Works[i]\<close>, and the assignments through \<open>ref\<close> of one iteration.\<close>

definition workPtr :: "'l copy_library \<Rightarrow> ptr \<Rightarrow> nat \<Rightarrow> 'l store \<Rightarrow> ptr option" where
  "workPtr L p i s = do {
     x \<leftarrow> load (PVMigrationKind L) p s;
     sl \<leftarrow> mstM_Works (migM_Status x);
     elemPtr sl i }"

definition editWork :: "'l copy_library \<Rightarrow> ptr \<Rightarrow> nat \<Rightarrow> (WorkReference \<Rightarrow> WorkReference) \<Rightarrow> 'l store \<Rightarrow> 'l store option" where
  "editWork L p i f s = do {
     q \<leftarrow> workPtr L p i s;
     w \<leftarrow> load WorkReferenceKind q s;
     save WorkReferenceKind q (f w) s }"

text \<open>An assignment to a scalar field of \<open>m.Status\<close>.\<close>

definition editStatus ::
  "'l copy_library \<Rightarrow> ptr \<Rightarrow> (PVMigrationStatusMem \<Rightarrow> PVMigrationStatusMem) \<Rightarrow> 'l store \<Rightarrow> 'l store option" where
  "editStatus L p g s = do {
     x \<leftarrow> load (PVMigrationKind L) p s;
     save (PVMigrationKind L) p (x\<lparr> migM_Status := g (migM_Status x) \<rparr>) s }"

text \<open>
  Go's \<open>append(xs, x)\<close>: into the array when the slice has capacity left, else into a new array
  with the elements and some spare capacity that the runtime picks.
\<close>

fun appendSlice :: "('c, 'x) gotype \<Rightarrow> nat \<Rightarrow> 'x \<Rightarrow> slice option \<Rightarrow> 'c list \<Rightarrow> (slice \<times> 'c list) option" where
  "appendSlice k spare x None s =
     Some (\<lparr> sl_Array = length s, sl_Offset = 0, sl_Len = 1, sl_Cap = Suc spare \<rparr>,
           s @ [k_array k (x # replicate spare (k_zero k))])"
| "appendSlice k spare x (Some sl) s = do {
     xs \<leftarrow> arrayAt k (sl_Array sl) s;
     ys \<leftarrow> view k sl s;
     let n = sl_Len sl;
     Some (if n < sl_Cap sl \<and> sl_Offset sl + n < length xs
       then (sl\<lparr> sl_Len := Suc n \<rparr>, s[sl_Array sl := k_array k (xs[sl_Offset sl + n := x])])
       else (\<lparr> sl_Array = length s, sl_Offset = 0, sl_Len = Suc n, sl_Cap = Suc n + spare \<rparr>,
             s @ [k_array k (ys @ x # replicate spare (k_zero k))])) }"

text \<open>\<open>m.Status.Works = append(m.Status.Works, w)\<close>.\<close>

definition appendWork :: "'l copy_library \<Rightarrow> ptr \<Rightarrow> nat \<Rightarrow> WorkReference \<Rightarrow> 'l store \<Rightarrow> 'l store option" where
  "appendWork L p spare w s = do {
     x \<leftarrow> load (PVMigrationKind L) p s;
     (sl, s1) \<leftarrow> appendSlice WorkReferenceKind spare w (mstM_Works (migM_Status x)) s;
     editStatus L p (\<lambda>st. st\<lparr> mstM_Works := Some sl \<rparr>) s1 }"

datatype edit =
    SetWork nat "WorkReference \<Rightarrow> WorkReference"
  | AppendWork nat WorkReference
  | SetPlanHash string
  | SetPhase string
  | SetMessage string
  | SetGeneration int

fun runEdit :: "'l copy_library \<Rightarrow> ptr \<Rightarrow> edit \<Rightarrow> 'l store \<Rightarrow> 'l store option" where
  "runEdit L p (SetWork i f) s = editWork L p i f s"
| "runEdit L p (AppendWork spare w) s = appendWork L p spare w s"
| "runEdit L p (SetPlanHash t) s = editStatus L p (\<lambda>st. st\<lparr> mstM_PlanHash := t \<rparr>) s"
| "runEdit L p (SetPhase t) s = editStatus L p (\<lambda>st. st\<lparr> mstM_Phase := t \<rparr>) s"
| "runEdit L p (SetMessage t) s = editStatus L p (\<lambda>st. st\<lparr> mstM_Message := t \<rparr>) s"
| "runEdit L p (SetGeneration g) s = editStatus L p (\<lambda>st. st\<lparr> mstM_ObservedGeneration := g \<rparr>) s"

primrec runEdits :: "'l copy_library \<Rightarrow> ptr \<Rightarrow> edit list \<Rightarrow> 'l store \<Rightarrow> 'l store option" where
  "runEdits L p [] s = Some s"
| "runEdits L p (e # es) s = do { t \<leftarrow> runEdit L p e s; runEdits L p es t }"

text \<open>The same edits on the value, as the controllers' model makes them.\<close>

fun applyEdit :: "edit \<Rightarrow> PVMigration \<Rightarrow> PVMigration" where
  "applyEdit (SetWork i f) m = updateRef i f m"
| "applyEdit (AppendWork spare w) m = m\<lparr> mig_Status := (mig_Status m)\<lparr> mst_Works := mig_Works m @ [w] \<rparr> \<rparr>"
| "applyEdit (SetPlanHash t) m = m\<lparr> mig_Status := (mig_Status m)\<lparr> mst_PlanHash := t \<rparr> \<rparr>"
| "applyEdit (SetPhase t) m = m\<lparr> mig_Status := (mig_Status m)\<lparr> mst_Phase := t \<rparr> \<rparr>"
| "applyEdit (SetMessage t) m = m\<lparr> mig_Status := (mig_Status m)\<lparr> mst_Message := t \<rparr> \<rparr>"
| "applyEdit (SetGeneration g) m = m\<lparr> mig_Status := (mig_Status m)\<lparr> mst_ObservedGeneration := g \<rparr> \<rparr>"

text \<open>An index into the references is below their number at that moment.\<close>

fun editInRange :: "nat \<Rightarrow> edit \<Rightarrow> bool" where
  "editInRange n (SetWork i f) \<longleftrightarrow> i < n"
| "editInRange n _ \<longleftrightarrow> True"

fun workCount :: "edit \<Rightarrow> nat \<Rightarrow> nat" where
  "workCount (AppendWork spare w) n = Suc n"
| "workCount _ n = n"

primrec editsInRange :: "nat \<Rightarrow> edit list \<Rightarrow> bool" where
  "editsInRange n [] \<longleftrightarrow> True"
| "editsInRange n (e # es) \<longleftrightarrow> editInRange n e \<and> editsInRange (workCount e n) es"

text \<open>An edit writes nothing that was there outside the reach of the request, which grows by new arrays only.\<close>

definition editsOnly :: "'l copy_library \<Rightarrow> ptr \<Rightarrow> 'l store \<Rightarrow> 'l store \<Rightarrow> bool" where
  "editsOnly L p s t \<longleftrightarrow> length s \<le> length t
     \<and> reachRequest L t p \<subseteq> reachRequest L s p \<union> {length s..<length t}
     \<and> (\<forall>a<length s. a \<notin> reachRequest L s p \<longrightarrow> t ! a = s ! a)"

lemma editsOnly_trans:
  assumes "editsOnly L p s t" "editsOnly L p t u" shows "editsOnly L p s u"
proof -
  have "u ! a = s ! a" if "a < length s" "a \<notin> reachRequest L s p" for a
  proof -
    have "a \<notin> reachRequest L t p" "a < length t" using assms(1) that by (auto simp: editsOnly_def)
    with assms that show ?thesis by (simp add: editsOnly_def)
  qed
  moreover have len: "length s \<le> length t" "length t \<le> length u"
    and "reachRequest L t p \<subseteq> reachRequest L s p \<union> {length s..<length t}"
    "reachRequest L u p \<subseteq> reachRequest L t p \<union> {length t..<length u}"
    using assms unfolding editsOnly_def by blast+
  then have "reachRequest L u p \<subseteq> reachRequest L s p \<union> ({length s..<length t} \<union> {length t..<length u})" by blast
  moreover have "{length s..<length t} \<union> {length t..<length u} = {length s..<length u}" using len by auto
  moreover have "length s \<le> length u" using len by simp
  ultimately show ?thesis unfolding editsOnly_def by simp
qed

lemma withPhase_edits:
  "withPhase m ph t = fold applyEdit [SetPhase ph, SetMessage t, SetGeneration (om_Generation (mig_meta m))] m"
  by (simp add: withPhase_def)

text \<open>Recording a plan, as the pass writes it: the hash, one reference per Work, the phase.\<close>

lemma appends:
  "fold applyEdit (map (\<lambda>w. AppendWork spare (f w)) ws) m =
     m\<lparr> mig_Status := (mig_Status m)\<lparr> mst_Works := mig_Works m @ map f ws \<rparr> \<rparr>"
  by (induction ws arbitrary: m) simp_all

lemma recordPlan_edits:
  "recordPlan m hash works =
     fold applyEdit (SetPlanHash hash # map (\<lambda>w. AppendWork spare (workReference w)) works @
       [SetPhase ''Preparing'', SetMessage ''PV Work identities recorded'', SetGeneration (om_Generation (mig_meta m))]) m"
  by (simp add: recordPlan_def withPhase_def appends)

lemma recordPlan_in_range:
  "editsInRange n (SetPlanHash hash # map (\<lambda>w. AppendWork spare (workReference w)) works @
     [SetPhase ph, SetMessage t, SetGeneration g])"
  by (induction works arbitrary: n) simp_all

lemma denRequest_parts:
  assumes "denRequest L s p = Some (t, m)"
  obtains x where "load (PVMigrationKind L) p s = Some x" "t = migM_TypeMeta x"
    "denObjectMeta L s (migM_ObjectMeta x) = Some (mig_meta m)"
    "denPVMigrationSpec s (migM_Spec x) = Some (mig_Spec m)"
    "denPVMigrationStatus s (migM_Status x) = Some (mig_Status m)"
  using assms by (auto simp: denVar_def denPVMigration_def bind_eq_Some_conv)

lemma denRequest_intro:
  assumes "load (PVMigrationKind L) p s = Some x"
    "denObjectMeta L s (migM_ObjectMeta x) = Some (mig_meta m)"
    "denPVMigrationSpec s (migM_Spec x) = Some (mig_Spec m)"
    "denPVMigrationStatus s (migM_Status x) = Some (mig_Status m)"
  shows "denRequest L s p = Some (migM_TypeMeta x, m)"
  using assms by (simp add: denVar_def denPVMigration_def)

lemma spec_cells:
  "denPVMigrationSpec s x = Some v \<Longrightarrow> a \<in> reachPVMigrationSpec s x \<Longrightarrow> \<exists>vs. s ! a = VolumeMappingCell vs"
  by (cases "msM_Volumes x") (auto simp: denPVMigrationSpec_def reachPVMigrationSpec_def
      bind_eq_Some_conv view_Some arrayAt_def VolumeMappingKind_def simp del: reachSlice.simps
      split: if_splits cell.splits)

lemma status_cells:
  "denPVMigrationStatus s x = Some v \<Longrightarrow> a \<in> reachPVMigrationStatus s x \<Longrightarrow> \<exists>ws. s ! a = WorkReferenceCell ws"
  by (cases "mstM_Works x") (auto simp: denPVMigrationStatus_def reachPVMigrationStatus_def
      bind_eq_Some_conv view_Some arrayAt_def WorkReferenceKind_def simp del: reachSlice.simps
      split: if_splits cell.splits)

lemma status_iff:
  "denPVMigrationStatus s st = Some v \<longleftrightarrow> denSlice WorkReferenceKind denFlat s (mstM_Works st) = Some (mst_Works v)
     \<and> mst_ObservedGeneration v = mstM_ObservedGeneration st \<and> mst_Phase v = mstM_Phase st
     \<and> mst_Message v = mstM_Message st \<and> mst_PlanHash v = mstM_PlanHash st"
  by (cases v) (auto simp: denPVMigrationStatus_def bind_eq_Some_conv)

lemma load_cell:
  "load (PVMigrationKind L) p s = Some x \<Longrightarrow> \<exists>xs. fst p < length s \<and> s ! fst p = PVMigrationCell xs
     \<and> snd p < length xs \<and> x = xs ! snd p"
  by (auto simp: load_Some arrayAt_def PVMigrationKind_def split: if_splits cell.splits)

context documented_copies
begin

lemma meta_unwritten:
  assumes "denObjectMeta L s x = Some m" "\<And>l. s ! a \<noteq> LibraryCell l"
  shows "denObjectMeta L (s[a := c]) x = Some m \<and> reachObjectMeta L (s[a := c]) x = reachObjectMeta L s x"
proof (rule deep_copier.framed [OF ObjectMeta_copier assms(1)], rule same_on_update)
  show "reachObjectMeta L s x \<subseteq> {..<length s}"
    by (rule deep_copier.bounded [OF ObjectMeta_copier assms(1)])
  show "a \<notin> reachObjectMeta L s x"
    using ObjectMeta_cells assms by blast
qed

lemma spec_unwritten:
  assumes "denPVMigrationSpec s x = Some v" "\<And>vs. s ! a \<noteq> VolumeMappingCell vs"
  shows "denPVMigrationSpec (s[a := c]) x = Some v \<and> reachPVMigrationSpec (s[a := c]) x = reachPVMigrationSpec s x"
proof (rule deep_copier.framed [OF PVMigrationSpec_copier assms(1)], rule same_on_update)
  show "reachPVMigrationSpec s x \<subseteq> {..<length s}"
    by (rule deep_copier.bounded [OF PVMigrationSpec_copier assms(1)])
  show "a \<notin> reachPVMigrationSpec s x"
    using spec_cells assms by blast
qed

lemma saveStatus_refines:
  assumes x: "load (PVMigrationKind L) p s = Some x" "denObjectMeta L s (migM_ObjectMeta x) = Some (mig_meta m)"
      "denPVMigrationSpec s (migM_Spec x) = Some (mig_Spec m)"
    and st: "denPVMigrationStatus s (g (migM_Status x)) = Some v"
  shows "\<exists>u. editStatus L p g s = Some u \<and> denRequest L u p = Some (migM_TypeMeta x, m\<lparr> mig_Status := v \<rparr>)
     \<and> length u = length s \<and> (\<forall>a. a \<noteq> fst p \<longrightarrow> u ! a = s ! a)
     \<and> reachRequest L u p = insert (fst p) (reachPVMigration L s (x\<lparr> migM_Status := g (migM_Status x) \<rparr>))"
proof -
  obtain xs where xs: "fst p < length s" "s ! fst p = PVMigrationCell xs" "snd p < length xs" "x = xs ! snd p"
    using load_cell [OF x(1)] by blast
  let ?x = "x\<lparr> migM_Status := g (migM_Status x) \<rparr>"
  let ?u = "s[fst p := PVMigrationCell (xs[snd p := ?x])]"
  have load: "load (PVMigrationKind L) p ?u = Some ?x"
    using xs by (simp add: load_Some arrayAt_def PVMigrationKind_def)
  have status: "denPVMigrationStatus ?u (g (migM_Status x)) = Some v
      \<and> reachPVMigrationStatus ?u (g (migM_Status x)) = reachPVMigrationStatus s (g (migM_Status x))"
  proof (rule deep_copier.framed [OF PVMigrationStatus_copier st], rule same_on_update)
    show "reachPVMigrationStatus s (g (migM_Status x)) \<subseteq> {..<length s}"
      by (rule deep_copier.bounded [OF PVMigrationStatus_copier st])
    show "fst p \<notin> reachPVMigrationStatus s (g (migM_Status x))"
      using status_cells [OF st] xs(2) by fastforce
  qed
  have meta: "denObjectMeta L ?u (migM_ObjectMeta x) = Some (mig_meta m)
      \<and> reachObjectMeta L ?u (migM_ObjectMeta x) = reachObjectMeta L s (migM_ObjectMeta x)"
    by (rule meta_unwritten [OF x(2)]) (simp add: xs(2))
  have spec: "denPVMigrationSpec ?u (migM_Spec x) = Some (mig_Spec m)
      \<and> reachPVMigrationSpec ?u (migM_Spec x) = reachPVMigrationSpec s (migM_Spec x)"
    by (rule spec_unwritten [OF x(3)]) (simp add: xs(2))
  have "denRequest L ?u p = Some (migM_TypeMeta ?x, m\<lparr> mig_Status := v \<rparr>)"
    by (rule denRequest_intro [OF load]) (use meta spec status in simp_all)
  moreover have "editStatus L p g s = Some ?u"
    using x(1) xs by (simp add: editStatus_def save_def arrayAt_def PVMigrationKind_def)
  moreover have "reachRequest L ?u p = insert (fst p) (reachPVMigration L s ?x)"
    using load meta spec status by (simp add: reachVar_def reachPVMigration_def)
  ultimately show ?thesis by (intro exI [of _ ?u]) simp
qed

lemma editStatus_refines:
  assumes den: "denRequest L s p = Some (t, m)"
    and g: "\<And>st. mstM_Works (g st) = mstM_Works st"
    and h: "\<And>(s :: 'l store) st v. denPVMigrationStatus s st = Some v \<Longrightarrow> denPVMigrationStatus s (g st) = Some (h v)"
  shows "\<exists>u. editStatus L p g s = Some u \<and> denRequest L u p = Some (t, m\<lparr> mig_Status := h (mig_Status m) \<rparr>)
     \<and> editsOnly L p s u"
proof -
  obtain x where x: "load (PVMigrationKind L) p s = Some x" "t = migM_TypeMeta x"
    "denObjectMeta L s (migM_ObjectMeta x) = Some (mig_meta m)"
    "denPVMigrationSpec s (migM_Spec x) = Some (mig_Spec m)"
    "denPVMigrationStatus s (migM_Status x) = Some (mig_Status m)"
    using denRequest_parts [OF den] by metis
  obtain u where u: "editStatus L p g s = Some u" "denRequest L u p = Some (t, m\<lparr> mig_Status := h (mig_Status m) \<rparr>)"
    "length u = length s" "\<forall>a. a \<noteq> fst p \<longrightarrow> u ! a = s ! a"
    "reachRequest L u p = insert (fst p) (reachPVMigration L s (x\<lparr> migM_Status := g (migM_Status x) \<rparr>))"
    using saveStatus_refines [where g = g, OF x(1,3,4) h [OF x(5)]] x(2) by blast
  have "reachRequest L u p = reachRequest L s p"
    unfolding u(5) using x(1) g by (simp add: reachVar_def reachPVMigration_def reachPVMigrationStatus_def)
  with u show ?thesis by (auto simp: editsOnly_def reachVar_def)
qed

text \<open>An appended slice shows one element more, in its own array or in a new one.\<close>

lemma appendSlice_refines:
  assumes "stored_type k" and "denSlice k denFlat s sl = Some ys"
  shows "\<exists>sl' t. appendSlice k spare x sl s = Some (sl', t) \<and> denSlice k denFlat t (Some sl') = Some (ys @ [x])
     \<and> ((\<exists>xs. t = s @ [k_array k xs] \<and> sl_Array sl' = length s) \<or>
        (\<exists>xs xs' src. sl = Some src \<and> sl_Array sl' = sl_Array src \<and> arrayAt k (sl_Array src) s = Some xs' \<and>
           t = s[sl_Array src := k_array k xs]))"
proof (cases sl)
  case None
  have "view k \<lparr> sl_Array = length s, sl_Offset = 0, sl_Len = 1, sl_Cap = Suc spare \<rparr>
      (s @ [k_array k (x # replicate spare (k_zero k))]) = Some [x]"
    using assms(1) by (simp add: view_Some arrayAt_def stored_type.array_elems)
  with assms None show ?thesis by (auto simp: denFlat_def)
next
  case (Some src)
  with assms(2) have view: "view k src s = Some ys" by (auto simp: bind_eq_Some_conv)
  then obtain xs where xs: "arrayAt k (sl_Array src) s = Some xs" "sl_Offset src + sl_Len src \<le> length xs"
      "ys = take (sl_Len src) (drop (sl_Offset src) xs)" by (auto simp: view_Some)
  then have a: "sl_Array src < length s" "k_elems k (s ! sl_Array src) = Some xs" by (auto simp: arrayAt_def split: if_splits)
  have len: "length ys = sl_Len src" using xs by simp
  show ?thesis
  proof (cases "sl_Len src < sl_Cap src \<and> sl_Offset src + sl_Len src < length xs")
    case True
    let ?t = "s[sl_Array src := k_array k (xs[sl_Offset src + sl_Len src := x])]"
    have "take (Suc (sl_Len src)) (drop (sl_Offset src) (xs[sl_Offset src + sl_Len src := x])) = ys @ [x]"
      using True xs(3) by (subst take_Suc_conv_app_nth) (auto simp: drop_update_swap)
    then have "view k (src\<lparr> sl_Len := Suc (sl_Len src) \<rparr>) ?t = Some (ys @ [x])"
      using True a assms(1) by (simp add: view_Some arrayAt_def stored_type.array_elems)
    moreover have "appendSlice k spare x sl s = Some (src\<lparr> sl_Len := Suc (sl_Len src) \<rparr>, ?t)"
      using True Some xs(1) view by (simp add: Let_def)
    ultimately show ?thesis using Some xs(1)
      by (intro exI [of _ "src\<lparr> sl_Len := Suc (sl_Len src) \<rparr>"] exI [of _ ?t]) auto
  next
    case False
    let ?sl = "\<lparr> sl_Array = length s, sl_Offset = 0, sl_Len = Suc (sl_Len src), sl_Cap = Suc (sl_Len src) + spare \<rparr>"
    let ?t = "s @ [k_array k (ys @ x # replicate spare (k_zero k))]"
    have "view k ?sl ?t = Some (ys @ [x])"
      using len assms(1) by (simp add: view_Some arrayAt_def stored_type.array_elems)
    moreover have "appendSlice k spare x sl s = Some (?sl, ?t)"
      using False Some xs(1) view by (auto simp: Let_def)
    ultimately show ?thesis by (intro exI [of _ ?sl] exI [of _ ?t]) auto
  qed
qed

lemma work_array [simp]: "k_array WorkReferenceKind xs = WorkReferenceCell xs"
  by (simp add: WorkReferenceKind_def)

lemma work_arrayAt: "arrayAt WorkReferenceKind a s = Some xs \<longleftrightarrow> a < length s \<and> s ! a = WorkReferenceCell xs"
  by (auto simp: arrayAt_def WorkReferenceKind_def split: cell.splits)

lemma appendWork_refines:
  assumes den: "denRequest L s p = Some (t, m)"
  shows "\<exists>u. appendWork L p spare w s = Some u
     \<and> denRequest L u p = Some (t, m\<lparr> mig_Status := (mig_Status m)\<lparr> mst_Works := mig_Works m @ [w] \<rparr> \<rparr>)
     \<and> editsOnly L p s u"
proof -
  obtain x where x: "load (PVMigrationKind L) p s = Some x" "t = migM_TypeMeta x"
    "denObjectMeta L s (migM_ObjectMeta x) = Some (mig_meta m)"
    "denPVMigrationSpec s (migM_Spec x) = Some (mig_Spec m)"
    "denPVMigrationStatus s (migM_Status x) = Some (mig_Status m)"
    using denRequest_parts [OF den] by metis
  let ?works = "mstM_Works (migM_Status x)"
  have slice: "denSlice WorkReferenceKind denFlat s ?works = Some (mig_Works m)" using x(5) by (simp add: status_iff)
  have kind: "stored_type WorkReferenceKind" by (rule stored_types)
  from appendSlice_refines [OF kind slice, of spare w] obtain sl' s1 where
    app: "appendSlice WorkReferenceKind spare w ?works s = Some (sl', s1)"
      "denSlice WorkReferenceKind denFlat s1 (Some sl') = Some (mig_Works m @ [w])"
    and where_: "(\<exists>xs. s1 = s @ [WorkReferenceCell xs] \<and> sl_Array sl' = length s) \<or>
      (\<exists>xs xs' src. ?works = Some src \<and> sl_Array sl' = sl_Array src \<and> s ! sl_Array src = WorkReferenceCell xs' \<and>
         s1 = s[sl_Array src := WorkReferenceCell xs])"
    unfolding work_array work_arrayAt by blast
  have kept: "load (PVMigrationKind L) p s1 = Some x \<and>
      (denObjectMeta L s1 (migM_ObjectMeta x) = Some (mig_meta m) \<and> reachObjectMeta L s1 (migM_ObjectMeta x) = reachObjectMeta L s (migM_ObjectMeta x)) \<and>
      (denPVMigrationSpec s1 (migM_Spec x) = Some (mig_Spec m) \<and> reachPVMigrationSpec s1 (migM_Spec x) = reachPVMigrationSpec s (migM_Spec x)) \<and>
      length s \<le> length s1 \<and> (\<forall>a<length s. a \<notin> reachRequest L s p \<longrightarrow> s1 ! a = s ! a) \<and>
      sl_Array sl' \<in> reachRequest L s p \<union> {length s..<length s1}"
    using where_
  proof (elim disjE exE conjE)
    fix xs
    assume s1: "s1 = s @ [WorkReferenceCell xs]" and sl': "sl_Array sl' = length s"
    have "load (PVMigrationKind L) p s1 = Some x"
      using x(1) by (rule load_same) (use load_cell [OF x(1)] in \<open>auto simp: s1 nth_append\<close>)
    with deep_copier.grown [OF ObjectMeta_copier x(3), of "[WorkReferenceCell xs]"]
      deep_copier.grown [OF PVMigrationSpec_copier x(4), of "[WorkReferenceCell xs]"] show ?thesis
      by (simp add: s1 sl' nth_append)
  next
    fix xs xs' src
    assume src: "?works = Some src" "sl_Array sl' = sl_Array src" "s ! sl_Array src = WorkReferenceCell xs'"
      and s1: "s1 = s[sl_Array src := WorkReferenceCell xs]"
    have "sl_Array src \<noteq> fst p" using load_cell [OF x(1)] src(3) by auto
    then have "load (PVMigrationKind L) p s1 = Some x"
      using load_cell [OF x(1)] by (intro load_same [OF x(1)]) (auto simp: s1)
    moreover have reached: "sl_Array src \<in> reachRequest L s p"
      using x(1) src(1) by (simp add: reachVar_def reachPVMigration_def reachPVMigrationStatus_def)
    moreover have "s1 ! a = s ! a" if "a \<notin> reachRequest L s p" for a
      using that reached unfolding s1 by (metis nth_list_update_neq)
    moreover have "denObjectMeta L s1 (migM_ObjectMeta x) = Some (mig_meta m) \<and>
        reachObjectMeta L s1 (migM_ObjectMeta x) = reachObjectMeta L s (migM_ObjectMeta x)"
      unfolding s1 by (rule meta_unwritten [OF x(3)]) (simp add: src(3))
    moreover have "denPVMigrationSpec s1 (migM_Spec x) = Some (mig_Spec m) \<and>
        reachPVMigrationSpec s1 (migM_Spec x) = reachPVMigrationSpec s (migM_Spec x)"
      unfolding s1 by (rule spec_unwritten [OF x(4)]) (simp add: src(3))
    moreover have "length s1 = length s" by (simp add: s1)
    ultimately show ?thesis using src(2) by simp
  qed
  let ?g = "\<lambda>st. st\<lparr> mstM_Works := Some sl' \<rparr>"
  have "denPVMigrationStatus s1 (?g (migM_Status x)) = Some ((mig_Status m)\<lparr> mst_Works := mig_Works m @ [w] \<rparr>)"
    using x(5) app(2) by (simp add: status_iff)
  from saveStatus_refines [where g = ?g and x = x and s = s1 and p = p and m = m, OF _ _ _ this] kept x(2) obtain u where
    u: "editStatus L p ?g s1 = Some u"
      "denRequest L u p = Some (t, m\<lparr> mig_Status := (mig_Status m)\<lparr> mst_Works := mig_Works m @ [w] \<rparr> \<rparr>)"
      "length u = length s1" "\<forall>a. a \<noteq> fst p \<longrightarrow> u ! a = s1 ! a"
      "reachRequest L u p = insert (fst p) (reachPVMigration L s1 (x\<lparr> migM_Status := ?g (migM_Status x) \<rparr>))"
    by blast
  have flat: "reachSlice WorkReferenceKind reachFlat s1 (Some sl') = {sl_Array sl'}"
    by (auto simp: reachFlat_def split: option.splits)
  have "reachRequest L u p = insert (fst p) (reachObjectMeta L s (migM_ObjectMeta x) \<union> (reachPVMigrationSpec s (migM_Spec x) \<union> {sl_Array sl'}))"
    using kept flat by (simp add: u(5) reachPVMigration_def reachPVMigrationStatus_def del: reachSlice.simps)
  moreover have "reachRequest L s p = insert (fst p) (reachPVMigration L s x)" using x(1) by (simp add: reachVar_def)
  moreover have "sl_Array sl' \<in> reachRequest L s p \<union> {length s..<length u}" using kept u(3) by simp
  ultimately have "reachRequest L u p \<subseteq> reachRequest L s p \<union> {length s..<length u}"
    by (auto simp: reachPVMigration_def)
  moreover have "fst p \<in> reachRequest L s p" by (simp add: reachVar_def)
  ultimately have "editsOnly L p s u"
    using kept u(3,4) unfolding editsOnly_def by metis
  moreover have "appendWork L p spare w s = Some u" using x(1) app(1) u(1) by (simp add: appendWork_def)
  ultimately show ?thesis using u(2) by blast
qed

lemma editWork_refines:
  assumes den: "denRequest L s p = Some (t, m)" and i: "i < length (mig_Works m)"
  shows "\<exists>u. editWork L p i f s = Some u \<and> denRequest L u p = Some (t, updateRef i f m) \<and> editsOnly L p s u"
proof -
  obtain x where x: "load (PVMigrationKind L) p s = Some x" "t = migM_TypeMeta x"
    "denObjectMeta L s (migM_ObjectMeta x) = Some (mig_meta m)"
    "denPVMigrationSpec s (migM_Spec x) = Some (mig_Spec m)"
    "denPVMigrationStatus s (migM_Status x) = Some (mig_Status m)"
    using denRequest_parts [OF den] by metis
  obtain xs where xs: "fst p < length s" "s ! fst p = PVMigrationCell xs"
    using load_cell [OF x(1)] by blast
  obtain sl where sl: "mstM_Works (migM_Status x) = Some sl" "view WorkReferenceKind sl s = Some (mig_Works m)"
    using x(5) i by (cases "mstM_Works (migM_Status x)") (auto simp: status_iff bind_eq_Some_conv)
  let ?a = "sl_Array sl" and ?o = "sl_Offset sl"
  obtain ws where ws: "?a < length s" "s ! ?a = WorkReferenceCell ws" "?o + sl_Len sl \<le> length ws"
      "mig_Works m = take (sl_Len sl) (drop ?o ws)"
    using sl(2) by (auto simp: view_Some arrayAt_def WorkReferenceKind_def split: if_splits cell.splits)
  have i': "i < sl_Len sl" "ws ! (?o + i) = mig_Works m ! i" "?o + i < length ws"
    using i ws by auto
  let ?u = "s[?a := WorkReferenceCell (ws[?o + i := f (mig_Works m ! i)])]"
  have load: "load (PVMigrationKind L) p ?u = Some x"
    by (rule load_same [OF x(1)]) (use xs ws in \<open>auto simp: nth_list_update\<close>)
  have view: "view WorkReferenceKind sl ?u = Some ((mig_Works m)[i := f (mig_Works m ! i)])"
    using ws i' by (simp add: view_Some arrayAt_def WorkReferenceKind_def take_update_swap drop_update_swap)
  have meta: "denObjectMeta L ?u (migM_ObjectMeta x) = Some (mig_meta m)
      \<and> reachObjectMeta L ?u (migM_ObjectMeta x) = reachObjectMeta L s (migM_ObjectMeta x)"
    by (rule meta_unwritten [OF x(3)]) (simp add: ws(2))
  have spec: "denPVMigrationSpec ?u (migM_Spec x) = Some (mig_Spec m)
      \<and> reachPVMigrationSpec ?u (migM_Spec x) = reachPVMigrationSpec s (migM_Spec x)"
    by (rule spec_unwritten [OF x(4)]) (simp add: ws(2))
  have status: "denPVMigrationStatus ?u (migM_Status x) = Some (mig_Status (updateRef i f m))"
    using x(5) sl view by (simp add: status_iff updateRef_def)
  have "denRequest L ?u p = Some (migM_TypeMeta x, updateRef i f m)"
    by (rule denRequest_intro [OF load]) (use meta spec status in \<open>simp_all add: updateRef_def\<close>)
  moreover have "editWork L p i f s = Some ?u"
    using x(1) sl(1) ws i' by (simp add: editWork_def workPtr_def elemPtr_def load_def save_def arrayAt_def
        WorkReferenceKind_def)
  moreover have "editsOnly L p s ?u"
    using load x(1) meta spec sl view
    by (auto simp: editsOnly_def reachVar_def reachPVMigration_def reachPVMigrationStatus_def
        simp del: reachSlice.simps)
  ultimately show ?thesis
    using x(2) by auto
qed

lemma runEdit_refines:
  assumes "denRequest L s p = Some (t, m)" "editInRange (length (mig_Works m)) e"
  shows "\<exists>u. runEdit L p e s = Some u \<and> denRequest L u p = Some (t, applyEdit e m) \<and> editsOnly L p s u"
proof (cases e)
  case (SetWork i f)
  then show ?thesis
    using editWork_refines [OF assms(1)] assms(2) by simp
next
  case (AppendWork spare w)
  then show ?thesis
    using appendWork_refines [OF assms(1)] by simp
qed (simp_all, (rule editStatus_refines [OF assms(1)];
    simp add: status_iff)+)

lemma applyEdit_length [simp]: "length (mig_Works (applyEdit e m)) = workCount e (length (mig_Works m))"
  by (cases e) (simp_all add: updateRef_def)

lemma edits_elsewhere:
  assumes "editsOnly L p s t" "denRequest L s q = Some v" "reachRequest L s q \<inter> reachRequest L s p = {}"
  shows "denRequest L t q = Some v"
proof -
  have "same_on (reachRequest L s q) s t"
    unfolding same_on_def
  proof
    fix a
    assume a: "a \<in> reachRequest L s q"
    then have "a < length s"
      using deep_copier.bounded [OF request_copier assms(2)] by blast
    with a assms(1,3) show "a < length t \<and> t ! a = s ! a"
      by (auto simp: editsOnly_def)
  qed
  with deep_copier.framed [OF request_copier assms(2)] show ?thesis
    by blast
qed

lemma runEdits_refine:
  assumes "denRequest L s p = Some (t, m)" "editsInRange (length (mig_Works m)) es"
  shows "\<exists>u. runEdits L p es s = Some u \<and> denRequest L u p = Some (t, fold applyEdit es m) \<and> editsOnly L p s u"
  using assms
proof (induction es arbitrary: s m)
  case (Cons e es)
  obtain u where u: "runEdit L p e s = Some u" "denRequest L u p = Some (t, applyEdit e m)" "editsOnly L p s u"
    using runEdit_refines [OF Cons.prems(1)] Cons.prems(2) by auto
  obtain u' where "runEdits L p es u = Some u'" "denRequest L u' p = Some (t, fold applyEdit es (applyEdit e m))"
      "editsOnly L p u u'"
    using Cons.IH [OF u(2)] Cons.prems(2) by auto
  then show ?case
    using u editsOnly_trans by fastforce
qed (simp add: editsOnly_def)

end

section \<open>A request in memory\<close>

text \<open>
  The concrete store of the witnesses: a request with one mapping and two references, which are
  the last two elements of an array of three; its labels are a map shared by nothing else.
\<close>

definition memRef :: "string \<Rightarrow> WorkReference" where
  "memRef name = \<lparr> ref_PVUID = [], ref_PVCUID = [], ref_Standalone = False, ref_RoutingWorkUID = [],
     ref_RoutingGeneration = 0, ref_Name = name, ref_Namespace = ''karmada-es-b'', ref_Applied = False,
     ref_Detached = False \<rparr>"

definition memType :: TypeMeta where
  "memType = \<lparr> tm_APIVersion = ''migration.dcnlab.com/v1alpha1'', tm_Kind = ''PVMigration'' \<rparr>"

definition memMeta :: ObjectMeta where
  "memMeta = emptyMeta\<lparr> om_Name := ''move'', om_UID := ''u1'' \<rparr>"

definition memStore :: "library_value store" where
  "memStore =
    [PVMigrationCell [\<lparr> migM_TypeMeta = memType,
       migM_ObjectMeta = zeroValue\<lparr> lv_meta := memMeta, lv_labels := Some (3, 0) \<rparr>,
       migM_Spec = \<lparr> msM_MetadataRef = ''db'', msM_SourceCluster = ''a'', msM_TargetCluster = ''b'',
         msM_ResourceBinding = ''db-sts'', msM_SourceFenced = True,
         msM_Volumes = Some \<lparr> sl_Array = 1, sl_Offset = 0, sl_Len = 1, sl_Cap = 1 \<rparr> \<rparr>,
       migM_Status = \<lparr> mstM_ObservedGeneration = 1, mstM_Phase = ''Progressing'', mstM_Message = [],
         mstM_PlanHash = ''h'', mstM_Works = Some \<lparr> sl_Array = 2, sl_Offset = 1, sl_Len = 2, sl_Cap = 2 \<rparr> \<rparr> \<rparr>],
     VolumeMappingCell [\<lparr> vmap_SourcePVC = ''data-db-0'', vmap_TargetPVC = ''data-db-0'' \<rparr>],
     WorkReferenceCell [memRef ''w0'', memRef ''w1'', memRef ''w2''],
     LibraryCell (zeroValue\<lparr> lv_maps := [fmupd ''app'' ''db'' fmempty] \<rparr>)]"

definition memRequest :: PVMigration where
  "memRequest = \<lparr>
     mig_meta = memMeta\<lparr> om_Labels := fmupd ''app'' ''db'' fmempty, om_Annotations := fmempty \<rparr>,
     mig_Spec = \<lparr> ms_MetadataRef = ''db'', ms_SourceCluster = ''a'', ms_TargetCluster = ''b'',
       ms_ResourceBinding = ''db-sts'', ms_SourceFenced = True,
       ms_Volumes = [\<lparr> vmap_SourcePVC = ''data-db-0'', vmap_TargetPVC = ''data-db-0'' \<rparr>] \<rparr>,
     mig_Status = \<lparr> mst_ObservedGeneration = 1, mst_Phase = ''Progressing'', mst_Message = [],
       mst_PlanHash = ''h'', mst_Works = [memRef ''w1'', memRef ''w2''] \<rparr> \<rparr>"

lemmas mem_kinds = kind_defs mapKind_def timeKind_def claimKind_def libraryKind_def

lemma memRequest_read: "denRequest referenceCopies memStore (0, 0) = Some (memType, memRequest)"
  by (simp add: memStore_def memRequest_def denVar_def load_def arrayAt_def view_def mem_kinds
      referenceCopies_def denPVMigration_def denPVMigrationSpec_def denPVMigrationStatus_def denFlat_def
      mapOf_def zeroValue_def)

text \<open>
  A metadata object with one cluster snapshot, that has one standalone volume with the
  specification of its claim behind a pointer, and the times of the collection behind pointers.
\<close>

definition memMetadataStore :: "library_value store" where
  "memMetadataStore =
    [PVMetadataCell [\<lparr> mdM_TypeMeta = memType\<lparr> tm_Kind := ''PVMetadata'' \<rparr>,
       mdM_ObjectMeta = zeroValue\<lparr> lv_meta := memMeta \<rparr>,
       mdM_Spec = \<lparr> mds_WorkloadRef = \<lparr> wr_Name = ''db'', wr_UID = ''u2'' \<rparr>, mds_SourceCluster = ''a'' \<rparr>,
       mdM_Status = zeroMetadataStatus\<lparr> mdstM_CollectedAt := Some (1, 0),
         mdstM_Clusters := Some \<lparr> sl_Array = 2, sl_Offset = 0, sl_Len = 1, sl_Cap = 1 \<rparr> \<rparr> \<rparr>],
     LibraryCell (zeroValue\<lparr> lv_times := [7, 5] \<rparr>),
     ClusterSnapshotCell [\<lparr> csM_ClusterName = ''a'', csM_ObservedGeneration = 1, csM_Ready = True,
       csM_Message = [], csM_CollectedAt = Some (1, 1), csM_WorkloadUID = ''u2'',
       csM_Volumes = Some \<lparr> sl_Array = 3, sl_Offset = 0, sl_Len = 1, sl_Cap = 1 \<rparr> \<rparr>],
     VolumeMetadataCell [\<lparr> vmM_Standalone = True, vmM_PVCSpec = Some (4, 0), vmM_PVCName = ''shared'',
       vmM_PVCUID = ''u3'', vmM_TemplateName = [], vmM_Ordinal = 0, vmM_PVName = ''pv'',
       vmM_PVSpec = zeroValue \<rparr>],
     LibraryCell (zeroValue\<lparr> lv_claims := [emptyClaimSpec] \<rparr>),
     PVMetadataListCell [\<lparr> mdlM_TypeMeta = zeroTypeMeta, mdlM_ListMeta = zeroValue,
       mdlM_Items = Some \<lparr> sl_Array = 0, sl_Offset = 0, sl_Len = 1, sl_Cap = 1 \<rparr> \<rparr>]]"

definition memVolume :: VolumeMetadata where
  "memVolume = \<lparr> vm_Standalone = True, vm_PVCSpec = Some emptyClaimSpec, vm_PVCName = ''shared'',
     vm_PVCUID = ''u3'', vm_TemplateName = [], vm_Ordinal = 0, vm_PVName = ''pv'', vm_PVSpec = emptyVolumeSpec \<rparr>"

lemmas mem_defs = denVar_def load_def arrayAt_def view_def mem_kinds referenceCopies_def denFlat_def
  denVolumeMetadata_def denClusterSnapshot_def denPVMetadataStatus_def denPVMetadata_def
  denPVMetadataList_def mapOf_def zeroValue_def zeroMetadataStatus_def

lemma memVolumes_read:
  "denVolumes referenceCopies memMetadataStore (Some \<lparr> sl_Array = 3, sl_Offset = 0, sl_Len = 1, sl_Cap = 1 \<rparr>)
     = Some [memVolume]"
  by (simp add: memMetadataStore_def memVolume_def mem_defs)

section \<open>Properties\<close>

text \<open>The contract for a function that copies what an optional pointer points to.\<close>

definition copiesPointers :: "('c, 'x) gotype \<Rightarrow> ('c list \<Rightarrow> 'x \<Rightarrow> 'v option) \<Rightarrow> ('c list \<Rightarrow> 'x \<Rightarrow> addr set)
    \<Rightarrow> (ptr option, 'c) copier \<Rightarrow> bool" where
  "copiesPointers k den reach deepCopy \<longleftrightarrow>
     deep_copier (denPointer (denVar k den)) (reachPointer (reachVar k reach)) deepCopy"

lemma copiesPointers_intro:
  assumes "deep_copier den reach into" "stored_type k"
  shows "copiesPointers k den reach (copyPointer (copyToNew k into))"
  unfolding copiesPointers_def
  by (intro deep_copier.pointer_copier element_copier.variable_copier element_copier.intro assms)

text \<open>The denotations read a nil slice as an empty list; that nil is copied to nil, and only nil, is said apart.\<close>

definition keepsNil :: "('x, 'c) copier \<Rightarrow> ('x \<Rightarrow> 'f option) \<Rightarrow> bool" where
  "keepsNil deepCopy field \<longleftrightarrow> (\<forall>x s y t. deepCopy x s = Some (y, t) \<longrightarrow> (field y = None) = (field x = None))"

lemma combinators_keep_nil:
  "copyPointer f p s = Some (q, t) \<Longrightarrow> (q = None) = (p = None)"
  "copySlice k into sl s = Some (dst, t) \<Longrightarrow> (dst = None) = (sl = None)"
  "copyFlatSlice k sl s = Some (dst, t) \<Longrightarrow> (dst = None) = (sl = None)"
  subgoal by (cases p) (auto simp: bind_eq_Some_conv)
  subgoal by (cases sl) (auto simp: Let_def bind_eq_Some_conv split: prod.splits)
  subgoal by (cases sl) (auto simp: Let_def bind_eq_Some_conv split: prod.splits)
  done

lemma snapshot_keeps_nil:
  "keepsNil (ClusterSnapshot_DeepCopyInto L) csM_CollectedAt" "keepsNil (ClusterSnapshot_DeepCopyInto L) csM_Volumes"
  unfolding keepsNil_def ClusterSnapshot_DeepCopyInto_def
  by (clarsimp simp: bind_eq_Some_conv, drule combinators_keep_nil, drule combinators_keep_nil, simp)+

lemma status_keeps_nil:
  "keepsNil (PVMetadataStatus_DeepCopyInto L) mdstM_CollectedAt" "keepsNil (PVMetadataStatus_DeepCopyInto L) mdstM_Volumes"
  "keepsNil (PVMetadataStatus_DeepCopyInto L) mdstM_Clusters"
  unfolding keepsNil_def PVMetadataStatus_DeepCopyInto_def
  by (clarsimp simp: bind_eq_Some_conv, drule combinators_keep_nil, drule combinators_keep_nil,
      drule combinators_keep_nil, simp)+

lemma structs_keep_nil:
  "keepsNil (VolumeMetadata_DeepCopyInto L) vmM_PVCSpec"
  "keepsNil (PVMetadataList_DeepCopyInto L) mdlM_Items" "keepsNil (PVMigrationList_DeepCopyInto L) miglM_Items"
  "keepsNil PVMigrationSpec_DeepCopyInto msM_Volumes" "keepsNil PVMigrationStatus_DeepCopyInto mstM_Works"
  "keepsNil (cloneVolumes L) id"
  unfolding keepsNil_def VolumeMetadata_DeepCopyInto_def PVMetadataList_DeepCopyInto_def PVMigrationList_DeepCopyInto_def
    PVMigrationSpec_DeepCopyInto_def PVMigrationStatus_DeepCopyInto_def cloneVolumes_def
  by (clarsimp simp: bind_eq_Some_conv, drule combinators_keep_nil, simp)+

text \<open>
  C24: Every generated \<open>DeepCopy\<close> of the API package, and \<open>cloneVolumes\<close> of the member controller,
  is a deep copy: it returns for every value that can be read, only allocates, and its result has the
  same value and is made of new arrays alone; an optional pointer or a slice of the copy is nil
  exactly when it is in the original.
\<close>

theorem generated_copies_are_deep:
  assumes "documented_copies L"
  shows "copiesPointers ClusterSnapshotKind (denClusterSnapshot L) (reachClusterSnapshot L) (ClusterSnapshot_DeepCopy L)
    \<and> copiesPointers (PVMetadataKind L) (denPVMetadata L) (reachPVMetadata L) (PVMetadata_DeepCopy L)
    \<and> copiesPointers (PVMetadataListKind L) (denPVMetadataList L) (reachPVMetadataList L) (PVMetadataList_DeepCopy L)
    \<and> copiesPointers PVMetadataSpecKind denFlat reachFlat PVMetadataSpec_DeepCopy
    \<and> copiesPointers PVMetadataStatusKind (denPVMetadataStatus L) (reachPVMetadataStatus L) (PVMetadataStatus_DeepCopy L)
    \<and> copiesPointers (PVMigrationKind L) (denPVMigration L) (reachPVMigration L) (PVMigration_DeepCopy L)
    \<and> copiesPointers (PVMigrationListKind L) (denPVMigrationList L) (reachPVMigrationList L) (PVMigrationList_DeepCopy L)
    \<and> copiesPointers PVMigrationSpecKind denPVMigrationSpec reachPVMigrationSpec PVMigrationSpec_DeepCopy
    \<and> copiesPointers PVMigrationStatusKind denPVMigrationStatus reachPVMigrationStatus PVMigrationStatus_DeepCopy
    \<and> copiesPointers (VolumeMetadataKind L) (denVolumeMetadata L) (reachVolumeMetadata L) (VolumeMetadata_DeepCopy L)
    \<and> copiesPointers VolumeMappingKind denFlat reachFlat VolumeMapping_DeepCopy
    \<and> copiesPointers WorkReferenceKind denFlat reachFlat WorkReference_DeepCopy
    \<and> copiesPointers WorkloadRefKind denFlat reachFlat WorkloadRef_DeepCopy
    \<and> deep_copier (denVolumes L) (reachVolumes L) (cloneVolumes L)
    \<and> keepsNil (ClusterSnapshot_DeepCopyInto L) csM_CollectedAt \<and> keepsNil (ClusterSnapshot_DeepCopyInto L) csM_Volumes
    \<and> keepsNil (PVMetadataStatus_DeepCopyInto L) mdstM_CollectedAt \<and> keepsNil (PVMetadataStatus_DeepCopyInto L) mdstM_Volumes
    \<and> keepsNil (PVMetadataStatus_DeepCopyInto L) mdstM_Clusters \<and> keepsNil (VolumeMetadata_DeepCopyInto L) vmM_PVCSpec
    \<and> keepsNil (PVMetadataList_DeepCopyInto L) mdlM_Items \<and> keepsNil (PVMigrationList_DeepCopyInto L) miglM_Items
    \<and> keepsNil PVMigrationSpec_DeepCopyInto msM_Volumes \<and> keepsNil PVMigrationStatus_DeepCopyInto mstM_Works
    \<and> keepsNil (cloneVolumes L) id"
  unfolding copy_defs
  by (intro conjI snapshot_keeps_nil status_keeps_nil structs_keep_nil [unfolded copy_defs] copiesPointers_intro stored_types flat_struct_copiers PVMigrationSpec_copier
      PVMigrationStatus_copier documented_copies.struct_copiers [OF assms]
      documented_copies.clone_copier [OF assms, unfolded cloneVolumes_def])

lemma generated_copies_are_deep_witness:
  "\<exists>y e. cloneVolumes referenceCopies (Some \<lparr> sl_Array = 3, sl_Offset = 0, sl_Len = 1, sl_Cap = 1 \<rparr>) memMetadataStore
        = Some (y, memMetadataStore @ e)
      \<and> denVolumes referenceCopies (memMetadataStore @ e) y = Some [memVolume]"
proof -
  have clone: "deep_copier (denVolumes referenceCopies) (reachVolumes referenceCopies) (cloneVolumes referenceCopies)"
    using generated_copies_are_deep [OF reference_copies.documented_copies_axioms] by blast
  show ?thesis
    using deep_copier.copied [OF clone memVolumes_read] by blast
qed

text \<open>
  As a \<open>runtime.Object\<close>, the copy of a nil pointer is the nil interface, not an interface
  that holds a nil pointer (which callers could not tell from an object), and the copy of
  any other pointer is the interface of its own type that holds the pointer \<open>DeepCopy\<close> returns.
\<close>

lemma objects_hold_copies:
  shows "PVMigration_DeepCopyObject L None s = Some (None, s)
    \<and> PVMigrationList_DeepCopyObject L None s = Some (None, s)
    \<and> PVMetadata_DeepCopyObject L None s = Some (None, s)
    \<and> PVMetadataList_DeepCopyObject L None s = Some (None, s)
    \<and> (PVMigration_DeepCopyObject L (Some p) s = Some (r, t) \<longrightarrow>
        (\<exists>q. r = Some (PVMigrationObject (Some q)) \<and> PVMigration_DeepCopy L (Some p) s = Some (Some q, t)))
    \<and> (PVMigrationList_DeepCopyObject L (Some p) s = Some (r, t) \<longrightarrow>
        (\<exists>q. r = Some (PVMigrationListObject (Some q)) \<and> PVMigrationList_DeepCopy L (Some p) s = Some (Some q, t)))
    \<and> (PVMetadata_DeepCopyObject L (Some p) s = Some (r, t) \<longrightarrow>
        (\<exists>q. r = Some (PVMetadataObject (Some q)) \<and> PVMetadata_DeepCopy L (Some p) s = Some (Some q, t)))
    \<and> (PVMetadataList_DeepCopyObject L (Some p) s = Some (r, t) \<longrightarrow>
        (\<exists>q. r = Some (PVMetadataListObject (Some q)) \<and> PVMetadataList_DeepCopy L (Some p) s = Some (Some q, t)))"
  by (auto simp: object_defs copy_defs bind_eq_Some_conv)

text \<open>
  C18: The edits that a pass makes through pointers into the request it read (the fields of a Work
  reference, an appended reference, the plan hash, the phase, message and generation) have the
  effect of the pure updates of the controllers' model, and the copy that the pass made before them
  (\<open>base\<close>, from which the patch is computed) still has the old value.  The same edits on the copy
  leave the request as it was, as \<open>ensureWorkRouting\<close> uses its copy \<open>check\<close>.
\<close>

theorem edits_in_place_refine:
  assumes "documented_copies L" "denRequest L s p = Some (t, m)"
    and "editsInRange (length (mig_Works m)) es"
  shows "\<exists>base s1 s2 s3. PVMigration_DeepCopy L (Some p) s = Some (Some base, s1)
      \<and> runEdits L p es s1 = Some s2 \<and> denRequest L s2 p = Some (t, fold applyEdit es m)
      \<and> denRequest L s2 base = Some (t, m)
      \<and> runEdits L base es s1 = Some s3 \<and> denRequest L s3 base = Some (t, fold applyEdit es m)
      \<and> denRequest L s3 p = Some (t, m)"
proof -
  note copier = documented_copies.request_copier [OF assms(1)]
    and edits = documented_copies.runEdits_refine [OF assms(1) _ assms(3)]
  obtain q e where copy: "copyToNew (PVMigrationKind L) (PVMigration_DeepCopyInto L) p s = Some (q, s @ e)"
    "denRequest L (s @ e) q = Some (t, m)" "denRequest L (s @ e) p = Some (t, m)"
    "reachRequest L (s @ e) p \<inter> reachRequest L (s @ e) q = {}"
    using deep_copier.copy_apart [OF copier assms(2)] by metis
  obtain s2 where s2: "runEdits L p es (s @ e) = Some s2" "denRequest L s2 p = Some (t, fold applyEdit es m)"
      "editsOnly L p (s @ e) s2"
    using edits [OF copy(3)] by blast
  obtain s3 where s3: "runEdits L q es (s @ e) = Some s3" "denRequest L s3 q = Some (t, fold applyEdit es m)"
      "editsOnly L q (s @ e) s3"
    using edits [OF copy(2)] by blast
  have "denRequest L s2 q = Some (t, m)"
    by (rule documented_copies.edits_elsewhere [OF assms(1) s2(3) copy(2)]) (use copy(4) in blast)
  moreover have "denRequest L s3 p = Some (t, m)"
    by (rule documented_copies.edits_elsewhere [OF assms(1) s3(3) copy(3)]) (use copy(4) in blast)
  ultimately show ?thesis
    using copy(1) s2 s3 by (auto simp: PVMigration_DeepCopy_def)
qed

lemma edits_in_place_refine_witness:
  "\<exists>base s1 s2. PVMigration_DeepCopy referenceCopies (Some (0, 0)) memStore = Some (Some base, s1)
      \<and> runEdits referenceCopies (0, 0)
          [SetWork 1 (\<lambda>r. r\<lparr> ref_Applied := True \<rparr>), AppendWork 1 (memRef ''w3''), SetPhase ''Ready''] s1 = Some s2
      \<and> mig_Works memRequest = [memRef ''w1'', memRef ''w2'']
      \<and> map_option (\<lambda>v. (mig_Phase (snd v), mig_Works (snd v))) (denRequest referenceCopies s2 (0, 0))
          = Some (''Ready'', [memRef ''w1'', (memRef ''w2'')\<lparr> ref_Applied := True \<rparr>, memRef ''w3''])
      \<and> denRequest referenceCopies s2 base = Some (memType, memRequest)"
proof -
  have works: "mig_Works memRequest = [memRef ''w1'', memRef ''w2'']"
    by (simp add: memRequest_def)
  then have range: "editsInRange (length (mig_Works memRequest))
      [SetWork 1 (\<lambda>r. r\<lparr> ref_Applied := True \<rparr>), AppendWork 1 (memRef ''w3''), SetPhase ''Ready'']"
    by simp
  show ?thesis
    using edits_in_place_refine [OF reference_copies.documented_copies_axioms memRequest_read range] works
    by (force simp: updateRef_def)
qed

end
