(* ===== verification/Aggregation.thy ===== *)
theory Aggregation
  imports MemberSync BuildWorks "HOL-Library.AList"
begin

text \<open>
  The scripts of \<open>config/karmada/ric/pvmetadata_resource_interpreter.yaml\<close>, which Karmada runs
  between the member clusters and the controllers of the management cluster: \<open>ReflectStatus\<close>
  on the status that the member controller published, and \<open>AggregateStatus\<close> on the reflected
  statuses, which writes the \<open>status.clusters\<close> that the planner reads.

  A Lua table made from JSON is a record of optional fields, because the encoding leaves out zero
  values and Lua reads an absent field as \<open>nil\<close>.  A table that the script indexes by cluster name is an
  association list; \<open>table.sort\<close> is the library's sort (the orders are total on the keys compared).
  Indexing a table by \<open>nil\<close> in an assignment is an error of the script: \<open>None\<close>.
\<close>

section \<open>Lua values\<close>

record LuaStatus =
  lua_observedGeneration :: "int option"
  lua_ready :: "bool option"
  lua_message :: "string option"
  lua_collectedAt :: "time option"
  lua_workloadUID :: "string option"
  lua_volumes :: "VolumeMetadata list option"

record LuaCluster = LuaStatus +
  lua_clusterName :: "string option"

text \<open>A status item of Karmada, and what the script reads of \<open>desiredObj\<close>.\<close>

record LuaItem =
  item_clusterName :: "string option"
  item_cluster :: "string option"
  item_name :: "string option"
  item_status :: "LuaStatus option"

record LuaObject =
  obj_generation :: "int option"
  obj_sourceCluster :: "string option"
  obj_clusters :: "LuaCluster list option"

definition luaInt :: "int \<Rightarrow> int option" where
  "luaInt n = (if n = 0 then None else Some n)"

definition luaString :: "string \<Rightarrow> string option" where
  "luaString s = (if s = [] then None else Some s)"

definition emptyLuaStatus :: LuaStatus where
  "emptyLuaStatus = \<lparr> lua_observedGeneration = None, lua_ready = None, lua_message = None,
     lua_collectedAt = None, lua_workloadUID = None, lua_volumes = None \<rparr>"

text \<open>The JSON of a published status (every field is \<open>omitempty\<close>), and of a snapshot read back.\<close>

definition publishedStatus :: "PVMetadataStatus \<Rightarrow> LuaStatus" where
  "publishedStatus st =
     \<lparr> lua_observedGeneration = luaInt (mdst_ObservedGeneration st),
       lua_ready = (if mdst_Ready st then Some True else None),
       lua_message = luaString (mdst_Message st), lua_collectedAt = mdst_CollectedAt st,
       lua_workloadUID = luaString (mdst_WorkloadUID st),
       lua_volumes = (if mdst_Volumes st = [] then None else Some (mdst_Volumes st)) \<rparr>"

definition orZero :: "'a \<Rightarrow> 'a option \<Rightarrow> 'a" where
  "orZero z v = (case v of None \<Rightarrow> z | Some x \<Rightarrow> x)"

lemma orZero_simps [simp]:
  "orZero z None = z" "orZero z (Some x) = x" "orZero 0 (luaInt n) = n" "orZero [] (luaString s) = s"
  by (simp_all add: orZero_def luaInt_def luaString_def)

definition snapshotOf :: "LuaCluster \<Rightarrow> ClusterSnapshot" where
  "snapshotOf c =
     \<lparr> cs_ClusterName = orZero [] (lua_clusterName c),
       cs_ObservedGeneration = orZero 0 (lua_observedGeneration c),
       cs_Ready = orZero False (lua_ready c), cs_Message = orZero [] (lua_message c),
       cs_CollectedAt = lua_collectedAt c, cs_WorkloadUID = orZero [] (lua_workloadUID c),
       cs_Volumes = orZero [] (lua_volumes c) \<rparr>"

section \<open>InterpretHealth and ReflectStatus\<close>

definition InterpretHealth :: "int option \<Rightarrow> LuaStatus option \<Rightarrow> bool" where
  "InterpretHealth generation status =
     (case status of
        None \<Rightarrow> False
      | Some st \<Rightarrow>
          if generation = None then lua_ready st = Some True
          else lua_ready st = Some True \<and> lua_observedGeneration st = generation)"

definition ReflectStatus :: "LuaStatus option \<Rightarrow> LuaStatus" where
  "ReflectStatus status =
     (case status of
        None \<Rightarrow> emptyLuaStatus
      | Some st \<Rightarrow>
          \<lparr> lua_observedGeneration = lua_observedGeneration st, lua_ready = lua_ready st,
            lua_message = lua_message st, lua_collectedAt = lua_collectedAt st,
            lua_workloadUID = lua_workloadUID st, lua_volumes = lua_volumes st \<rparr>)"

section \<open>AggregateStatus\<close>

text \<open>
  \<open>a.ordinal or -1\<close>: the encoding leaves out ordinal 0, so it sorts as \<open>-1\<close>.  The sort here
  keeps the order of equal keys, which Lua does not promise; volumes of distinct claims have
  distinct keys, and then every sort gives this list (\<open>sortVolumes_unique\<close>).
\<close>

definition volumeKey :: "VolumeMetadata \<Rightarrow> int \<times> string" where
  "volumeKey v = (if vm_Ordinal v = 0 then - 1 else sint (vm_Ordinal v), vm_PVCName v)"

definition volumeBefore :: "VolumeMetadata \<Rightarrow> VolumeMetadata \<Rightarrow> bool" where
  "volumeBefore a b \<longleftrightarrow>
     (if fst (volumeKey a) \<noteq> fst (volumeKey b) then fst (volumeKey a) < fst (volumeKey b)
      else snd (volumeKey a) < snd (volumeKey b))"

fun insertVolume :: "VolumeMetadata \<Rightarrow> VolumeMetadata list \<Rightarrow> VolumeMetadata list" where
  "insertVolume v [] = [v]"
| "insertVolume v (w # ws) = (if volumeBefore w v then w # insertVolume v ws else v # w # ws)"

fun sortVolumes :: "VolumeMetadata list \<Rightarrow> VolumeMetadata list" where
  "sortVolumes [] = []"
| "sortVolumes (v # vs) = insertVolume v (sortVolumes vs)"

definition copyVolumes :: "VolumeMetadata list option \<Rightarrow> VolumeMetadata list" where
  "copyVolumes volumes = (case volumes of None \<Rightarrow> [] | Some vs \<Rightarrow> sortVolumes vs)"

text \<open>\<open>item.clusterName or item.cluster or item.name or ""\<close>\<close>

definition clusterNameOf :: "LuaItem \<Rightarrow> string" where
  "clusterNameOf item =
     (case item_clusterName item of Some n \<Rightarrow> n
      | None \<Rightarrow> (case item_cluster item of Some n \<Rightarrow> n
                | None \<Rightarrow> (case item_name item of Some n \<Rightarrow> n | None \<Rightarrow> [])))"

fun previousClusters ::
  "string \<Rightarrow> LuaCluster list \<Rightarrow> (string \<times> LuaCluster) list \<Rightarrow> (string \<times> LuaCluster) list option" where
  "previousClusters src [] previous = Some previous"
| "previousClusters src (c # cs) previous =
     (if src = [] \<or> lua_clusterName c = Some src
      then (case lua_clusterName c of
              None \<Rightarrow> None
            | Some n \<Rightarrow> previousClusters src cs (AList.update n c previous))
      else previousClusters src cs previous)"

definition currentReport :: "int option \<Rightarrow> LuaStatus \<Rightarrow> bool" where
  "currentReport generation status \<longleftrightarrow>
     lua_ready status = Some True \<and> generation \<noteq> None \<and> lua_observedGeneration status = generation"

text \<open>One entry: the report, or the record of the last good one under a ready flag that is false.\<close>

definition nextCluster ::
  "int option \<Rightarrow> (string \<times> LuaCluster) list \<Rightarrow> string \<Rightarrow> LuaStatus \<Rightarrow> LuaCluster" where
  "nextCluster generation previous name status =
     (let ready = currentReport generation status;
          lastGood = (case map_of previous name of
             None \<Rightarrow> None
           | Some old \<Rightarrow> if \<not> ready \<and> lua_volumes old \<noteq> None then Some old else None)
      in case lastGood of
           Some old \<Rightarrow>
             \<lparr> lua_observedGeneration = lua_observedGeneration old, lua_ready = Some ready,
               lua_message = lua_message old, lua_collectedAt = lua_collectedAt old,
               lua_workloadUID = lua_workloadUID old,
               lua_volumes = Some (copyVolumes (lua_volumes old)), lua_clusterName = Some name \<rparr>
         | None \<Rightarrow>
             \<lparr> lua_observedGeneration = lua_observedGeneration status, lua_ready = Some ready,
               lua_message = lua_message status, lua_collectedAt = lua_collectedAt status,
               lua_workloadUID = lua_workloadUID status,
               lua_volumes = Some (copyVolumes (lua_volumes status)), lua_clusterName = Some name \<rparr>)"

fun reportedClusters ::
  "string \<Rightarrow> int option \<Rightarrow> (string \<times> LuaCluster) list \<Rightarrow> LuaItem list \<Rightarrow> (string \<times> LuaCluster) list \<Rightarrow>
   (string \<times> LuaCluster) list" where
  "reportedClusters src generation previous [] next = next"
| "reportedClusters src generation previous (item # rest) next =
     (let name = clusterNameOf item;
          status = (case item_status item of None \<Rightarrow> emptyLuaStatus | Some st \<Rightarrow> st)
      in reportedClusters src generation previous rest
           (if src = [] \<or> name = src
            then AList.update name (nextCluster generation previous name status) next
            else next))"

definition staleCluster :: "string \<Rightarrow> LuaCluster \<Rightarrow> LuaCluster" where
  "staleCluster name old =
     \<lparr> lua_observedGeneration = lua_observedGeneration old, lua_ready = Some False,
       lua_message = lua_message old, lua_collectedAt = lua_collectedAt old,
       lua_workloadUID = lua_workloadUID old,
       lua_volumes = Some (copyVolumes (lua_volumes old)), lua_clusterName = Some name \<rparr>"

fun missingClusters ::
  "(string \<times> LuaCluster) list \<Rightarrow> (string \<times> LuaCluster) list \<Rightarrow> (string \<times> LuaCluster) list" where
  "missingClusters [] next = next"
| "missingClusters ((name, old) # rest) next =
     missingClusters rest
       (if map_of next name = None then AList.update name (staleCluster name old) next else next)"

definition byName :: "(string \<times> LuaCluster) list \<Rightarrow> LuaCluster list" where
  "byName next = map (\<lambda>name. the (map_of next name)) (sort (map fst next))"

definition AggregateStatus :: "LuaObject \<Rightarrow> LuaItem list option \<Rightarrow> LuaObject option" where
  "AggregateStatus desired statusItems =
     (let src = orZero [] (obj_sourceCluster desired)
      in case previousClusters src (orZero [] (obj_clusters desired)) [] of
           None \<Rightarrow> None
         | Some previous \<Rightarrow>
             let next = reportedClusters src (obj_generation desired) previous (orZero [] statusItems) [];
                 next = missingClusters previous next
             in Some (desired\<lparr> obj_clusters := Some (byName next) \<rparr>))"

section \<open>Between the clusters\<close>

text \<open>
  The object as Karmada hands it to the script, the item Karmada makes of a member's status, and
  the object as the controllers read it after the script.
\<close>

definition desiredObject :: "PVMetadata \<Rightarrow> LuaCluster list option \<Rightarrow> LuaObject" where
  "desiredObject md clusters =
     \<lparr> obj_generation = luaInt (om_Generation (md_meta md)),
       obj_sourceCluster = luaString (mds_SourceCluster (md_Spec md)), obj_clusters = clusters \<rparr>"

definition memberItem :: "string \<Rightarrow> PVMetadataStatus \<Rightarrow> LuaItem" where
  "memberItem cluster st =
     \<lparr> item_clusterName = Some cluster, item_cluster = None, item_name = None,
       item_status = Some (ReflectStatus (Some (publishedStatus st))) \<rparr>"

definition plannerView :: "PVMetadata \<Rightarrow> LuaCluster list \<Rightarrow> PVMetadata" where
  "plannerView md clusters =
     md\<lparr> md_Status := (md_Status md)\<lparr> mdst_Clusters := map snapshotOf clusters \<rparr> \<rparr>"

end
