(* ===== verification/AggregationResults.thy ===== *)
theory AggregationResults
  imports Aggregation HashResults
begin

text \<open>
  What the planner can rely on about the snapshots that the aggregation script writes: one
  snapshot for a cluster, the last good one while the source is away, and the volumes of a
  successful collection once it is reported.
\<close>

section \<open>Sorting\<close>

abbreviation sortedVolumes :: "VolumeMetadata list \<Rightarrow> bool" where
  "sortedVolumes \<equiv> sorted_wrt (\<lambda>a b. \<not> volumeBefore b a)"

lemma volumeBefore_trans: "\<not> volumeBefore b a \<Longrightarrow> \<not> volumeBefore c b \<Longrightarrow> \<not> volumeBefore c a"
  unfolding volumeBefore_def by (auto split: if_splits)

lemma volumeBefore_asym: "volumeBefore a b \<Longrightarrow> \<not> volumeBefore b a"
  unfolding volumeBefore_def by (auto split: if_splits)

lemma insertVolume_mset [simp]: "mset (insertVolume v ws) = add_mset v (mset ws)"
  by (induction ws) auto

lemma sortVolumes_mset [simp]: "mset (sortVolumes vs) = mset vs"
  by (induction vs) auto

lemma insertVolume_set [simp]: "set (insertVolume v ws) = insert v (set ws)"
  by (metis insertVolume_mset set_mset_add_mset_insert set_mset_mset)

lemma sortVolumes_set [simp]: "set (sortVolumes vs) = set vs"
  by (metis sortVolumes_mset set_mset_mset)

lemma insertVolume_sorted: "sortedVolumes ws \<Longrightarrow> sortedVolumes (insertVolume v ws)"
  by (induction ws) (auto dest: volumeBefore_asym volumeBefore_trans)

lemma sortVolumes_sorted: "sortedVolumes (sortVolumes vs)"
  by (induction vs) (simp_all add: insertVolume_sorted)

lemma insertVolume_front: "\<forall>w\<in>set ws. \<not> volumeBefore w v \<Longrightarrow> insertVolume v ws = v # ws"
  by (cases ws) auto

lemma sortVolumes_id: "sortedVolumes vs \<Longrightarrow> sortVolumes vs = vs"
  by (induction vs) (auto intro: insertVolume_front)

text \<open>
  \<open>table.sort\<close> need not keep the order of volumes it cannot tell apart.  Where claim names are
  distinct, as in every collection, there are none: any sorted arrangement is the one here.
\<close>

lemma sortVolumes_unique:
  assumes "distinct (map vm_PVCName vs)" and "mset ws = mset vs" and "sortedVolumes ws"
  shows "ws = sortVolumes vs"
  using assms
proof (induction ws arbitrary: vs)
  case (Cons w ws)
  have "set (w # ws) = set vs" using Cons.prems(2) mset_eq_setD by blast
  then obtain pre post where vs: "vs = pre @ w # post" using split_list [of w vs] by auto
  have "mset (pre @ post) = mset ws" using Cons.prems(2) vs by simp
  moreover have "distinct (map vm_PVCName (pre @ post))" "sortedVolumes ws" using Cons.prems vs by auto
  ultimately have rest: "ws = sortVolumes (pre @ post)" using Cons.IH by simp
  have least: "volumeBefore w v" if "v \<in> set (pre @ post)" for v
  proof -
    have "vm_PVCName v \<noteq> vm_PVCName w" using that Cons.prems(1) vs by (auto intro: rev_image_eqI)
    moreover have "\<not> volumeBefore v w" using that rest Cons.prems(3) by auto
    ultimately show ?thesis by (auto simp: volumeBefore_def volumeKey_def split: if_splits)
  qed
  have skip: "sortVolumes (us @ w # post) = w # sortVolumes (us @ post)"
    if "\<forall>v\<in>set (us @ post). volumeBefore w v \<and> \<not> volumeBefore v w" for us
    using that by (induction us) (auto intro: insertVolume_front)
  have "\<not> volumeBefore v w" if "v \<in> set (pre @ post)" for v
    using least [OF that] by (auto simp: volumeBefore_def split: if_splits)
  with least skip [of pre] vs rest show ?case by simp
qed simp

section \<open>Tables by cluster name\<close>

lemma set_update: "set (AList.update k v t) \<subseteq> insert (k, v) (set t)"
  by (induction t) auto

definition goodCluster :: "int option \<Rightarrow> string \<Rightarrow> string \<times> LuaCluster \<Rightarrow> bool" where
  "goodCluster generation src entry \<longleftrightarrow> (case entry of (n, c) \<Rightarrow>
     lua_clusterName c = Some n \<and> (src \<noteq> [] \<longrightarrow> n = src)
     \<and> (\<exists>vs. lua_volumes c = Some vs \<and> sortedVolumes vs)
     \<and> (lua_ready c = Some True \<longrightarrow> generation \<noteq> None \<and> lua_observedGeneration c = generation))"

definition goodTable :: "int option \<Rightarrow> string \<Rightarrow> (string \<times> LuaCluster) list \<Rightarrow> bool" where
  "goodTable generation src t \<longleftrightarrow> distinct (map fst t) \<and> (\<forall>e\<in>set t. goodCluster generation src e)"

lemma goodTable_empty [simp]: "goodTable generation src []"
  by (simp add: goodTable_def)

lemma goodTable_update:
  "goodTable generation src t \<Longrightarrow> goodCluster generation src (n, c) \<Longrightarrow> goodTable generation src (AList.update n c t)"
  unfolding goodTable_def using set_update [of n c t] by (auto simp: distinct_update)

lemma copyVolumes_sorted: "sortedVolumes (copyVolumes vs)"
  by (auto simp: copyVolumes_def sortVolumes_sorted split: option.splits)

lemma nextCluster_good:
  "src = [] \<or> n = src \<Longrightarrow> goodCluster generation src (n, nextCluster generation previous n st)"
  by (auto simp: goodCluster_def nextCluster_def Let_def copyVolumes_sorted currentReport_def split: option.splits)

lemma staleCluster_good: "src = [] \<or> n = src \<Longrightarrow> goodCluster generation src (n, staleCluster n old)"
  by (auto simp: goodCluster_def staleCluster_def copyVolumes_sorted)

lemma reportedClusters_good:
  "goodTable generation src t \<Longrightarrow> goodTable generation src (reportedClusters src generation previous items t)"
  by (induction items arbitrary: t) (auto simp: Let_def intro!: goodTable_update nextCluster_good)

lemma previousClusters_names:
  "previousClusters src cs p = Some q \<Longrightarrow> src \<noteq> [] \<Longrightarrow> fst ` set p \<subseteq> {src} \<Longrightarrow> fst ` set q \<subseteq> {src}"
  by (induction cs arbitrary: p) (auto simp: dom_update split: if_splits option.splits)

lemma missingClusters_good:
  "goodTable generation src t \<Longrightarrow> src = [] \<or> fst ` set previous \<subseteq> {src} \<Longrightarrow>
     goodTable generation src (missingClusters previous t)"
  by (induction previous arbitrary: t rule: list.induct) (auto simp: goodTable_update staleCluster_good)

lemma byName_good:
  assumes "goodTable generation src t"
  shows "map lua_clusterName (byName t) = map Some (sort (map fst t))"
    and "c \<in> set (byName t) \<Longrightarrow> \<exists>n. goodCluster generation src (n, c)"
proof -
  have entry: "goodCluster generation src (n, the (map_of t n))" if n: "n \<in> set (map fst t)" for n
  proof -
    obtain c where "map_of t n = Some c"
      using n by (metis map_of_eq_None_iff list.set_map option.exhaust)
    then show ?thesis
      using assms map_of_SomeD unfolding goodTable_def by fastforce
  qed
  then show "map lua_clusterName (byName t) = map Some (sort (map fst t))"
    by (auto simp: byName_def goodCluster_def)
  assume "c \<in> set (byName t)"
  then obtain n where "n \<in> set (map fst t)" "c = the (map_of t n)"
    by (auto simp: byName_def)
  with entry show "\<exists>n. goodCluster generation src (n, c)"
    by metis
qed

lemma findSnapshot_one:
  "distinct (map cs_ClusterName cs) \<Longrightarrow> found = None \<or> src \<notin> set (map cs_ClusterName cs) \<Longrightarrow>
     \<exists>r. findSnapshot src cs found = Ok r"
  by (induction cs arbitrary: found) auto

section \<open>One snapshot for a cluster\<close>

lemma AggregateStatus_good:
  assumes "AggregateStatus desired items = Some out"
  obtains t where "obj_clusters out = Some (byName t)"
    "goodTable (obj_generation desired) (orZero [] (obj_sourceCluster desired)) t"
    "out = desired\<lparr> obj_clusters := Some (byName t) \<rparr>"
proof -
  let ?src = "orZero [] (obj_sourceCluster desired)" and ?gen = "obj_generation desired"
  obtain p where p: "previousClusters ?src (orZero [] (obj_clusters desired)) [] = Some p"
    using assms by (auto simp: AggregateStatus_def Let_def split: option.splits)
  let ?t = "missingClusters p (reportedClusters ?src ?gen p (orZero [] items) [])"
  have "goodTable ?gen ?src ?t"
  proof (rule missingClusters_good)
    show "goodTable ?gen ?src (reportedClusters ?src ?gen p (orZero [] items) [])"
      by (simp add: reportedClusters_good)
    show "?src = [] \<or> fst ` set p \<subseteq> {?src}"
      using previousClusters_names [OF p] by auto
  qed
  with assms p that show thesis
    by (auto simp: AggregateStatus_def Let_def)
qed

text \<open>
  C29: Whatever was recorded and reported, the clusters that the script writes are in strictly
  increasing order of name, so the planner never meets two snapshots of a cluster; an object with a
  source cluster has at most the snapshot of that one; a snapshot is marked ready only if it is of
  the current generation; its volumes are in order.
\<close>

theorem one_snapshot_per_cluster:
  assumes "AggregateStatus desired items = Some out"
  shows "\<exists>cs. obj_clusters out = Some cs
      \<and> sorted_wrt (<) (map cs_ClusterName (map snapshotOf cs))
      \<and> (\<exists>found. findSnapshot s (map snapshotOf cs) None = Ok found)
      \<and> (orZero [] (obj_sourceCluster desired) \<noteq> [] \<longrightarrow>
          set (map cs_ClusterName (map snapshotOf cs)) \<subseteq> {orZero [] (obj_sourceCluster desired)})
      \<and> (\<forall>c\<in>set cs. sortedVolumes (cs_Volumes (snapshotOf c))
          \<and> (cs_Ready (snapshotOf c) \<longrightarrow> obj_generation desired = Some (cs_ObservedGeneration (snapshotOf c))))"
proof -
  let ?src = "orZero [] (obj_sourceCluster desired)"
  obtain t where t: "obj_clusters out = Some (byName t)" "goodTable (obj_generation desired) ?src t"
    using AggregateStatus_good [OF assms] by metis
  have "map (\<lambda>c. orZero [] (lua_clusterName c)) (byName t) = map (orZero []) (map lua_clusterName (byName t))"
    by simp
  then have names: "map cs_ClusterName (map snapshotOf (byName t)) = sort (map fst t)"
    unfolding byName_good(1) [OF t(2)] by (simp add: snapshotOf_def comp_def)
  have distinct: "distinct (sort (map fst t))"
    using t(2) by (simp add: goodTable_def)
  then have sorted: "sorted_wrt (<) (sort (map fst t))"
    by (simp add: strict_sorted_iff)
  have good: "sortedVolumes (cs_Volumes (snapshotOf c))
      \<and> (cs_Ready (snapshotOf c) \<longrightarrow> obj_generation desired = Some (cs_ObservedGeneration (snapshotOf c)))"
    if "c \<in> set (byName t)" for c
    using byName_good(2) [OF t(2) that]
    by (auto simp: goodCluster_def snapshotOf_def orZero_def split: option.splits)
  have "set (sort (map fst t)) \<subseteq> {?src}" if "?src \<noteq> []"
    using t(2) that by (fastforce simp: goodTable_def goodCluster_def)
  moreover have "\<exists>found. findSnapshot s (map snapshotOf (byName t)) None = Ok found"
    by (rule findSnapshot_one) (use names distinct in simp_all)
  ultimately show ?thesis
    using t(1) names sorted good by (intro exI [of _ "byName t"]) metis
qed

section \<open>While the source is away\<close>

definition entryOf :: "LuaItem \<Rightarrow> LuaStatus" where
  "entryOf item = (case item_status item of None \<Rightarrow> emptyLuaStatus | Some st \<Rightarrow> st)"

text \<open>No report of the cluster is both ready and current.\<close>

definition sourceAway :: "int option \<Rightarrow> string \<Rightarrow> LuaItem list \<Rightarrow> bool" where
  "sourceAway generation src items \<longleftrightarrow>
     list_all (\<lambda>item. clusterNameOf item = src \<longrightarrow> \<not> currentReport generation (entryOf item)) items"

definition agedCluster :: "LuaCluster \<Rightarrow> LuaCluster" where
  "agedCluster c = c\<lparr> lua_ready := Some False \<rparr>"

lemma reportedClusters_away:
  assumes "src \<noteq> []" "lua_clusterName c = Some src" "lua_volumes c = Some vs" "sortedVolumes vs"
  shows "sourceAway generation src items \<Longrightarrow> t = [] \<or> t = [(src, agedCluster c)] \<Longrightarrow>
     reportedClusters src generation [(src, c)] items t \<in> {[], [(src, agedCluster c)]}"
proof (induction items arbitrary: t)
  case (Cons item items)
  have "nextCluster generation [(src, c)] src (entryOf item) = agedCluster c" if "clusterNameOf item = src"
    using that Cons.prems(1) assms
    by (simp add: sourceAway_def nextCluster_def Let_def agedCluster_def copyVolumes_def sortVolumes_id)
  then have step: "reportedClusters src generation [(src, c)] (item # items) t
      = reportedClusters src generation [(src, c)] items
          (if clusterNameOf item = src then AList.update src (agedCluster c) t else t)"
    using assms(1) by (simp add: Let_def entryOf_def)
  have "AList.update src (agedCluster c) t = [(src, agedCluster c)]"
    using Cons.prems(2) by auto
  then show ?case
    unfolding step using Cons.prems by (intro Cons.IH) (simp_all add: sourceAway_def)
qed auto

lemma staleCluster_aged:
  "lua_clusterName c = Some src \<Longrightarrow> lua_volumes c = Some vs \<Longrightarrow> sortedVolumes vs \<Longrightarrow> staleCluster src c = agedCluster c"
  by (simp add: staleCluster_def agedCluster_def copyVolumes_def sortVolumes_id)

lemma aggregate_away:
  assumes "src \<noteq> []" "lua_clusterName c = Some src" "lua_volumes c = Some vs" "sortedVolumes vs"
    and "obj_sourceCluster desired = Some src" "obj_clusters desired = Some [c]"
    and "sourceAway (obj_generation desired) src (orZero [] items)"
  shows "AggregateStatus desired items = Some (desired\<lparr> obj_clusters := Some [agedCluster c] \<rparr>)"
proof -
  have "reportedClusters src (obj_generation desired) [(src, c)] (orZero [] items) []
      \<in> {[], [(src, agedCluster c)]}"
    by (rule reportedClusters_away [OF assms(1-4,7)]) simp
  then have "missingClusters [(src, c)] (reportedClusters src (obj_generation desired) [(src, c)] (orZero [] items) [])
      = [(src, agedCluster c)]"
    using staleCluster_aged [OF assms(2-4)] by auto
  then show ?thesis
    using assms(1,2,5,6) by (simp add: AggregateStatus_def byName_def)
qed

lemma plannerView_simps [simp]:
  "md_Spec (plannerView md cs) = md_Spec md" "md_meta (plannerView md cs) = md_meta md"
  "mdst_Clusters (md_Status (plannerView md cs)) = map snapshotOf cs"
  by (simp_all add: plannerView_def)

lemma desiredObject_simps [simp]:
  "obj_generation (desiredObject md cs) = luaInt (om_Generation (md_meta md))"
  "obj_sourceCluster (desiredObject md cs) = luaString (mds_SourceCluster (md_Spec md))"
  "obj_clusters (desiredObject md cs) = cs"
  by (simp_all add: desiredObject_def)

lemma aged_repolled: "repolledMetadata (plannerView md [c]) (plannerView md [agedCluster c])"
  by (simp add: repolledMetadata_def repolled_def snapshotOf_def agedCluster_def)

text \<open>
  C13: Losing the source does not disturb a migration.  Take the clusters that any earlier
  aggregation wrote.  As long as no report of the source cluster is both ready and current (the
  member is offline, its collection fails, or it reports an old generation), the script keeps that
  snapshot, no longer marked ready, and the planner makes the same plan with the same hash from it.
\<close>

theorem outage_keeps_plan:
  assumes "AggregateStatus (desiredObject md0 cs0) items0 = Some out0" "obj_clusters out0 = Some cs" "cs \<noteq> []"
    and "mds_SourceCluster (md_Spec md0) = mds_SourceCluster (md_Spec md)" "mds_SourceCluster (md_Spec md) \<noteq> []"
    and "sourceAway (luaInt (om_Generation (md_meta md))) (mds_SourceCluster (md_Spec md)) (orZero [] items)"
  shows "\<exists>cs'. map_option obj_clusters (AggregateStatus (desiredObject md (Some cs)) items) = Some (Some cs')
      \<and> list_all (\<lambda>c. \<not> cs_Ready (snapshotOf c)) cs'
      \<and> BuildWorks L m (plannerView md cs') = BuildWorks L m (plannerView md cs)
      \<and> planHash L m (plannerView md cs') works = planHash L m (plannerView md cs) works"
proof -
  let ?src = "mds_SourceCluster (md_Spec md)"
  obtain t where "obj_clusters out0 = Some (byName t)"
      "goodTable (obj_generation (desiredObject md0 cs0)) (orZero [] (obj_sourceCluster (desiredObject md0 cs0))) t"
    using AggregateStatus_good [OF assms(1)] by metis
  then have t: "cs = byName t" "goodTable (luaInt (om_Generation (md_meta md0))) ?src t"
    using assms(2,4) by simp_all
  have "fst ` set t \<subseteq> {?src}" "distinct (map fst t)"
    using t(2) assms(5) by (auto simp: goodTable_def goodCluster_def)
  moreover have "t \<noteq> []"
    using assms(3) t(1) by (auto simp: byName_def)
  ultimately obtain c where "t = [(?src, c)]"
    by (cases t; cases "tl t") auto
  then have c: "cs = [c]" "goodCluster (luaInt (om_Generation (md_meta md0))) ?src (?src, c)"
    using t by (simp_all add: byName_def goodTable_def)
  then obtain vs where vs: "lua_clusterName c = Some ?src" "lua_volumes c = Some vs" "sortedVolumes vs"
    by (auto simp: goodCluster_def)
  have "AggregateStatus (desiredObject md (Some cs)) items
      = Some ((desiredObject md (Some cs))\<lparr> obj_clusters := Some [agedCluster c] \<rparr>)"
    by (rule aggregate_away [OF assms(5) vs]) (use assms(5,6) c(1) in \<open>simp_all add: luaString_def\<close>)
  moreover have "\<not> cs_Ready (snapshotOf (agedCluster c))"
    by (simp add: snapshotOf_def agedCluster_def)
  ultimately show ?thesis
    using BuildWorks_repolled [OF aged_repolled [of md c]] c(1)
      planHash_cong [OF identityParts_repolled [OF aged_repolled [of md c]] refl] by auto
qed

section \<open>A successful collection\<close>

lemma previousClusters_total: "src \<noteq> [] \<Longrightarrow> \<exists>q. previousClusters src cs p = Some q"
  by (induction cs arbitrary: p) auto

lemma reportedClusters_append:
  "reportedClusters src generation p (a @ b) t = reportedClusters src generation p b (reportedClusters src generation p a t)"
  by (induction a arbitrary: t) (simp_all add: Let_def)

lemma reportedClusters_others:
  "src \<noteq> [] \<Longrightarrow> list_all (\<lambda>item. clusterNameOf item \<noteq> src) items \<Longrightarrow> reportedClusters src generation p items t = t"
  by (induction items arbitrary: t) (simp_all add: Let_def)

lemma missingClusters_present:
  "fst ` set previous \<subseteq> {n} \<Longrightarrow> missingClusters previous [(n, c)] = [(n, c)]"
  by (induction previous) auto

lemma update_only:
  assumes "distinct (map fst t)" "fst ` set t \<subseteq> {n}"
  shows "AList.update n c t = [(n, c)]"
proof (cases t)
  case (Cons e rest)
  then have "rest = []"
    using assms by (cases rest) auto
  then show ?thesis
    using Cons assms(2) by (cases e) auto
qed simp

lemma clusterNameOf_member [simp]: "clusterNameOf (memberItem cluster st) = cluster"
  by (simp add: clusterNameOf_def memberItem_def)

definition collectedSnapshot :: "string \<Rightarrow> int \<Rightarrow> observation \<Rightarrow> ClusterSnapshot" where
  "collectedSnapshot cluster generation observed =
     \<lparr> cs_ClusterName = cluster, cs_ObservedGeneration = generation, cs_Ready = True,
       cs_Message = ''collected'', cs_CollectedAt = obs_CollectedAt observed,
       cs_WorkloadUID = obs_WorkloadUID observed, cs_Volumes = sortVolumes (obs_Volumes observed) \<rparr>"

lemma nextCluster_collected:
  assumes "om_Generation (md_meta mmd) = generation" "generation \<noteq> 0"
  shows "snapshotOf (nextCluster (luaInt generation) previous cluster
      (ReflectStatus (Some (publishedStatus (successfulStatus current mmd observed)))))
      = collectedSnapshot cluster generation observed"
  using assms
  by (simp add: nextCluster_def Let_def currentReport_def ReflectStatus_def publishedStatus_def successfulStatus_def
      luaInt_def luaString_def snapshotOf_def collectedSnapshot_def copyVolumes_def orZero_def split: option.splits)

text \<open>
  C20: What a member cluster collects is what the planner gets.  When the last report of the source
  cluster is the status of a successful collection, for the current generation, the script
  writes exactly one snapshot: the collected volumes in order, the workload UID and the time of that
  collection, whatever was recorded or reported before; and the planner takes it when the
  collection has a time and a workload UID.
\<close>

theorem collection_reaches_planner:
  assumes "mds_SourceCluster (md_Spec md) = src" "src \<noteq> []"
    and "om_Generation (md_meta mmd) = om_Generation (md_meta md)" "om_Generation (md_meta md) \<noteq> 0"
    and "list_all (\<lambda>item. clusterNameOf item \<noteq> src) later"
  shows "\<exists>out c. AggregateStatus (desiredObject md recorded)
        (Some (earlier @ memberItem src (successfulStatus current mmd observed) # later)) = Some out
      \<and> obj_clusters out = Some [c]
      \<and> snapshotOf c = collectedSnapshot src (om_Generation (md_meta md)) observed
      \<and> mset (cs_Volumes (snapshotOf c)) = mset (obs_Volumes observed)
      \<and> (snapshotUsable (plannerView md [c]) (snapshotOf c)
           \<longleftrightarrow> obs_CollectedAt observed \<noteq> None \<and> obs_WorkloadUID observed \<noteq> [])"
proof -
  let ?gen = "luaInt (om_Generation (md_meta md))" and ?item = "memberItem src (successfulStatus current mmd observed)"
  obtain p where p: "previousClusters src (orZero [] recorded) [] = Some p"
    using previousClusters_total [OF assms(2)] by blast
  let ?t = "reportedClusters src ?gen p earlier []"
  let ?c = "nextCluster ?gen p src (ReflectStatus (Some (publishedStatus (successfulStatus current mmd observed))))"
  have "goodTable ?gen src ?t"
    by (simp add: reportedClusters_good)
  then have "AList.update src ?c ?t = [(src, ?c)]"
    using assms(2) by (intro update_only) (auto simp: goodTable_def goodCluster_def)
  then have "reportedClusters src ?gen p (earlier @ ?item # later) [] = [(src, ?c)]"
    using assms(2,5) by (simp add: reportedClusters_append Let_def memberItem_def [symmetric]
        reportedClusters_others) (simp add: memberItem_def)
  moreover have "missingClusters p [(src, ?c)] = [(src, ?c)]"
    using previousClusters_names [OF p assms(2)] by (intro missingClusters_present) simp
  ultimately have "AggregateStatus (desiredObject md recorded) (Some (earlier @ ?item # later))
      = Some ((desiredObject md recorded)\<lparr> obj_clusters := Some [?c] \<rparr>)"
    using p assms(1) by (simp add: AggregateStatus_def byName_def)
  moreover have "snapshotOf ?c = collectedSnapshot src (om_Generation (md_meta md)) observed"
    by (rule nextCluster_collected [OF assms(3,4)])
  ultimately show ?thesis
    by (auto simp: collectedSnapshot_def snapshotUsable_def)
qed

section \<open>The scenario\<close>

definition demoObservation :: observation where
  "demoObservation = \<lparr> obs_WorkloadUID = ''w'', obs_Volumes = [demoData, demoCkpt], obs_CollectedAt = Some 5 \<rparr>"

definition demoReport :: LuaItem where
  "demoReport = memberItem ''a'' (successfulStatus emptyMetadataStatus demoMetadata demoObservation)"

definition demoFailure :: LuaItem where
  "demoFailure = memberItem ''a'' (failedStatus emptyMetadataStatus ''api server is gone'')"

definition demoAggregated :: LuaCluster where
  "demoAggregated = \<lparr> lua_observedGeneration = Some 1, lua_ready = Some True, lua_message = Some ''collected'',
     lua_collectedAt = Some 5, lua_workloadUID = Some ''w'', lua_volumes = Some [demoCkpt, demoData],
     lua_clusterName = Some ''a'' \<rparr>"

lemma demo_sorted: "sortVolumes [demoData, demoCkpt] = [demoCkpt, demoData]"
  by (simp add: volumeBefore_def volumeKey_def demoData_def demoCkpt_def less_char_def)

lemma demo_aggregated:
  "AggregateStatus (desiredObject demoMetadata None) (Some [demoReport])
     = Some ((desiredObject demoMetadata None)\<lparr> obj_clusters := Some [demoAggregated] \<rparr>)"
  by (simp add: AggregateStatus_def Let_def desiredObject_def demoReport_def memberItem_def clusterNameOf_def
      nextCluster_def currentReport_def ReflectStatus_def publishedStatus_def successfulStatus_def
      demoObservation_def demoMetadata_def demoAggregated_def byName_def copyVolumes_def demo_sorted
      luaInt_def luaString_def del: sortVolumes.simps)

lemma BuildWorks_one_snapshot:
  assumes "md_Spec md' = md_Spec md" "mdst_Clusters (md_Status md) = [c]" "mdst_Clusters (md_Status md') = [c']"
    and "cs_ClusterName c' = cs_ClusterName c" "snapshotUsable md' c' = snapshotUsable md c"
    and "indexVolumes (cs_Volumes c') fmempty = indexVolumes (cs_Volumes c) fmempty"
  shows "BuildWorks L m md' = BuildWorks L m md"
proof -
  have "buildMappings L m md' = buildMappings L m md"
    by (intro ext buildMappings_metadata assms)
  then show ?thesis
    unfolding BuildWorks_def assms(2,3) by (simp add: assms(4,5,6))
qed

lemma demo_aggregated_plan:
  "BuildWorks demoLibraries demoMigration (plannerView demoMetadata [demoAggregated]) = Ok demoWorks"
proof -
  have volumes: "indexVolumes [demoCkpt, demoData] fmempty = indexVolumes [demoData, demoCkpt] fmempty"
    by (simp add: demoCkpt_def demoData_def fmupd_swap)
  have "BuildWorks demoLibraries demoMigration (plannerView demoMetadata [demoAggregated])
      = BuildWorks demoLibraries demoMigration demoMetadata"
    by (rule BuildWorks_one_snapshot [where c = demoSnapshot and c' = "snapshotOf demoAggregated"])
      (simp_all add: snapshotUsable_def snapshotOf_def demoAggregated_def demoMetadata_def demoSnapshot_def
        orZero_def volumes del: indexVolumes.simps)
  then show ?thesis
    using demo_build by simp
qed

text \<open>Applications of the properties.\<close>

lemma one_snapshot_per_cluster_witness:
  "sorted_wrt (<) (map cs_ClusterName (map snapshotOf [demoAggregated]))
     \<and> set (map cs_ClusterName (map snapshotOf [demoAggregated])) \<subseteq> {''a''}"
  using one_snapshot_per_cluster [OF demo_aggregated] by (simp add: demoMetadata_def luaString_def)

lemma demo_away: "sourceAway (luaInt 1) ''a'' [demoFailure]"
  by (simp add: sourceAway_def currentReport_def entryOf_def demoFailure_def memberItem_def failedStatus_def
      ReflectStatus_def publishedStatus_def)

lemma outage_keeps_plan_witness:
  "\<exists>cs'. map_option obj_clusters (AggregateStatus (desiredObject demoMetadata (Some [demoAggregated])) (Some [demoFailure]))
        = Some (Some cs')
      \<and> BuildWorks demoLibraries demoMigration (plannerView demoMetadata cs') = Ok demoWorks"
proof -
  have written: "obj_clusters ((desiredObject demoMetadata None)\<lparr> obj_clusters := Some [demoAggregated] \<rparr>)
      = Some [demoAggregated]"
    by simp
  have "\<exists>cs'. map_option obj_clusters (AggregateStatus (desiredObject demoMetadata (Some [demoAggregated])) (Some [demoFailure]))
        = Some (Some cs')
      \<and> list_all (\<lambda>c. \<not> cs_Ready (snapshotOf c)) cs'
      \<and> BuildWorks demoLibraries demoMigration (plannerView demoMetadata cs')
          = BuildWorks demoLibraries demoMigration (plannerView demoMetadata [demoAggregated])
      \<and> planHash demoLibraries demoMigration (plannerView demoMetadata cs') demoWorks
          = planHash demoLibraries demoMigration (plannerView demoMetadata [demoAggregated]) demoWorks"
    by (rule outage_keeps_plan [OF demo_aggregated written]) (use demo_away in \<open>simp_all add: demoMetadata_def\<close>)
  then show ?thesis
    using demo_aggregated_plan by metis
qed

lemma collection_reaches_planner_witness:
  "\<exists>out c. AggregateStatus (desiredObject demoMetadata (Some [demoAggregated])) (Some [demoFailure, demoReport]) = Some out
      \<and> obj_clusters out = Some [c] \<and> snapshotOf c = collectedSnapshot ''a'' 1 demoObservation
      \<and> snapshotUsable (plannerView demoMetadata [c]) (snapshotOf c)"
proof -
  have reads: "mds_SourceCluster (md_Spec demoMetadata) = ''a''" "om_Generation (md_meta demoMetadata) = 1"
    by (simp_all add: demoMetadata_def)
  show ?thesis
    using collection_reaches_planner [of demoMetadata "''a''" demoMetadata "[]" "Some [demoAggregated]" "[demoFailure]"
        emptyMetadataStatus demoObservation] reads
    by (simp add: demoReport_def [symmetric]) (auto simp: demoObservation_def)
qed

end
