(* ===== verification/Reflection.thy ===== *)
theory Reflection
  imports EvidenceResults
begin

text \<open>
  The reflection scripts of \<open>config/karmada/ric\<close> for volumes and claims
  (\<open>persistentvolume_resource_interpreter.yaml\<close> and
  \<open>persistentvolumeclaim_resource_interpreter.yaml\<close>).  Karmada runs them on the objects of a
  member cluster and puts the result into the status of the Work, where the controllers read it.
  Composed with the checks of the controllers they show what a ready pair says about the target
  cluster itself.

  In Lua an absent field and a JSON null are both \<open>nil\<close>, and a table entry whose value is \<open>nil\<close> does
  not exist.
\<close>

section \<open>The scripts\<close>

definition luaField :: "json \<Rightarrow> string \<Rightarrow> json" where
  "luaField v k = (case v of JObj m \<Rightarrow> jget m k | _ \<Rightarrow> JNull)"

definition luaAt :: "jobj \<Rightarrow> string list \<Rightarrow> json" where
  "luaAt m path = foldl luaField (JObj m) path"

fun luaTable :: "(string \<times> json) list \<Rightarrow> jobj" where
  "luaTable [] = fmempty"
| "luaTable ((k, v) # rest) = (if v = JNull then luaTable rest else fmupd k v (luaTable rest))"

definition reflectVolume :: "jobj \<Rightarrow> jobj" where
  "reflectVolume obj =
     (if luaAt obj [''status''] = JNull then fmempty
      else luaTable
        [(''phase'', luaAt obj [''status'', ''phase'']),
         (''uid'', luaAt obj [''metadata'', ''uid'']),
         (''deletionTimestamp'', luaAt obj [''metadata'', ''deletionTimestamp'']),
         (''migrationUID'', luaAt obj [''metadata'', ''labels'', ''migration.dcnlab.com/migration-uid'']),
         (''claimRef'', luaAt obj [''spec'', ''claimRef'']),
         (''nfs'', luaAt obj [''spec'', ''nfs''])])"

definition reflectClaim :: "jobj \<Rightarrow> jobj" where
  "reflectClaim obj =
     (if luaAt obj [''status''] = JNull then fmempty
      else luaTable
        [(''phase'', luaAt obj [''status'', ''phase'']),
         (''uid'', luaAt obj [''metadata'', ''uid'']),
         (''deletionTimestamp'', luaAt obj [''metadata'', ''deletionTimestamp'']),
         (''migrationUID'', luaAt obj [''metadata'', ''labels'', ''migration.dcnlab.com/migration-uid'']),
         (''volumeName'', luaAt obj [''spec'', ''volumeName''])])"

section \<open>What the reflections read\<close>

lemma jget_luaTable:
  "distinct (map fst kvs) \<Longrightarrow> jget (luaTable kvs) k = (case map_of kvs k of None \<Rightarrow> JNull | Some v \<Rightarrow> v)"
proof (induction kvs rule: luaTable.induct)
  case (2 k' v rest)
  have "map_of rest k' = None"
    using 2(3) by (simp add: map_of_eq_None_iff)
  then show ?case
    using 2 by (auto simp: jget_def)
qed (simp add: jget_def)

lemma luaAt_no_status: "luaAt obj [''status''] = JNull \<Longrightarrow> luaAt obj [''status'', k] = JNull"
  by (simp add: luaAt_def luaField_def)

lemma reflectVolume_reads:
  "jget (reflectVolume obj) ''phase'' = luaAt obj [''status'', ''phase'']"
  "jget (reflectVolume obj) k \<noteq> JNull \<Longrightarrow> luaAt obj [''status''] \<noteq> JNull"
  "luaAt obj [''status''] \<noteq> JNull \<Longrightarrow> jget (reflectVolume obj) ''uid'' = luaAt obj [''metadata'', ''uid'']"
  "luaAt obj [''status''] \<noteq> JNull \<Longrightarrow> jget (reflectVolume obj) ''deletionTimestamp'' = luaAt obj [''metadata'', ''deletionTimestamp'']"
  "luaAt obj [''status''] \<noteq> JNull \<Longrightarrow> jget (reflectVolume obj) ''migrationUID'' = luaAt obj [''metadata'', ''labels'', ''migration.dcnlab.com/migration-uid'']"
  "luaAt obj [''status''] \<noteq> JNull \<Longrightarrow> jget (reflectVolume obj) ''claimRef'' = luaAt obj [''spec'', ''claimRef'']"
  "luaAt obj [''status''] \<noteq> JNull \<Longrightarrow> jget (reflectVolume obj) ''nfs'' = luaAt obj [''spec'', ''nfs'']"
  by (auto simp: reflectVolume_def jget_luaTable luaAt_no_status simp del: luaTable.simps)

lemma reflectClaim_reads:
  "jget (reflectClaim obj) ''phase'' = luaAt obj [''status'', ''phase'']"
  "jget (reflectClaim obj) k \<noteq> JNull \<Longrightarrow> luaAt obj [''status''] \<noteq> JNull"
  "luaAt obj [''status''] \<noteq> JNull \<Longrightarrow> jget (reflectClaim obj) ''uid'' = luaAt obj [''metadata'', ''uid'']"
  "luaAt obj [''status''] \<noteq> JNull \<Longrightarrow> jget (reflectClaim obj) ''deletionTimestamp'' = luaAt obj [''metadata'', ''deletionTimestamp'']"
  "luaAt obj [''status''] \<noteq> JNull \<Longrightarrow> jget (reflectClaim obj) ''migrationUID'' = luaAt obj [''metadata'', ''labels'', ''migration.dcnlab.com/migration-uid'']"
  "luaAt obj [''status''] \<noteq> JNull \<Longrightarrow> jget (reflectClaim obj) ''volumeName'' = luaAt obj [''spec'', ''volumeName'']"
  by (auto simp: reflectClaim_def jget_luaTable luaAt_no_status simp del: luaTable.simps)

lemma luaAt_member: "luaAt m [k, l] = JStr v \<longleftrightarrow> (\<exists>r. jget m k = JObj r \<and> jget r l = JStr v)"
  by (auto simp: luaAt_def luaField_def split: json.splits)

lemma strAt_member:
  "strAt m [k, l] = v \<Longrightarrow> v \<noteq> [] \<Longrightarrow> \<exists>r. jget m k = JObj r \<and> jget r l = JStr v"
  by (auto simp: strAt_Cons2 strAt_one jget_def split: option.splits json.splits)

lemma claimRef_member:
  "luaAt obj [''status''] \<noteq> JNull \<Longrightarrow> strAt (reflectVolume obj) [''claimRef'', k] = v \<Longrightarrow> v \<noteq> [] \<Longrightarrow>
     luaAt obj [''spec'', ''claimRef'', k] = JStr v"
proof -
  assume live: "luaAt obj [''status''] \<noteq> JNull" and v: "strAt (reflectVolume obj) [''claimRef'', k] = v" "v \<noteq> []"
  obtain r where "jget (reflectVolume obj) ''claimRef'' = JObj r" "jget r k = JStr v"
    using strAt_member [OF v] by blast
  moreover have "luaAt obj [''spec'', ''claimRef'', k] = luaField (luaAt obj [''spec'', ''claimRef'']) k"
    by (simp add: luaAt_def)
  ultimately show ?thesis
    using reflectVolume_reads(6) [OF live] by (simp add: luaField_def)
qed

lemma mapAt_one: "mapAt m [k] = (case jget m k of JObj r \<Rightarrow> r | _ \<Rightarrow> fmempty)"
  by (auto simp: mapAt_def NestedMap_def NestedField_Cons jget_def split: option.splits json.splits)

lemma mapAt_two: "mapAt m [k, l] = (case luaAt m [k, l] of JObj r \<Rightarrow> r | _ \<Rightarrow> fmempty)"
  by (auto simp: mapAt_def NestedMap_def NestedField_Cons jget_def luaAt_def luaField_def split: option.splits json.splits)

section \<open>The pair on the target cluster\<close>

text \<open>
  The two objects of the member cluster: each is bound, not being deleted and labelled with the
  UID of the request; the claim reference of the volume has the name, namespace and the actual UID of the
  claim; the claim names the volume; and the volume has the planned NFS source.
\<close>

definition boundOnTarget :: "libraries \<Rightarrow> string \<Rightarrow> jobj \<Rightarrow> jobj \<Rightarrow> jobj \<Rightarrow> jobj \<Rightarrow> string \<Rightarrow> string \<Rightarrow> bool" where
  "boundOnTarget L owner pv pvc PV PVC u v \<longleftrightarrow>
     luaAt PV [''metadata'', ''uid''] = JStr u \<and> luaAt PVC [''metadata'', ''uid''] = JStr v \<and>
     luaAt PV [''status'', ''phase''] = JStr ''Bound'' \<and> luaAt PVC [''status'', ''phase''] = JStr ''Bound'' \<and>
     luaAt PV [''metadata'', ''deletionTimestamp''] = JNull \<and> luaAt PVC [''metadata'', ''deletionTimestamp''] = JNull \<and>
     luaAt PV [''metadata'', ''labels'', OwnerLabel] = JStr owner \<and>
     luaAt PVC [''metadata'', ''labels'', OwnerLabel] = JStr owner \<and>
     luaAt PV [''spec'', ''claimRef'', ''name''] = JStr (GetName pvc) \<and>
     luaAt PV [''spec'', ''claimRef'', ''namespace''] = JStr (GetNamespace pvc) \<and>
     luaAt PV [''spec'', ''claimRef'', ''uid''] = luaAt PVC [''metadata'', ''uid''] \<and>
     luaAt PVC [''spec'', ''volumeName''] = JStr (GetName pv) \<and>
     sameBacking L (mapAt pv [''spec'', ''nfs'']) (mapAt PV [''spec'', ''nfs''])"

text \<open>
  C16: When two Works count as a ready pair and their reflections come from the volume \<open>PV\<close> and the
  claim \<open>PVC\<close> of the target cluster by the installed scripts, then these two objects really are
  bound to each other there, as planned, and have exactly the UIDs that the controller records.
\<close>

theorem ready_pair_bound_on_target:
  assumes "splitPairApplied L (Some x) (Some y) = Some (u, v, True)" and "volumeWork x"
    and "sliceAt x statusesPath = Some [JObj s]" "mapAt s [''status''] = reflectVolume PV"
    and "sliceAt y statusesPath = Some [JObj t]" "mapAt t [''status''] = reflectClaim PVC"
  shows "\<exists>pv pvc. sliceAt x manifestsPath = Some [JObj pv] \<and> sliceAt y manifestsPath = Some [JObj pvc]
      \<and> GetKind pv = ''PersistentVolume'' \<and> GetKind pvc = ''PersistentVolumeClaim''
      \<and> boundOnTarget L (sget (GetLabels x) OwnerLabel) pv pvc PV PVC u v"
proof (rule ready_pair_sides [OF assms(1,2)])
  fix pv pvc s' t'
  assume sides: "sliceAt x manifestsPath = Some [JObj pv]" "sliceAt y manifestsPath = Some [JObj pvc]"
    and stat: "sliceAt x statusesPath = Some [JObj s']" "sliceAt y statusesPath = Some [JObj t']"
    and kinds: "GetKind pv = ''PersistentVolume''" "GetKind pvc = ''PersistentVolumeClaim''"
    and bound': "boundStatus x (mapAt s' [''status''])" "boundStatus y (mapAt t' [''status''])"
      "boundClaim y pvc (mapAt t' [''status''])"
    and uids': "jget (mapAt s' [''status'']) ''uid'' = JStr u" "jget (mapAt t' [''status'']) ''uid'' = JStr v"
    and rec': "reciprocal L pv pvc (mapAt s' [''status'']) (mapAt t' [''status''])"
    and rest: "sget (GetLabels x) OwnerLabel = sget (GetLabels y) OwnerLabel" "GetName pvc \<noteq> []"
  have st: "mapAt s' [''status''] = reflectVolume PV" "mapAt t' [''status''] = reflectClaim PVC"
    using stat assms(3-6) by simp_all
  note bound = bound' [unfolded st] and uids = uids' [unfolded st] and rec = rec' [unfolded st]
  have ne: "v \<noteq> []"
    using bound(2) uids(2) by (auto elim!: boundStatus_uid)
  have ns: "GetNamespace pvc \<noteq> []"
    using bound(3) by (simp add: boundClaim_def Let_def)
  note parts = reciprocal_parts [OF rec uids(2) ne rest(2) ns]
  have live: "luaAt PV [''status''] \<noteq> JNull" "luaAt PVC [''status''] \<noteq> JNull"
    using reflectVolume_reads(2) [of PV "''uid''"] reflectClaim_reads(2) [of PVC "''uid''"] uids by auto
  note reads = reflectVolume_reads(1) reflectVolume_reads(3-7) [OF live(1)]
    reflectClaim_reads(1) reflectClaim_reads(3-6) [OF live(2)]
  have "mapAt (reflectVolume PV) [''nfs''] = mapAt PV [''spec'', ''nfs'']"
    by (simp add: mapAt_one mapAt_two reads(6))
  then have "boundOnTarget L (sget (GetLabels x) OwnerLabel) pv pvc PV PVC u v"
    unfolding boundOnTarget_def
    using bound(1,2) uids parts rest(1) claimRef_member [OF live(1) parts(2) rest(2)]
      claimRef_member [OF live(1) parts(3) ns] claimRef_member [OF live(1) parts(4) ne]
    by (simp add: boundStatus_def reads OwnerLabel_def)
  with sides kinds show ?thesis
    by blast
qed

section \<open>The scenario\<close>

definition demoMember :: "string \<Rightarrow> jobj \<Rightarrow> jobj" where
  "demoMember uid spec =
     fmupd ''metadata'' (JObj (fmupd ''uid'' (JStr uid)
         (fmupd ''labels'' (JObj (fmupd ''migration.dcnlab.com/migration-uid'' (JStr ''u'') fmempty)) fmempty)))
       (fmupd ''spec'' (JObj spec) (fmupd ''status'' (JObj (fmupd ''phase'' (JStr ''Bound'') fmempty)) fmempty))"

definition demoTargetPV :: jobj where
  "demoTargetPV = demoMember ''pvuid'' (fmupd ''claimRef'' (JObj (fmupd ''name'' (JStr ''ckpt'') (fmupd ''namespace'' (JStr ''n'')
     (fmupd ''uid'' (JStr ''pvcuid'') fmempty)))) (fmupd ''nfs'' (JObj (nfsJson demoNFS)) fmempty))"

definition demoTargetPVC :: jobj where
  "demoTargetPVC = demoMember ''pvcuid'' (fmupd ''volumeName'' (JStr demoCkptName) fmempty)"

lemma demo_reflected: "reflectVolume demoTargetPV = demoVolumeStatus" "reflectClaim demoTargetPVC = demoClaimStatus"
  by (rule fmap_ext, force simp: reflectVolume_def reflectClaim_def demoTargetPV_def demoTargetPVC_def demoMember_def
      luaAt_def luaField_def jget_def demoVolumeStatus_def demoClaimStatus_def boundFields_def)+

lemma demo_reflections:
  obtains s t where "sliceAt (demoServed ! 1) statusesPath = Some [JObj s]" "mapAt s [''status''] = demoVolumeStatus"
    "sliceAt (demoServed ! 2) statusesPath = Some [JObj t]" "mapAt t [''status''] = demoClaimStatus"
proof (rule ready_pair_sides [OF demo_paired demo_volumeWork])
  fix s t
  assume "sliceAt (demoServed ! 1) statusesPath = Some [JObj s]" "sliceAt (demoServed ! 2) statusesPath = Some [JObj t]"
    "standaloneStatus demoLibraries (demoServed ! 1) = Some (mapAt s [''status''])"
    "standaloneStatus demoLibraries (demoServed ! 2) = Some (mapAt t [''status''])"
  then show thesis
    using that demo_volume_status demo_claim_status by simp
qed

lemma ready_pair_bound_on_target_witness:
  "\<exists>pv pvc. sliceAt (demoServed ! 1) manifestsPath = Some [JObj pv] \<and> sliceAt (demoServed ! 2) manifestsPath = Some [JObj pvc]
      \<and> boundOnTarget demoLibraries (sget (GetLabels (demoServed ! 1)) OwnerLabel) pv pvc demoTargetPV demoTargetPVC ''pvuid'' ''pvcuid''"
proof (rule demo_reflections)
  fix s t
  assume "sliceAt (demoServed ! 1) statusesPath = Some [JObj s]" "mapAt s [''status''] = demoVolumeStatus"
    "sliceAt (demoServed ! 2) statusesPath = Some [JObj t]" "mapAt t [''status''] = demoClaimStatus"
  then show ?thesis
    using ready_pair_bound_on_target [OF demo_paired demo_volumeWork, of s demoTargetPV t demoTargetPVC]
    unfolding demo_reflected by blast
qed

end
