(* ===== verification/Completion.thy ===== *)
theory Completion
  imports WorldResults
begin

text \<open>
  The two controllers together bring a request to its end: from a fresh request whose gate
  passes, the plan is recorded, the Works are created, \<open>Ready\<close> is written, the Works are deleted and
  \<open>Completed\<close> is written, five passes in all, when the server answers as intended.  What makes a
  request \<open>Ready\<close> is shown to be enough for the cleanup to delete each of its Works.
\<close>

section \<open>Versions of one request\<close>

text \<open>Two versions that differ in the status and the resource version only.\<close>

definition sameRequest :: "PVMigration \<Rightarrow> PVMigration \<Rightarrow> bool" where
  "sameRequest m m' \<longleftrightarrow> mig_Spec m = mig_Spec m' \<and>
     (mig_meta m)\<lparr> om_ResourceVersion := [] \<rparr> = (mig_meta m')\<lparr> om_ResourceVersion := [] \<rparr>"

lemma sameRequest_fields:
  assumes "sameRequest m m'"
  shows "mig_Spec m = mig_Spec m'" "mig_UID m = mig_UID m'" "mig_Name m = mig_Name m'"
    "mig_Namespace m = mig_Namespace m'" "om_Annotations (mig_meta m) = om_Annotations (mig_meta m')"
    "om_CreationTimestamp (mig_meta m) = om_CreationTimestamp (mig_meta m')"
    "om_DeletionTimestamp (mig_meta m) = om_DeletionTimestamp (mig_meta m')"
    "om_Generation (mig_meta m) = om_Generation (mig_meta m')"
proof -
  have meta: "f ((mig_meta m)\<lparr> om_ResourceVersion := [] \<rparr>) = f ((mig_meta m')\<lparr> om_ResourceVersion := [] \<rparr>)" for f :: "ObjectMeta \<Rightarrow> 'a"
    using assms by (simp add: sameRequest_def)
  show "mig_Spec m = mig_Spec m'"
    using assms by (simp add: sameRequest_def)
  show "mig_UID m = mig_UID m'" "mig_Name m = mig_Name m'" "mig_Namespace m = mig_Namespace m'"
    using meta [of om_UID] meta [of om_Name] meta [of om_Namespace] by simp_all
  show "om_Annotations (mig_meta m) = om_Annotations (mig_meta m')"
    using meta [of om_Annotations] by simp
  show "om_CreationTimestamp (mig_meta m) = om_CreationTimestamp (mig_meta m')"
    using meta [of om_CreationTimestamp] by simp
  show "om_DeletionTimestamp (mig_meta m) = om_DeletionTimestamp (mig_meta m')"
    using meta [of om_DeletionTimestamp] by simp
  show "om_Generation (mig_meta m) = om_Generation (mig_meta m')"
    using meta [of om_Generation] by simp
qed

lemma sameRequest_refl [simp]: "sameRequest m m"
  by (simp add: sameRequest_def)

lemma sameRequest_updates [simp]:
  "sameRequest (withVersion rv m) m' \<longleftrightarrow> sameRequest m m'"
  "sameRequest (m\<lparr> mig_Status := st \<rparr>) m' \<longleftrightarrow> sameRequest m m'"
  "sameRequest (withPhase m ph t) m' \<longleftrightarrow> sameRequest m m'"
  "sameRequest (set_works refs m) m' \<longleftrightarrow> sameRequest m m'"
  by (simp_all add: sameRequest_def withVersion_def withPhase_def set_works_def)

lemma peerConflict_same:
  assumes "sameRequest m m'"
  shows "peerConflict m = peerConflict m'"
  unfolding peerConflict_def claimConflict_def olderPeer_def sameRequest_fields [OF assms] by (rule refl)

lemma selectedHold_same:
  assumes "sameRequest m m'"
  shows "validateSelectedTargetHold L m = validateSelectedTargetHold L m'"
  unfolding validateSelectedTargetHold_def holdChecks_def Let_def sameRequest_fields [OF assms] by (rule refl)

lemma checkClusters_same:
  assumes "sameRequest m m'"
  shows "checkClusters L m md rb n items = checkClusters L m' md rb n items"
  by (induction items) (simp_all add: sameRequest_fields(1) [OF assms] selectedHold_same [OF assms] split: option.splits)

lemma validateBinding_same:
  assumes "sameRequest m m'"
  shows "validateBinding L m md = validateBinding L m' md"
  unfolding validateBinding_def requestCheck_def targetsCheck_def markedStandalone_def Let_def
    sameRequest_fields [OF assms] peerConflict_same [OF assms] checkClusters_same [OF assms] by (rule refl)

lemma plan_same:
  assumes "sameRequest m m'"
  shows "BuildWorks L m md = BuildWorks L m' md" "planHash L m md works = planHash L m' md works"
  unfolding planHash_def identityParts_def snapshotParts_def sameRequest_fields [OF assms]
  by (rule BuildWorks_request_cong; rule sameRequest_fields [OF assms]) (rule refl)

section \<open>One pass as a step of the history\<close>

lemma fresh_version: "\<exists>rv. rv \<notin> versions h"
  by (rule ex_new_if_finite [OF infinite_UNIV_listI]) (simp add: versions_def)

lemma patch_from_stored:
  assumes "new = m\<lparr> mig_Status := mig_Status new \<rparr>"
  shows "patched rv m new m = withVersion rv new"
proof -
  have "patched rv m new m = withVersion rv (m\<lparr> mig_Status := mig_Status new \<rparr>)"
    by (simp add: patched_def)
  then show ?thesis
    unfolding assms [symmetric] .
qed

text \<open>A pass that reads the stored request, nothing of it again, and writes its status at the end.\<close>

lemma pass_step:
  assumes "reachable L req (m # h)" "new = m\<lparr> mig_Status := mig_Status new \<rparr>"
    and "exec (reconcilerProgram L r req) ((GetCall MigrationKind req, Object (MigrationObj m)) # tr @
       [(StatusPatchCall (MigrationObj m) (MigrationObj new), Object obj)]) y"
    and "\<And>reply. (GetCall MigrationKind req, reply) \<notin> set tr"
  shows "\<exists>rv. reachable L req (withVersion rv new # m # h)"
proof -
  obtain rv where rv: "rv \<notin> versions (m # h)"
    using fresh_version by blast
  have reads: "readsHistory req ((GetCall MigrationKind req, Object (MigrationObj m)) # tr) (m # h)"
    using assms(4) by (auto simp: readsHistory_def)
  have "worldStep L req (m # h) (patched rv m new m # m # h)"
    by (rule status_patch [OF _ reads refl rv, of L r _ obj "[]" y]) (use assms(3) in simp)
  then show ?thesis
    using step [OF assms(1)] unfolding patch_from_stored [OF assms(2)] by blast
qed

section \<open>What makes a request ready is enough for the cleanup\<close>

lemma planned_facts:
  assumes "BuildWorks L m md = Ok works" "w \<in> set works"
  shows "GetNamespace w = executionNamespace m" "boolAt w [''spec'', ''preserveResourcesOnDeletion'']"
    "\<exists>xs. sliceAt w manifestsPath = Some xs"
    "standaloneWork w \<Longrightarrow> GetName w = pairNameOf w \<or> GetName w = pairNameOf w @ ''-pvc''"
proof -
  obtain mapping v i r where w: "w = plannedWork m v (volumeName L m md mapping) i r"
    and i: "i = 0 \<or> i = 1 \<and> vm_Standalone v"
    using assms by (rule BuildWorks_work) blast
  show "GetNamespace w = executionNamespace m" "boolAt w [''spec'', ''preserveResourcesOnDeletion'']"
    "\<exists>xs. sliceAt w manifestsPath = Some xs"
    by (simp_all add: w plannedWork_reads)
  show "standaloneWork w \<Longrightarrow> GetName w = pairNameOf w \<or> GetName w = pairNameOf w @ ''-pvc''"
    using i by (auto simp: w standaloneWork_def plannedWork_reads workLabels_reads workName_def split: if_splits)
qed

lemma validateWork_same:
  "mig_UID m = mig_UID m' \<Longrightarrow> mig_Works m = mig_Works m' \<Longrightarrow> validateWork w e m = validateWork w e m'"
  by (simp add: validateWork_def workGenerationAllowed_def)

lemma evidence_deletable:
  assumes "BuildWorks L m md = Ok works" "e \<in> set works" "refMatches ref e" "ref_Applied ref" "\<not> ref_Detached ref"
    and "validateWork w e m = None" "workApplied L w" "ref_Standalone ref \<Longrightarrow> standaloneReceiptMatches L w ref"
  shows "deletable L m ref w"
proof -
  note planned = planned_facts [OF assms(1,2)]
  have valid: "sget (GetLabels w) OwnerLabel = mig_UID m" "sget (GetLabels w) ManagedLabel = ManagerName"
    "comparableWorkSpec w = comparableWorkSpec e" "workGenerationAllowed w m"
    using assms(6) by (simp_all add: validateWork_None_iff)
  obtain xs where "sliceAt e manifestsPath = Some xs"
    using planned(3) by blast
  then have "boolAt w [''spec'', ''preserveResourcesOnDeletion'']"
    using planned(2) comparableWorkSpec_eq(2) [OF valid(3), of xs "''preserveResourcesOnDeletion''" "[]"]
    by (simp add: boolAt_def)
  moreover have "ref_Namespace ref = ''karmada-es-'' @ ms_TargetCluster (mig_Spec m)"
    using assms(3) planned(1) by (simp add: refMatches_def executionNamespace_def)
  ultimately show ?thesis
    using assms valid workApplied_conditions(1) [OF assms(7)] by (simp add: deletable_def)
qed

lemma evidence_in_plan:
  assumes "BuildWorks L m md = Ok works" "planHash L m md works = Ok (mst_PlanHash (mig_Status m))"
    and "distinct (map GetName works)" "i < length works" "refMatches ref (works ! i)" "validateWork w (works ! i) m = None"
    and "GetName w = GetName (works ! i)" "GetNamespace w = GetNamespace (works ! i)"
  shows "planStillMatches L m md ref w = Ok ()"
proof -
  have "matchPlanned m ref w works False = Ok True"
    by (rule matchPlanned_one [OF assms(4) assms(7,8) [symmetric] assms(3) _ assms(6)])
      (use assms(5) in \<open>simp add: refMatches_def\<close>)
  then show ?thesis
    by (simp add: planStillMatches_def assms(1,2))
qed

lemma observe_other:
  "n \<notin> GetName ` set ws \<Longrightarrow> fmlookup (fold (\<lambda>w. fmupd (GetName w) w) ws m) n = fmlookup m n"
  by (induction ws arbitrary: m) auto

lemma observedMap_nth:
  assumes "distinct (map GetName ws)" "w \<in> set ws"
  shows "fmlookup (observedMap ws) (GetName w) = Some w"
proof -
  have "fmlookup (fold (\<lambda>w. fmupd (GetName w) w) ws m) (GetName w) = Some w" for m
    using assms
  proof (induction ws arbitrary: m)
    case (Cons x xs)
    show ?case
    proof (cases "w \<in> set xs")
      case True
      with Cons show ?thesis by simp
    next
      case False
      with Cons.prems have "w = x" "GetName x \<notin> GetName ` set xs" by simp_all
      then show ?thesis by (simp add: observe_other)
    qed
  qed simp
  then show ?thesis
    by (simp add: observedMap_def)
qed

lemma observe_member:
  "fmlookup (fold (\<lambda>w. fmupd (GetName w) w) ws m) n = Some x \<Longrightarrow> GetName x = n \<or> fmlookup m n = Some x"
proof (induction ws arbitrary: m)
  case (Cons w ws)
  have "fmlookup (fold (\<lambda>w. fmupd (GetName w) w) ws (fmupd (GetName w) w m)) n = Some x"
    using Cons.prems by simp
  from Cons.IH [OF this] show ?case
    by (cases "GetName w = n") auto
qed simp

lemma observedMap_member: "fmlookup (observedMap ws) n = Some x \<Longrightarrow> GetName x = n"
  unfolding observedMap_def by (drule observe_member) simp

lemma ready_receipt_matches:
  assumes "pairReady L works ws uids i" "distinct (map GetName ws)" "w \<in> set ws"
    and "GetName w = pairNameOf (works ! i) \<or> GetName w = pairNameOf (works ! i) @ ''-pvc''"
    and "pairNameOf w = pairNameOf (works ! i)"
    and "ref_PVUID ref = fst (uids i)" "ref_PVCUID ref = snd (uids i)"
  shows "standaloneReceiptMatches L w ref"
proof -
  let ?p = "pairNameOf (works ! i)" and ?o = "observedMap ws"
  have split: "splitPairApplied L (fmlookup ?o ?p) (fmlookup ?o (?p @ ''-pvc'')) = Some (fst (uids i), snd (uids i), True)"
    using assms(1) by (simp add: pairReady_def)
  then obtain x y where xy: "fmlookup ?o ?p = Some x" "fmlookup ?o (?p @ ''-pvc'') = Some y"
    by (auto simp: splitPairApplied_def split: option.splits)
  have "GetName x = ?p"
    using xy(1) observedMap_member by metis
  moreover have "w = x \<or> w = y"
    using assms(4) observedMap_nth [OF assms(2,3)] xy by auto
  moreover have "pairNameOf x = pairNameOf y"
    using split unfolding xy by (auto simp: splitPairApplied_def split: if_splits)
  ultimately have "volumeWork x"
    using assms(5) by (auto simp: volumeWork_def)
  with receipts_match [OF split [unfolded xy] _ assms(6,7)] \<open>w = x \<or> w = y\<close> show ?thesis
    by auto
qed

section \<open>A request that is admitted, and its Works once applied\<close>

text \<open>The gate passes on the replies of \<open>gate\<close>, which do not read the request itself, and the plan is built.\<close>

definition acceptedRequest ::
  "libraries \<Rightarrow> namespaced_name \<Rightarrow> PVMetadata \<Rightarrow> trace \<Rightarrow> jobj list \<Rightarrow> string \<Rightarrow> PVMigration \<Rightarrow> bool" where
  "acceptedRequest L req md gate works hash m \<longleftrightarrow>
     exec (validateBinding L m md) gate (Ok ()) \<and> (\<forall>reply. (GetCall MigrationKind req, reply) \<notin> set gate) \<and>
     BuildWorks L m md = Ok works \<and> planHash L m md works = Ok hash \<and> works \<noteq> [] \<and> distinct (map GetName works)"

text \<open>The Works \<open>ws\<close> of the server are the planned ones, applied and reflected as Bound pairs.\<close>

definition landed ::
  "libraries \<Rightarrow> PVMigration \<Rightarrow> jobj list \<Rightarrow> jobj list \<Rightarrow> (nat \<Rightarrow> string \<times> string) \<Rightarrow> bool" where
  "landed L m works ws uids \<longleftrightarrow> length ws = length works \<and>
     (\<forall>i < length works. GetName (ws ! i) = GetName (works ! i) \<and> GetNamespace (ws ! i) = GetNamespace (works ! i) \<and>
        validateWork (ws ! i) (works ! i) m = None \<and> workApplied L (ws ! i) \<and>
        (standaloneWork (works ! i) \<longrightarrow> pairReady L works ws uids i))"

lemma acceptedRequest_same:
  assumes "sameRequest m' m" "acceptedRequest L req md gate works hash m"
  shows "acceptedRequest L req md gate works hash m'"
  using assms(2) unfolding acceptedRequest_def validateBinding_same [OF assms(1)] plan_same [OF assms(1)] .

lemma landed_same:
  assumes "landed L m works ws uids" "mig_UID m = mig_UID m'" "mig_Works m = mig_Works m'"
  shows "landed L m' works ws uids"
  using assms(1) validateWork_same [OF assms(2,3)] by (simp add: landed_def)

lemma version_reads [simp]:
  "mig_Status (withVersion rv m) = mig_Status m" "mig_Spec (withVersion rv m) = mig_Spec m"
  "mig_UID (withVersion rv m) = mig_UID m" "migrationDone (withVersion rv m) = migrationDone m"
  "currentReady (withVersion rv m) = currentReady m"
  by (simp_all add: withVersion_def migrationDone_def currentReady_def)

text \<open>A request whose plan is recorded and whose Works are not known to be applied.\<close>

definition preparing :: "jobj list \<Rightarrow> string \<Rightarrow> PVMigration \<Rightarrow> bool" where
  "preparing works hash m \<longleftrightarrow> IsZero (om_DeletionTimestamp (mig_meta m)) \<and> mig_Phase m = ''Preparing'' \<and>
     mst_PlanHash (mig_Status m) = hash \<and> mig_Works m = map workReference works"

lemma preparing_done: "preparing works hash m \<Longrightarrow> \<not> migrationDone m"
  by (simp add: preparing_def migrationDone_def)

lemma preparing_version [simp]: "preparing works hash (withVersion rv m) = preparing works hash m"
  by (simp add: preparing_def withVersion_def)

lemma preparing_recorded:
  "mig_Works m = [] \<Longrightarrow> \<not> migrationDone m \<Longrightarrow> preparing works hash (recordPlan m hash works)"
  by (simp add: preparing_def recordPlan_def withPhase_def migrationDone_def)

lemma preparing_waiting: "preparing works hash m \<Longrightarrow> preparing works hash (waitingMigration m)"
  by (simp add: preparing_def waitingMigration_def withPhase_def)

lemma workReference_fresh: "refMatches (workReference e) e" "freshRef (workReference e)"
  by (simp_all add: refMatches_def freshRef_def workReference_def)

section \<open>The five passes\<close>

lemma records_step:
  assumes "reachable L req (m # h)" "acceptedRequest L req md gate works hash m" "\<not> migrationDone m" "mig_Works m = []"
  shows "\<exists>rv. reachable L req (withVersion rv (recordPlan m hash works) # m # h)"
proof -
  note adm = assms(2) [unfolded acceptedRequest_def]
  have "exec (reconcilerProgram L (PVMigrationReconciler 0) req)
     ((GetCall MigrationKind req, Object (MigrationObj m)) #
      ((GetCall MetadataKind (mig_Namespace m, ms_MetadataRef (mig_Spec m)), Object (MetadataObj md)) # gate) @
      [(StatusPatchCall (MigrationObj m) (MigrationObj (recordPlan m hash works)), Object (MigrationObj m))])
     (Ok (delay 0, None))"
    using pass_records [of m L md gate works hash 0 req m] adm assms(3,4) by (simp add: reconcilerProgram_def)
  then show ?thesis
    by (rule pass_step [OF assms(1), rotated]) (use adm in \<open>simp_all add: recordPlan_def withPhase_def\<close>)
qed

text \<open>What the pass over the recorded plan does after it has read the request.\<close>

definition creationRun :: "PVMetadata \<Rightarrow> trace \<Rightarrow> jobj list \<Rightarrow> PVMigration \<Rightarrow> trace" where
  "creationRun md gate works m =
     ((GetCall MetadataKind (mig_Namespace m, ms_MetadataRef (mig_Spec m)), Object (MetadataObj md)) # gate @
      concat (map (creation m works works) [0..<length works])) @
     [(StatusPatchCall (MigrationObj m) (MigrationObj (waitingMigration m)), Object (MigrationObj m))]"

lemma creation_run:
  assumes "acceptedRequest L req md gate works hash m" "preparing works hash m"
    and "mst_Message (mig_Status m) \<noteq> ''Waiting for Applied Work and reflected Available/Bound PV''"
  shows "exec (MigrationReconcile L poll req)
     ((GetCall MigrationKind req, Object (MigrationObj m)) # creationRun md gate works m) (Ok (delay poll, None))"
  using pass_creates [OF preparing_done [OF assms(2)], of L md gate works works poll req m] assms
  by (simp add: creationRun_def acceptedRequest_def preparing_def workReference_fresh)

lemma creates_step:
  assumes "reachable L req (m # h)" "acceptedRequest L req md gate works hash m" "preparing works hash m"
    and "mst_Message (mig_Status m) \<noteq> ''Waiting for Applied Work and reflected Available/Bound PV''"
  shows "\<exists>rv. reachable L req (withVersion rv (waitingMigration m) # m # h)"
proof -
  have "exec (reconcilerProgram L (PVMigrationReconciler 0) req)
     ((GetCall MigrationKind req, Object (MigrationObj m)) # creationRun md gate works m) (Ok (delay 0, None))"
    using creation_run [OF assms(2-4)] by (simp add: reconcilerProgram_def)
  then show ?thesis
    unfolding creationRun_def
    by (rule pass_step [OF assms(1), rotated])
      (use assms(2) in \<open>auto simp: waitingMigration_def withPhase_def acceptedRequest_def creation_def\<close>)
qed

lemma landed_in_order:
  assumes "landed L m works ws uids" "preparing works hash m" "i < length works"
  shows "inOrder L m works ws i"
  using assms workReference_fresh [of "works ! i"] workApplied_conditions(1) [of L "ws ! i"]
  by (simp add: landed_def preparing_def inOrder_def freshRef_def)

lemma readies_step:
  assumes "reachable L req (m # h)" "acceptedRequest L req md gate works hash m" "preparing works hash m"
    and "landed L m works ws uids"
  shows "\<exists>rv. reachable L req (withVersion rv (readyMigration m uids) # m # h)"
proof -
  have pairs: "pairReady L works ws uids i" if "i < length works" "ref_Standalone (mig_Works m ! i)" for i
    using assms(3,4) that by (simp add: landed_def preparing_def workReference_def)
  have "exec (reconcilerProgram L (PVMigrationReconciler 0) req)
     ((GetCall MigrationKind req, Object (MigrationObj m)) #
      ((GetCall MetadataKind (mig_Namespace m, ms_MetadataRef (mig_Spec m)), Object (MetadataObj md)) # gate @ workReads m ws) @
      [(StatusPatchCall (MigrationObj m) (MigrationObj (readyMigration m uids)), Object (MigrationObj m))])
     (Ok (delay 0, None))"
    using pass_readies [OF preparing_done [OF assms(3)], of L md gate works ws uids 0 req m]
      landed_in_order [OF assms(4,3)] pairs assms(2-4)
    by (simp add: reconcilerProgram_def acceptedRequest_def preparing_def landed_def)
  then show ?thesis
    by (rule pass_step [OF assms(1), rotated])
      (use assms(2) in \<open>auto simp: readyMigration_def withPhase_def set_works_def acceptedRequest_def workReads_def workRead_def\<close>)
qed

lemma ready_refs:
  assumes "preparing works hash m" "i < length works"
  shows "mig_Works (readyMigration m uids) ! i = receipted uids i (workReference (works ! i))"
  using assms by (simp add: preparing_def readyMigration_def withPhase_def receiptedRefs_def)

lemma ready_progress: "list_all2 refProgress (mig_Works m) (mig_Works (readyMigration m uids))"
  by (simp add: readyMigration_def withPhase_def list_all2_conv_all_nth receiptedRefs_def receipted_def markApplied_def
      refProgress_def ref_identity_def)

lemma ready_valid: "validateWork w e (readyMigration m uids) = validateWork w e m"
proof -
  have "validateWork w e (readyMigration m uids) = validateWork w e (set_works (mig_Works (readyMigration m uids)) m)"
    by (rule validateWork_same) (simp_all add: readyMigration_def withPhase_def)
  also have "\<dots> = validateWork w e m"
    by (rule validateWork_progress [OF ready_progress])
  finally show ?thesis .
qed

lemma ready_current:
  assumes "preparing works hash m" "works \<noteq> []"
  shows "currentReady (readyMigration m uids)"
  using assms by (auto simp: preparing_def currentReady_def readyMigration_def withPhase_def receiptedRefs_def)

lemma receipted_reads [simp]:
  "ref_Applied (receipted uids i ref)" "ref_Detached (receipted uids i ref) = ref_Detached ref"
  "ref_Standalone (receipted uids i ref) = ref_Standalone ref" "refMatches (receipted uids i ref) e = refMatches ref e"
  "ref_Standalone ref \<Longrightarrow> ref_PVUID (receipted uids i ref) = fst (uids i)"
  "ref_Standalone ref \<Longrightarrow> ref_PVCUID (receipted uids i ref) = snd (uids i)"
  by (simp_all add: receipted_def markApplied_def refMatches_def)

text \<open>The evidence that made a request \<open>Ready\<close> lets the cleanup delete every one of its Works.\<close>

lemma ready_deletable:
  assumes "acceptedRequest L req md gate works hash m" "preparing works hash m" "landed L m works ws uids" "i < length works"
  shows "deletable L (readyMigration m uids) (mig_Works (readyMigration m uids) ! i) (ws ! i)"
    "planStillMatches L (readyMigration m uids) md (mig_Works (readyMigration m uids) ! i) (ws ! i) = Ok ()"
proof -
  let ?r = "readyMigration m uids" and ?e = "works ! i" and ?w = "ws ! i"
  let ?ref = "receipted uids i (workReference ?e)"
  have same: "sameRequest ?r m"
    by (simp add: readyMigration_def)
  note adm = acceptedRequest_same [OF same assms(1), unfolded acceptedRequest_def]
  then have build: "BuildWorks L ?r md = Ok works"
    by blast
  have here: "length ws = length works" "GetName ?w = GetName ?e" "GetNamespace ?w = GetNamespace ?e"
    "validateWork ?w ?e m = None" "workApplied L ?w" "standaloneWork ?e \<Longrightarrow> pairReady L works ws uids i"
    using assms(3,4) by (simp_all add: landed_def)
  have "map GetName ws = map GetName works"
    using assms(3) by (intro nth_equalityI) (simp_all add: landed_def)
  then have distinct: "distinct (map GetName ws)"
    using adm by simp
  have label: "pairNameOf ?w = pairNameOf ?e"
    using here(4) by (simp add: validateWork_None_iff)
  have mem: "?e \<in> set works" "?w \<in> set ws"
    using assms(4) here(1) by simp_all
  have open_ref: "\<not> ref_Detached (workReference ?e)"
    by (simp add: workReference_def)
  have receipt: "standaloneReceiptMatches L ?w ?ref" if "ref_Standalone ?ref"
  proof -
    from that have standalone: "standaloneWork ?e" "ref_Standalone (workReference ?e)"
      by (simp_all add: workReference_def)
    show ?thesis
      using planned_facts(4) [OF build mem(1) standalone(1)] here(2) standalone(2)
      by (intro ready_receipt_matches [OF here(6) [OF standalone(1)] distinct mem(2) _ label]) simp_all
  qed
  show "deletable L ?r (mig_Works ?r ! i) ?w"
    unfolding ready_refs [OF assms(2,4)]
    by (rule evidence_deletable [OF build mem(1) _ _ _ _ here(5) receipt])
      (use here(4) open_ref in \<open>simp_all add: workReference_fresh ready_valid\<close>)
  have hash: "mst_PlanHash (mig_Status ?r) = hash"
    using assms(2) by (simp add: preparing_def readyMigration_def withPhase_def)
  show "planStillMatches L ?r md (mig_Works ?r ! i) ?w = Ok ()"
    unfolding ready_refs [OF assms(2,4)]
    by (rule evidence_in_plan [OF build _ _ assms(4) _ _ here(2,3)])
      (use adm here(4) hash in \<open>simp_all add: workReference_fresh ready_valid\<close>)
qed

definition deletionRun :: "PVMetadata \<Rightarrow> jobj list \<Rightarrow> PVMigration \<Rightarrow> trace" where
  "deletionRun md ws m = concat (map (deletion m md ws) [0..<length (mig_Works m)])"

lemma ready_length: "preparing works hash m \<Longrightarrow> length (mig_Works (readyMigration m uids)) = length works"
  by (simp add: preparing_def readyMigration_def withPhase_def receiptedRefs_def)

lemma deletable_version [simp]:
  "deletable L (withVersion rv m) ref w = deletable L m ref w"
  "planStillMatches L (withVersion rv m) md ref w = planStillMatches L m md ref w"
proof -
  have valid: "validateWork v e (withVersion rv m) = validateWork v e m" for v e
    by (rule validateWork_same) simp_all
  have plan: "matchPlanned (withVersion rv m) ref w works b = matchPlanned m ref w works b" for works b
    by (induction works arbitrary: b) (auto simp: valid split: option.split)
  have same: "sameRequest (withVersion rv m) m"
    by simp
  show "deletable L (withVersion rv m) ref w = deletable L m ref w"
    by (simp add: deletable_def workGenerationAllowed_def)
  show "planStillMatches L (withVersion rv m) md ref w = planStillMatches L m md ref w"
    unfolding planStillMatches_def plan plan_same [OF same] version_reads(1) by (rule refl)
qed

lemma deletion_run:
  assumes "acceptedRequest L req md gate works hash m" "preparing works hash m" "landed L m works ws uids"
  shows "exec (CleanupReconcile L poll req) 
     ((GetCall MigrationKind req, Object (MigrationObj (withVersion rv (readyMigration m uids)))) #
        deletionRun md ws (withVersion rv (readyMigration m uids))) (Ok (delay poll, None))"
  unfolding deletionRun_def
proof (rule pass_deletes)
  show "currentReady (withVersion rv (readyMigration m uids))"
    using ready_current [OF assms(2)] assms(1) by (simp add: acceptedRequest_def)
qed (use ready_deletable [OF assms] ready_length [OF assms(2)] in simp_all)

lemma completes_step:
  assumes "reachable L req (withVersion rv (readyMigration m uids) # h)" "acceptedRequest L req md gate works hash m"
    and "preparing works hash m"
  shows "\<exists>rv'. reachable L req (withVersion rv' (completedMigration (withVersion rv (readyMigration m uids))) #
      withVersion rv (readyMigration m uids) # h)"
proof -
  let ?r = "withVersion rv (readyMigration m uids)"
  have build: "BuildWorks L m md = Ok works" and some: "works \<noteq> []"
    using assms(2) by (simp_all add: acceptedRequest_def)
  have owned: "ownedRef ?r (mig_Works ?r ! i)" if i: "i < length (mig_Works ?r)" for i
  proof -
    from i have i: "i < length works"
      using ready_length [OF assms(3)] by simp
    from planned_facts(1) [OF build nth_mem [OF i]] have "GetNamespace (works ! i) = executionNamespace m" .
    then have "ref_Namespace (workReference (works ! i)) = ''karmada-es-'' @ ms_TargetCluster (mig_Spec m)"
      by (simp add: workReference_def executionNamespace_def)
    then show ?thesis
      using ready_refs [OF assms(3) i, of uids]
      by (simp add: ownedRef_def receipted_def markApplied_def workReference_def readyMigration_def withPhase_def)
  qed
  have "currentReady ?r"
    using ready_current [OF assms(3) some] by simp
  from pass_completes [OF this owned, of L 0 req ?r]
  have "exec (reconcilerProgram L (PVCleanupReconciler 0) req)
     ((GetCall MigrationKind req, Object (MigrationObj ?r)) # map goneRead (mig_Works ?r) @
      [(StatusPatchCall (MigrationObj ?r) (MigrationObj (completedMigration ?r)), Object (MigrationObj ?r))])
     (Ok (delay 0, None))"
    by (simp add: reconcilerProgram_def)
  then show ?thesis
    by (rule pass_step [OF assms(1), rotated])
      (auto simp: completedMigration_def completedStatus_def set_works_def goneRead_def)
qed

text \<open>What the creating and the deleting pass ask of the server.\<close>

lemma creationRun_creates:
  assumes "w \<in> set works"
  shows "\<exists>r. (CreateCall (UnstructuredObj w), r) \<in> set (creationRun md gate works m)"
proof -
  obtain i where i: "i < length works" "works ! i = w"
    using assms by (auto simp: in_set_conv_nth)
  then have "(CreateCall (UnstructuredObj w), Object (UnstructuredObj w)) \<in> set (creation m works works i)"
    by (simp add: creation_def)
  with i(1) have "(CreateCall (UnstructuredObj w), Object (UnstructuredObj w)) \<in> set (concat (map (creation m works works) [0..<length works]))"
    by auto
  then have "(CreateCall (UnstructuredObj w), Object (UnstructuredObj w)) \<in> set (creationRun md gate works m)"
    by (simp add: creationRun_def)
  then show ?thesis by blast
qed

lemma deletionRun_deletes:
  assumes "w \<in> set ws" "length (mig_Works m) = length ws"
  shows "\<exists>r. (DeleteCall (UnstructuredObj w) (GetUID w) (GetResourceVersion w), r) \<in> set (deletionRun md ws m)"
proof -
  obtain i where i: "i < length ws" "ws ! i = w"
    using assms(1) by (auto simp: in_set_conv_nth)
  then have "(DeleteCall (UnstructuredObj w) (GetUID w) (GetResourceVersion w), Done) \<in> set (deletion m md ws i)"
    by (simp add: deletion_def)
  with i(1) have "(DeleteCall (UnstructuredObj w) (GetUID w) (GetResourceVersion w), Done) \<in> set (concat (map (deletion m md ws) [0..<length ws]))"
    by auto
  then have "(DeleteCall (UnstructuredObj w) (GetUID w) (GetResourceVersion w), Done) \<in> set (deletionRun md ws m)"
    by (simp add: deletionRun_def assms(2))
  then show ?thesis by blast
qed

section \<open>The versions of an admitted request\<close>

lemma prepared_versions:
  assumes "mig_Status m = emptyMigrationStatus" "IsZero (om_DeletionTimestamp (mig_meta m))"
    and "acceptedRequest L req md gate works hash m" "landed L (recordPlan m hash works) works ws uids"
  obtains planned waiting where "reachable L req [waiting, planned, m]"
    "acceptedRequest L req md gate works hash planned" "acceptedRequest L req md gate works hash waiting"
    "preparing works hash planned" "preparing works hash waiting" "landed L waiting works ws uids"
    "mst_Message (mig_Status planned) = ''PV Work identities recorded''"
    "mst_Message (mig_Status waiting) = ''Waiting for Applied Work and reflected Available/Bound PV''"
proof -
  have start: "mig_Works m = []" "\<not> migrationDone m"
    using assms(1,2) by (simp_all add: emptyMigrationStatus_def migrationDone_def)
  obtain rv1 where planned: "reachable L req [withVersion rv1 (recordPlan m hash works), m]"
    using records_step [OF fresh [OF assms(1)] assms(3) start(2,1)] by blast
  let ?p = "withVersion rv1 (recordPlan m hash works)"
  have p: "sameRequest ?p m" "preparing works hash ?p"
    using preparing_recorded [OF start] by (simp_all add: recordPlan_def)
  have adm_p: "acceptedRequest L req md gate works hash ?p"
    by (rule acceptedRequest_same [OF p(1) assms(3)])
  have message: "mst_Message (mig_Status ?p) = ''PV Work identities recorded''"
    by (simp add: recordPlan_def withPhase_def)
  then have "mst_Message (mig_Status ?p) \<noteq> ''Waiting for Applied Work and reflected Available/Bound PV''"
    by simp
  then obtain rv2 where waiting: "reachable L req [withVersion rv2 (waitingMigration ?p), ?p, m]"
    using creates_step [OF planned adm_p p(2)] by blast
  let ?w = "withVersion rv2 (waitingMigration ?p)"
  have w: "sameRequest ?w ?p" "preparing works hash ?w"
    "mst_Message (mig_Status ?w) = ''Waiting for Applied Work and reflected Available/Bound PV''"
    using preparing_waiting [OF p(2)] by (simp_all add: waitingMigration_def) (simp add: withPhase_def)
  have landed: "landed L ?w works ws uids"
    by (rule landed_same [OF assms(4)]) (simp_all add: waitingMigration_def withPhase_def)
  show thesis
    by (rule that [OF waiting adm_p acceptedRequest_same [OF w(1) adm_p] p(2) w(2) landed message w(3)])
qed

section \<open>The completed scenario\<close>

lemma demo_admitted:
  "acceptedRequest demoLibraries demoReq demoMetadata (gateReads demoInitial demoBinding demoWorkload [demoMigration])
     demoWorks demoHash demoInitial"
proof -
  have "exec (validateBinding demoLibraries demoInitial demoMetadata)
      (gateReads demoInitial demoBinding demoWorkload [demoMigration]) (Ok ())"
    by (intro demo_gate demo_peers demoInitial_spec)
  moreover have "(GetCall MigrationKind demoReq, reply) \<notin> set (gateReads demoInitial demoBinding demoWorkload [demoMigration])" for reply
    by (auto simp: gateReads_def)
  ultimately show ?thesis
    using demo_initial_plan demoWorks_length(3) demo_distinct by (simp add: acceptedRequest_def)
qed

lemma demo_landed: "landed demoLibraries (recordPlan demoInitial demoHash demoWorks) demoWorks demoServed demoUIDs"
proof -
  let ?p = "recordPlan demoInitial demoHash demoWorks"
  have p: "mig_Works ?p = map workReference demoWorks" "mig_UID ?p = ''u''"
    by (simp_all add: recordPlan_def withPhase_def demoInitial_spec demoMigration_def)
  have "pairReady demoLibraries demoWorks demoServed demoUIDs i" if "i < 3" "standaloneWork (demoWorks ! i)" for i
    using demo_recorded_pairs [OF that(1)] that demoRecorded_reads(2) demoWorks_length by (simp add: workReference_def)
  moreover have "inOrder demoLibraries ?p demoWorks demoServed i" if "i < 3" for i
    by (rule demo_in_order [OF that p])
  ultimately show ?thesis
    using demo_served_same demoWorks_length by (simp add: landed_def inOrder_def)
qed

section \<open>The property\<close>

text \<open>
  C8: The two controllers can finish what they admit: for a fresh request whose gate passes and
  whose plan is built, and Works that the target cluster applied as planned and reflects as Bound
  pairs, the stored request can go through exactly four more versions, plan recorded, waiting,
  \<open>Ready\<close> and \<open>Completed\<close>; the pass over the recorded plan returns without an error and creates
  every Work of the plan, and the cleanup pass over the \<open>Ready\<close> version finds the same evidence
  sufficient, returns without an error and deletes every Work that was applied.
\<close>

theorem admitted_request_completes:
  assumes "mig_Status m = emptyMigrationStatus" "IsZero (om_DeletionTimestamp (mig_meta m))"
    and "acceptedRequest L req md gate works hash m" "landed L (recordPlan m hash works) works ws uids"
  shows "\<exists>final ready waiting planned createTr deleteTr.
     reachable L req [final, ready, waiting, planned, m] \<and>
     map mig_Phase [final, ready, waiting, planned] = [''Completed'', ''Ready'', ''Preparing'', ''Preparing''] \<and>
     mst_Message (mig_Status planned) = ''PV Work identities recorded'' \<and>
     mst_Message (mig_Status waiting) = ''Waiting for Applied Work and reflected Available/Bound PV'' \<and>
     exec (MigrationReconcile L poll req) ((GetCall MigrationKind req, Object (MigrationObj planned)) # createTr) (Ok (delay poll, None)) \<and>
     (\<forall>w\<in>set works. \<exists>r. (CreateCall (UnstructuredObj w), r) \<in> set createTr) \<and>
     exec (CleanupReconcile L poll req) ((GetCall MigrationKind req, Object (MigrationObj ready)) # deleteTr) (Ok (delay poll, None)) \<and>
     (\<forall>w\<in>set ws. \<exists>r. (DeleteCall (UnstructuredObj w) (GetUID w) (GetResourceVersion w), r) \<in> set deleteTr)"
proof -
  obtain planned waiting where waiting: "reachable L req [waiting, planned, m]"
    and adm: "acceptedRequest L req md gate works hash planned" "acceptedRequest L req md gate works hash waiting"
    and prep: "preparing works hash planned" "preparing works hash waiting" and landed: "landed L waiting works ws uids"
    and messages: "mst_Message (mig_Status planned) = ''PV Work identities recorded''"
      "mst_Message (mig_Status waiting) = ''Waiting for Applied Work and reflected Available/Bound PV''"
    by (rule prepared_versions [OF assms])
  obtain rv where ready: "reachable L req [withVersion rv (readyMigration waiting uids), waiting, planned, m]"
    using readies_step [OF waiting adm(2) prep(2) landed] by blast
  let ?r = "withVersion rv (readyMigration waiting uids)"
  obtain rv' where completed: "reachable L req [withVersion rv' (completedMigration ?r), ?r, waiting, planned, m]"
    using completes_step [OF ready adm(2) prep(2)] by blast
  have phases: "map mig_Phase [withVersion rv' (completedMigration ?r), ?r, waiting, planned] =
      [''Completed'', ''Ready'', ''Preparing'', ''Preparing'']"
    using prep by (simp add: preparing_def completedMigration_def completedStatus_def readyMigration_def withPhase_def)
  have creates: "\<forall>x\<in>set works. \<exists>r. (CreateCall (UnstructuredObj x), r) \<in> set (creationRun md gate works planned)"
    using creationRun_creates by blast
  have "length (mig_Works ?r) = length ws"
    using ready_length [OF prep(2)] landed by (simp add: landed_def)
  then have deletes: "\<forall>x\<in>set ws. \<exists>r. (DeleteCall (UnstructuredObj x) (GetUID x) (GetResourceVersion x), r) \<in> set (deletionRun md ws ?r)"
    using deletionRun_deletes by blast
  have creating: "exec (MigrationReconcile L poll req)
     ((GetCall MigrationKind req, Object (MigrationObj planned)) # creationRun md gate works planned) (Ok (delay poll, None))"
    by (rule creation_run [OF adm(1) prep(1)]) (simp add: messages(1))
  show ?thesis
    by (intro exI conjI) (rule completed phases messages creating creates deletion_run [OF adm(2) prep(2) landed] deletes)+
qed

theorem admitted_request_completes_witness:
  "\<exists>h. reachable demoLibraries demoReq (h @ [demoInitial]) \<and> mig_Phase (hd h) = ''Completed''"
proof -
  have live: "mig_Status demoInitial = emptyMigrationStatus" "IsZero (om_DeletionTimestamp (mig_meta demoInitial))"
    using demoInitial_spec by (simp_all add: emptyMigrationStatus_def demoMigration_def migrationDone_def)
  from admitted_request_completes [OF live demo_admitted demo_landed, of 0] obtain final ready waiting planned where
    "reachable demoLibraries demoReq ([final, ready, waiting, planned] @ [demoInitial])"
    "mig_Phase (hd [final, ready, waiting, planned]) = ''Completed''"
    by auto
  then show ?thesis by blast
qed

end
