(* ===== verification/Spec2Isabelle.thy ===== *)
theory Spec2Isabelle
  imports GateResults WorldResults DiscoveryResults MemberResults DeepCopyResults AggregationResults Reflection Completion
begin

text \<open>
  A model of the controllers that move the NFS volumes of a StatefulSet from one Karmada member
  cluster to another, and the theorems that make them correct.

  \<^bold>\<open>The program.\<close>  One binary (\<open>cmd/manager/main.go\<close>) runs in two modes.  In member mode it runs
  \<open>PVSyncReconciler\<close> (\<open>internal/member/pvsync_controller.go\<close>), which publishes the bound claims and
  volumes of a StatefulSet of its cluster in the status of a \<open>PVMetadata\<close> object.  In management
  mode it runs three controllers against the Karmada API (\<open>internal/management\<close>):
  \<open>MetadataDiscovery\<close> makes a \<open>PVMetadata\<close> object and a propagation policy for each cluster of an
  opted-in binding; \<open>PVMigrationReconciler\<close> checks a \<open>PVMigration\<close> request (the gate), plans one Work
  for every volume, records the plan with its hash, creates the Works, watches their reflected
  status and writes \<open>Ready\<close>; \<open>PVCleanupReconciler\<close> deletes the Works of a \<open>Ready\<close> request, whose
  volumes stay on the target cluster, and writes \<open>Completed\<close>.  The controllers share nothing but the
  objects of the API server.

  \<^bold>\<open>How the code is modelled.\<close>  A Go function without calls to the server is a HOL function; a Go
  error is \<open>Err\<close>, a panic \<open>Panic\<close> of the type \<open>go\<close> of theory \<open>Prelude\<close>.  A reconciler is a program
  over the API client (\<open>Client\<close>): a tree of calls that branches on the replies, of any kind and
  including failures.  \<open>exec\<close> relates it to its traces, \<open>wp\<close> proves a guard for every call of every
  trace, and the locale \<open>controller\<close> states a contract that each of the four reconcilers
  interprets.  Code of other packages (SHA-256, JSON marshalling, typed converters, DNS
  validation, time parsing, map iteration order) is the record \<open>libraries\<close>, an argument of the
  definitions, as is the largest capacity that \<open>make\<close> accepts for the collected volumes
  (\<open>lib_MaxVolumes\<close>, which the runtime of Go fixes); the locale \<open>documented_libraries\<close> holds what the code relies on and
  \<open>ReferenceLibraries\<close> interprets it.  Integers of 32 bits are words, counters of 64 bits that are
  only compared are integers, times are nanoseconds, quantities integers of nano units (the text they were
  written in is not kept).

  \<^bold>\<open>Theories.\<close>  In the order of the code:
  \<^item> \<open>Prelude\<close>, \<open>GoStrings\<close>, \<open>Json\<close>, \<open>ApiTypes\<close>, \<open>Libraries\<close>: errors, strings and numerals, the
    \<open>unstructured\<close> accessors over JSON (locale \<open>json_paths\<close>), the types of \<open>api/v1alpha1\<close>, the
    parameters.
  \<^item> \<open>VolumeClaims\<close>: \<open>internal/volumeclaims/standalone.go\<close>.
  \<^item> \<open>Resources\<close>, \<open>WorkRouting\<close>, \<open>StandaloneStatus\<close>, \<open>WorkEvidence\<close>: \<open>resources.go\<close>,
    \<open>work_routing.go\<close>, \<open>standalone.go\<close> and the validation part of \<open>migration.go\<close>: names, routing
    annotations, reflected status, when a Work counts as applied.
  \<^item> \<open>BuildWorks\<close>, \<open>Plan\<close>, \<open>PlanFacts\<close>: the plan (\<open>BuildWorks\<close> of \<open>migration.go\<close>, \<open>standaloneClaim\<close>) and
    its hash (\<open>plan.go\<close>).
  \<^item> \<open>Binding\<close>, \<open>BindingFacts\<close>: the gate (\<open>validateBinding\<close>, \<open>validateSelectedTargetHold\<close>), and the
    reservation of target claims as the locale \<open>reservation\<close>.
  \<^item> \<open>Migration\<close>, \<open>Cleanup\<close>, \<open>Discovery\<close>, \<open>MemberSync\<close> and their \<open>Facts\<close>: the four reconcilers and
    their contracts.
  \<^item> \<open>Manager\<close>: \<open>main\<close> after flag parsing as the sequence of its start-up steps.
  \<^item> \<open>World\<close>: the stored request under interleaved passes with stale caches, optimistic locking,
    edits and crashes; its step relation and what a step does to a status.
  \<^item> \<open>Store\<close>, \<open>StoreFacts\<close>: Go memory as arrays behind pointers and slices, with the locales
    \<open>deep_copier\<close>, \<open>element_copier\<close> and \<open>stored_type\<close>; \<open>DeepCopy\<close>, \<open>DeepCopyFacts\<close>: the generated
    functions of \<open>zz_generated.deepcopy.go\<close> and \<open>cloneVolumes\<close> over it, with the copy functions of the
    Kubernetes types as the record \<open>copy_library\<close> (locale \<open>documented_copies\<close>, interpreted by
    \<open>referenceCopies\<close>), and the edits that the passes make through pointers.
  \<^item> \<open>Aggregation\<close>, \<open>Reflection\<close>: the Lua scripts under \<open>config/karmada/ric\<close> (for
    \<open>PVMetadata\<close>, volumes and claims), through which the status of a member cluster reaches the
    controllers.
  \<^item> \<open>MigrationRuns\<close> and \<open>Scenario*\<close>: executions built forwards, and one concrete migration from
    its plan to its completion, to which the properties are applied.
  \<^item> \<open>GateResults\<close>, \<open>PlanResults\<close>, \<open>HashResults\<close>, \<open>EvidenceResults\<close>, \<open>MigrationResults\<close>,
    \<open>CleanupResults\<close>, \<open>DiscoveryResults\<close>, \<open>MemberResults\<close>, \<open>WorldResults\<close>, \<open>DeepCopyResults\<close>,
    \<open>AggregationResults\<close>, \<open>PanicFreedom\<close>, \<open>Completion\<close>: the properties.

  \<^bold>\<open>What is shown.\<close>  Of a single pass: which calls it may make, under which conditions, and what
  each status it writes is based on (gate, creation, repair, evidence, deletion, completion); it
  asks to be run again, and never panics, but for the member controller, which does exactly when
  Go refuses the capacity computed from the workload it read.  Of the plan: it covers the mappings of the request, its
  resources keep no identity of the source, its hash binds the identities.  Of the stored
  request: over every interleaving the recorded plan stays, the phases mean what they say, and
  the controllers refine an abstract life cycle whose changes of phase are guarded by the flags
  of all Works; a request that is admitted and whose Works are
  applied can be completed.  Of the collection: what \<open>Ready\<close> metadata lists, where the 32-bit
  ordinals are exact and what they miss when they overflow, and that the interpreter scripts hand exactly one current snapshot of the
  source cluster to the planner, through an outage too.  Of memory: the copies are deep, and the
  edits in place agree with the updates of the model.

  \<^bold>\<open>Termination.\<close>  Every definition is total and none uses fuel: a reconciler is a finite tree of
  calls, the loops run over lists, the ordinal loop has the signed distance of its 32-bit bounds
  as its measure, and the decoding of numerals is structural.

  \<^bold>\<open>Not modelled.\<close>  The registration of the scheme (\<open>groupversion_info.go\<close>), the parsing of flags
  and the logger, the watches that trigger a pass (a pass may run at any time here), the
  manifests for CRDs, roles and deployments, the helper \<open>list\<close> of \<open>resources.go\<close>, which nothing
  calls, and the rounding of \<open>metav1.Time\<close> to seconds when a status is stored.  The API server is
  arbitrary in the contracts of a pass; only \<open>World\<close> assumes anything of it, the optimistic lock and
  the merge patch of the status.
\<close>

end
